(* ===== verification/Prelude.thy ===== *)
theory Prelude
  imports Main "HOL-Library.Word" "HOL-Library.Sublist"
begin

text \<open>
  Shared vocabulary of the development: the model's basic types, the lemma
  collections the component proofs draw on, and generic facts about lists used as
  SQL tables (rows selected, updated and appended by key).

  Go strings are byte sequences and are modelled by \<^typ>\<open>string\<close>, whose characters are
  exactly the 256 bytes. A \<open>time.Time\<close> is the number of nanoseconds since Go's zero
  instant (1 January of year 1, UTC), so the zero value of the type is \<open>0\<close>; a
  \<open>time.Duration\<close> is a number of nanoseconds. A Go result pair \<open>(value, error)\<close> is a sum,
  \<open>Inl\<close> the error.
\<close>

named_theorems frame_simps \<open>which parts of the world an operation leaves alone\<close>
named_theorems wf_intros \<open>operations keep the store well-formed\<close>

type_synonym time = int
type_synonym duration = int

definition int64_min :: int where
  "int64_min = - (2 ^ 63)"

definition int64_max :: int where
  "int64_max = 2 ^ 63 - 1"

definition in_int64 :: "int \<Rightarrow> bool" where
  "in_int64 n \<longleftrightarrow> int64_min \<le> n \<and> n \<le> int64_max"

lemma int64_bounds_values:
  "int64_min = - 9223372036854775808" "int64_max = 9223372036854775807"
  by (simp_all add: int64_min_def int64_max_def)

text \<open>
  \<open>strings.EqualFold\<close> against a word whose letters fold only within ASCII (every letter but
  k and s does).
\<close>

definition ascii_lower :: "char \<Rightarrow> char" where
  "ascii_lower c = (let b = of_char c :: nat in if 65 \<le> b \<and> b \<le> 90 then char_of (b + 32) else c)"

definition equal_fold :: "string \<Rightarrow> string \<Rightarrow> bool" where
  "equal_fold s t \<longleftrightarrow> map ascii_lower s = map ascii_lower t"

lemma equal_fold_refl [simp]: "equal_fold s s"
  by (simp add: equal_fold_def)

section \<open>Tables as lists of rows with a key\<close>

text \<open>
  An SQL \<open>UPDATE ... WHERE key = k\<close> rewrites every row with that key; a
  \<open>SELECT ... WHERE key = k\<close> reads the first one.
\<close>

definition update_rows :: "('r \<Rightarrow> 'k) \<Rightarrow> 'k \<Rightarrow> ('r \<Rightarrow> 'r) \<Rightarrow> 'r list \<Rightarrow> 'r list" where
  "update_rows key k f rs = map (\<lambda>r. if key r = k then f r else r) rs"

definition select_row :: "('r \<Rightarrow> 'k) \<Rightarrow> 'k \<Rightarrow> 'r list \<Rightarrow> 'r option" where
  "select_row key k rs = find (\<lambda>r. key r = k) rs"

definition matching_rows :: "('r \<Rightarrow> 'k) \<Rightarrow> 'k \<Rightarrow> 'r list \<Rightarrow> nat" where
  "matching_rows key k rs = length (filter (\<lambda>r. key r = k) rs)"

lemma update_rows_keys [simp]:
  assumes "\<And>r. key (f r) = key r"
  shows "map key (update_rows key k f rs) = map key rs"
  using assms by (induction rs) (auto simp: update_rows_def)

lemma length_update_rows [simp]: "length (update_rows key k f rs) = length rs"
  by (simp add: update_rows_def)

lemma in_update_rows_cases:
  assumes "r' \<in> set (update_rows key k f rs)"
  obtains (same) "r' \<in> set rs" "key r' \<noteq> k"
    | (changed) r where "r \<in> set rs" "key r = k" "r' = f r"
  using assms by (auto simp: update_rows_def split: if_splits)

lemma select_row_Some_iff:
  assumes "distinct (map key rs)"
  shows "select_row key k rs = Some r \<longleftrightarrow> r \<in> set rs \<and> key r = k"
  using assms unfolding select_row_def
  by (induction rs) (auto simp: rev_image_eqI)

lemma select_row_SomeD:
  assumes "select_row key k rs = Some r"
  shows "r \<in> set rs" and "key r = k"
  using assms unfolding select_row_def by (auto simp: find_Some_iff)

lemma select_row_None_iff: "select_row key k rs = None \<longleftrightarrow> k \<notin> key ` set rs"
  unfolding select_row_def by (auto simp: find_None_iff)

lemma select_row_update:
  assumes "\<And>r. key (f r) = key r"
  shows "select_row key k' (update_rows key k f rs) =
    (if k' = k then map_option f (select_row key k rs) else select_row key k' rs)"
  using assms by (induction rs) (auto simp: select_row_def update_rows_def)

lemma select_row_append:
  "select_row key k (rs @ [r]) =
    (case select_row key k rs of Some x \<Rightarrow> Some x
     | None \<Rightarrow> if key r = k then Some r else None)"
  by (induction rs) (auto simp: select_row_def)

lemma matching_rows_0_iff: "matching_rows key k rs = 0 \<longleftrightarrow> select_row key k rs = None"
  by (induction rs) (auto simp: matching_rows_def select_row_def)

lemma select_row_matching_pos:
  "select_row key k rs = Some r \<Longrightarrow> matching_rows key k rs \<noteq> 0"
  by (simp add: matching_rows_0_iff)

end
