(* ===== verification/JobStatus.thy ===== *)
theory JobStatus
  imports Prelude
begin

text \<open>
  The job lifecycle of \<open>internal/store/store.go\<close>: the status vocabulary, the transition table
  and the terminal statuses.

  \<open>Status\<close> is a Go string type with nine named constants. The datatype has the nine
  constants and \<open>StatusOther\<close> for any other text, which only a row written by something else
  than this program can hold.
\<close>

datatype Status =
    StatusRunning
  | StatusCheckpointInProgress
  | StatusCheckpointCreated
  | StatusCheckpointCreationFailed
  | StatusRestorePending
  | StatusRestoreFailed
  | StatusFailed
  | StatusCanceled
  | StatusCompleted
  | StatusOther string

fun status_text :: "Status \<Rightarrow> string" where
  "status_text StatusRunning = ''RUNNING''"
| "status_text StatusCheckpointInProgress = ''CHECKPOINT_IN_PROGRESS''"
| "status_text StatusCheckpointCreated = ''CHECKPOINT_CREATED''"
| "status_text StatusCheckpointCreationFailed = ''CHECKPOINT_CREATION_FAILED''"
| "status_text StatusRestorePending = ''RESTORE_PENDING''"
| "status_text StatusRestoreFailed = ''RESTORE_FAILED''"
| "status_text StatusFailed = ''FAILED''"
| "status_text StatusCanceled = ''CANCELED''"
| "status_text StatusCompleted = ''COMPLETED''"
| "status_text (StatusOther s) = s"

definition named_statuses :: "Status list" where
  "named_statuses = [StatusRunning, StatusCheckpointInProgress, StatusCheckpointCreated,
     StatusCheckpointCreationFailed, StatusRestorePending, StatusRestoreFailed, StatusFailed,
     StatusCanceled, StatusCompleted]"

text \<open>The conversion \<open>Status(text)\<close>: the constant with that text, if there is one.\<close>

definition status_of_text :: "string \<Rightarrow> Status" where
  "status_of_text t = (case find (\<lambda>s. status_text s = t) named_statuses of
     Some s \<Rightarrow> s | None \<Rightarrow> StatusOther t)"

definition terminalStatuses :: "Status list" where
  "terminalStatuses = [StatusFailed, StatusCanceled, StatusCompleted]"

fun validTransitions :: "Status \<Rightarrow> Status list" where
  "validTransitions StatusRunning =
     [StatusCheckpointInProgress, StatusCanceled, StatusCompleted, StatusFailed]"
| "validTransitions StatusCheckpointInProgress =
     [StatusCheckpointCreated, StatusCheckpointCreationFailed]"
| "validTransitions StatusCheckpointCreationFailed =
     [StatusCheckpointInProgress, StatusCanceled]"
| "validTransitions StatusCheckpointCreated = [StatusRestorePending, StatusCanceled]"
| "validTransitions StatusRestorePending = [StatusRunning, StatusRestoreFailed]"
| "validTransitions StatusRestoreFailed = [StatusRestorePending, StatusCanceled]"
| "validTransitions _ = []"

definition ValidTransition :: "Status \<Rightarrow> Status \<Rightarrow> bool" where
  "ValidTransition from_st to_st \<longleftrightarrow> list_ex (\<lambda>allowed. allowed = to_st) (validTransitions from_st)"

definition IsTerminal :: "Status \<Rightarrow> bool" where
  "IsTerminal s \<longleftrightarrow> s \<in> set terminalStatuses"

section \<open>The status text\<close>

definition is_named :: "Status \<Rightarrow> bool" where
  "is_named s \<longleftrightarrow> s \<in> set named_statuses"

lemma status_of_text_text [simp]: "is_named s \<Longrightarrow> status_of_text (status_text s) = s"
proof -
  have "list_all (\<lambda>s. status_of_text (status_text s) = s) named_statuses" by code_simp
  then show "is_named s \<Longrightarrow> status_of_text (status_text s) = s"
    by (simp add: is_named_def list_all_iff)
qed

lemma status_text_of_text [simp]: "status_text (status_of_text t) = t"
proof (cases "find (\<lambda>s. status_text s = t) named_statuses")
  case (Some s)
  then have "status_text s = t" by (auto simp: find_Some_iff)
  with Some show ?thesis by (simp add: status_of_text_def)
qed (simp add: status_of_text_def)

lemma status_text_inject:
  "is_named s \<Longrightarrow> is_named t \<Longrightarrow> status_text s = status_text t \<Longrightarrow> s = t"
  by (metis status_of_text_text)

lemma status_of_text_inject [simp]: "status_of_text s = status_of_text t \<longleftrightarrow> s = t"
  by (metis status_text_of_text)

lemma named_constants [simp]:
  "is_named StatusRunning" "is_named StatusCheckpointInProgress" "is_named StatusCheckpointCreated"
  "is_named StatusCheckpointCreationFailed" "is_named StatusRestorePending"
  "is_named StatusRestoreFailed" "is_named StatusFailed" "is_named StatusCanceled"
  "is_named StatusCompleted" "\<not> is_named (StatusOther t)"
  by (simp_all add: is_named_def named_statuses_def)

section \<open>The transition table\<close>

text \<open>The table as a step relation, one rule per arrow of the lifecycle.\<close>

inductive status_step :: "Status \<Rightarrow> Status \<Rightarrow> bool" where
  checkpoint_requested: "status_step StatusRunning StatusCheckpointInProgress"
| cancel_running: "status_step StatusRunning StatusCanceled"
| exits_zero: "status_step StatusRunning StatusCompleted"
| dies: "status_step StatusRunning StatusFailed"
| checkpoint_succeeds: "status_step StatusCheckpointInProgress StatusCheckpointCreated"
| checkpoint_fails: "status_step StatusCheckpointInProgress StatusCheckpointCreationFailed"
| retry_checkpoint: "status_step StatusCheckpointCreationFailed StatusCheckpointInProgress"
| cancel_failed_checkpoint: "status_step StatusCheckpointCreationFailed StatusCanceled"
| resume_requested: "status_step StatusCheckpointCreated StatusRestorePending"
| cancel_checkpointed: "status_step StatusCheckpointCreated StatusCanceled"
| resume_succeeds: "status_step StatusRestorePending StatusRunning"
| resume_fails: "status_step StatusRestorePending StatusRestoreFailed"
| retry_resume: "status_step StatusRestoreFailed StatusRestorePending"
| cancel_failed_restore: "status_step StatusRestoreFailed StatusCanceled"

inductive_cases from_running: "status_step StatusRunning t"
inductive_cases from_in_progress: "status_step StatusCheckpointInProgress t"
inductive_cases from_pending: "status_step StatusRestorePending t"
inductive_cases to_running: "status_step s StatusRunning"

lemma ValidTransition_iff_step: "ValidTransition s t \<longleftrightarrow> status_step s t"
proof
  assume "ValidTransition s t"
  then show "status_step s t"
    by (cases s) (auto simp: ValidTransition_def intro: status_step.intros)
next
  assume "status_step s t"
  then show "ValidTransition s t"
    by cases (auto simp: ValidTransition_def)
qed

lemma ValidTransition_simps [simp]:
  "ValidTransition StatusRunning t \<longleftrightarrow>
     t \<in> {StatusCheckpointInProgress, StatusCanceled, StatusCompleted, StatusFailed}"
  "ValidTransition StatusCheckpointInProgress t \<longleftrightarrow>
     t \<in> {StatusCheckpointCreated, StatusCheckpointCreationFailed}"
  "ValidTransition StatusCheckpointCreationFailed t \<longleftrightarrow>
     t \<in> {StatusCheckpointInProgress, StatusCanceled}"
  "ValidTransition StatusCheckpointCreated t \<longleftrightarrow> t \<in> {StatusRestorePending, StatusCanceled}"
  "ValidTransition StatusRestorePending t \<longleftrightarrow> t \<in> {StatusRunning, StatusRestoreFailed}"
  "ValidTransition StatusRestoreFailed t \<longleftrightarrow> t \<in> {StatusRestorePending, StatusCanceled}"
  "\<not> ValidTransition StatusFailed t" "\<not> ValidTransition StatusCanceled t"
  "\<not> ValidTransition StatusCompleted t" "\<not> ValidTransition (StatusOther x) t"
  by (auto simp: ValidTransition_def)

lemma IsTerminal_simps [simp]:
  "\<not> IsTerminal StatusRunning" "\<not> IsTerminal StatusCheckpointInProgress"
  "\<not> IsTerminal StatusCheckpointCreated" "\<not> IsTerminal StatusCheckpointCreationFailed"
  "\<not> IsTerminal StatusRestorePending" "\<not> IsTerminal StatusRestoreFailed"
  "IsTerminal StatusFailed" "IsTerminal StatusCanceled" "IsTerminal StatusCompleted"
  "\<not> IsTerminal (StatusOther x)"
  by (simp_all add: IsTerminal_def terminalStatuses_def)

lemma ValidTransition_named:
  assumes "ValidTransition s t" shows "is_named s" and "is_named t"
  using assms by (cases s; auto)+

lemma ValidTransition_irrefl: "\<not> ValidTransition s s"
  by (cases s) auto

lemma ValidTransition_not_terminal: "ValidTransition s t \<Longrightarrow> \<not> IsTerminal s"
  by (cases s) auto

lemma ValidTransition_to_running_iff: "ValidTransition s StatusRunning \<longleftrightarrow> s = StatusRestorePending"
  by (cases s) auto

lemma ValidTransition_to_canceled_iff:
  "ValidTransition s StatusCanceled \<longleftrightarrow>
     s \<in> {StatusRunning, StatusCheckpointCreationFailed, StatusCheckpointCreated, StatusRestoreFailed}"
  by (cases s) auto

section \<open>Runs through the table\<close>

text \<open>A run: the statuses a job passes through, one transition at a time.\<close>

fun status_run :: "Status \<Rightarrow> (Status \<times> Status) list \<Rightarrow> Status \<Rightarrow> bool" where
  "status_run s [] u \<longleftrightarrow> s = u"
| "status_run s ((a, b) # es) u \<longleftrightarrow> a = s \<and> ValidTransition a b \<and> status_run b es u"

lemma status_run_append:
  "status_run s (es @ fs) u \<longleftrightarrow> (\<exists>m. status_run s es m \<and> status_run m fs u)"
  by (induction es arbitrary: s) auto

lemma status_run_snoc:
  "status_run s (es @ [(a, b)]) u \<longleftrightarrow> status_run s es a \<and> ValidTransition a b \<and> b = u"
  by (auto simp: status_run_append)

lemma status_run_rtranclp: "status_run s es u \<Longrightarrow> status_step\<^sup>*\<^sup>* s u"
  by (induction es arbitrary: s)
    (auto simp: ValidTransition_iff_step intro: converse_rtranclp_into_rtranclp)

text \<open>A run that has reached a terminal status is over.\<close>

lemma status_run_terminal_last:
  assumes "status_run s (es @ (a, b) # fs) u" and "IsTerminal b"
  shows "fs = []" and "u = b"
proof -
  from assms(1) have "status_run b fs u" by (auto simp: status_run_append)
  with assms(2) show "fs = []" and "u = b"
    by (cases fs; auto dest: ValidTransition_not_terminal)+
qed

end
