(* ===== verification/Utf8.thy ===== *)
theory Utf8
  imports Prelude
begin

text \<open>
  UTF-8 as packages \<open>unicode/utf8\<close> and \<open>unicode\<close> see it: decoding one rune from the front
  of a byte string (\<open>utf8.DecodeRuneInString\<close>), splitting a string into runes (Go's
  \<open>for range\<close> over a string), and encoding a rune. An ill-formed sequence decodes to
  \<open>RuneError\<close> with width 1, as in Go.

  The Unicode property tables themselves (which runes print, how letters map between
  cases) are not modelled: \<open>unicode_tables\<close> carries them as parameters.
\<close>

definition RuneError :: nat where
  "RuneError = 65533"

definition byte_between :: "nat \<Rightarrow> nat \<Rightarrow> char \<Rightarrow> bool" where
  "byte_between lo hi c \<longleftrightarrow> lo \<le> (of_char c :: nat) \<and> (of_char c :: nat) \<le> hi"

definition low_bits :: "char \<Rightarrow> nat" where
  "low_bits c = of_char c mod 64"

text \<open>The bounds of the second byte, by first byte (the \<open>acceptRanges\<close> table).\<close>

definition second_range :: "nat \<Rightarrow> nat \<times> nat" where
  "second_range b = (if b = 224 then (160, 191) else if b = 237 then (128, 159)
     else if b = 240 then (144, 191) else if b = 244 then (128, 143) else (128, 191))"

definition second_ok :: "nat \<Rightarrow> char \<Rightarrow> bool" where
  "second_ok b c \<longleftrightarrow> byte_between (fst (second_range b)) (snd (second_range b)) c"

definition decode_rune :: "string \<Rightarrow> nat \<times> nat" where
  "decode_rune s = (case s of
     [] \<Rightarrow> (RuneError, 0)
   | c # cs \<Rightarrow>
      (let b = of_char c :: nat in
       if b < 128 then (b, 1)
       else if 194 \<le> b \<and> b \<le> 223 then
         (case cs of
            c1 # _ \<Rightarrow> if second_ok b c1 then ((b mod 32) * 64 + low_bits c1, 2) else (RuneError, 1)
          | _ \<Rightarrow> (RuneError, 1))
       else if 224 \<le> b \<and> b \<le> 239 then
         (case cs of
            c1 # c2 # _ \<Rightarrow> if second_ok b c1 \<and> byte_between 128 191 c2
               then (((b mod 16) * 64 + low_bits c1) * 64 + low_bits c2, 3) else (RuneError, 1)
          | _ \<Rightarrow> (RuneError, 1))
       else if 240 \<le> b \<and> b \<le> 244 then
         (case cs of
            c1 # c2 # c3 # _ \<Rightarrow>
              if second_ok b c1 \<and> byte_between 128 191 c2 \<and> byte_between 128 191 c3
               then ((((b mod 8) * 64 + low_bits c1) * 64 + low_bits c2) * 64 + low_bits c3, 4)
               else (RuneError, 1)
          | _ \<Rightarrow> (RuneError, 1))
       else (RuneError, 1)))"

lemma decode_rune_width_pos: "s \<noteq> [] \<Longrightarrow> 0 < snd (decode_rune s)"
  by (auto simp: decode_rune_def Let_def split: list.splits)

lemma decode_rune_width_le: "snd (decode_rune s) \<le> length s"
  by (auto simp: decode_rune_def Let_def split: list.splits)

text \<open>The runes of a string, each with the bytes it was read from.\<close>

function runes :: "string \<Rightarrow> (nat \<times> string) list" where
  "runes s = (if s = [] then []
     else (fst (decode_rune s), take (snd (decode_rune s)) s)
          # runes (drop (snd (decode_rune s)) s))"
  by pat_completeness auto
termination
  by (relation "measure length") (auto simp: decode_rune_width_pos)

declare runes.simps [simp del]

lemma runes_Nil [simp]: "runes [] = []"
  by (subst runes.simps) simp

lemma runes_nonempty:
  "s \<noteq> [] \<Longrightarrow> runes s = (fst (decode_rune s), take (snd (decode_rune s)) s)
     # runes (drop (snd (decode_rune s)) s)"
  by (subst runes.simps) simp

lemma concat_runes: "concat (map snd (runes s)) = s"
proof (induction s rule: runes.induct)
  case (1 s)
  then show ?case
    by (cases "s = []") (simp_all add: runes_nonempty)
qed

text \<open>\<open>utf8.ValidString\<close>: no byte had to be read as an ill-formed sequence.\<close>

definition ill_formed :: "nat \<times> string \<Rightarrow> bool" where
  "ill_formed p \<longleftrightarrow> fst p = RuneError \<and> length (snd p) = 1"

definition valid_utf8 :: "string \<Rightarrow> bool" where
  "valid_utf8 s \<longleftrightarrow> list_all (\<lambda>p. \<not> ill_formed p) (runes s)"

definition encode_rune :: "nat \<Rightarrow> string" where
  "encode_rune r =
     (if r < 128 then [char_of r]
      else if r < 2048 then [char_of (192 + r div 64), char_of (128 + r mod 64)]
      else if r > 1114111 \<or> (55296 \<le> r \<and> r \<le> 57343)
        then [char_of (239::nat), char_of (191::nat), char_of (189::nat)]
      else if r < 65536 then
        [char_of (224 + r div 4096), char_of (128 + (r div 64) mod 64), char_of (128 + r mod 64)]
      else [char_of (240 + r div 262144), char_of (128 + (r div 4096) mod 64),
            char_of (128 + (r div 64) mod 64), char_of (128 + r mod 64)])"

section \<open>Pieces of a string decode the same in place\<close>

text \<open>
  One rune read from a longer string is the rune read from its own bytes: what follows
  cannot change it, unless the sequence was ill-formed.
\<close>

lemma decode_rune_ascii:
  "(of_char c :: nat) < 128 \<Longrightarrow> decode_rune (c # cs) = (of_char c, 1)"
  by (simp add: decode_rune_def Let_def)

lemma decode_rune_multi:
  assumes "decode_rune s = (r, w)" and "w \<noteq> 1"  and "s \<noteq> []"
  shows "decode_rune (take w s @ t) = (r, w)"
proof (cases s)
  case (Cons c cs)
  with assms show ?thesis
    by (auto simp: decode_rune_def Let_def split: list.splits if_splits)
qed (use assms in simp)

lemma decode_rune_one:
  assumes "decode_rune (c # cs) = (r, 1)"
  shows "(of_char c :: nat) < 128 \<and> r = of_char c \<or> \<not> (of_char c :: nat) < 128 \<and> r = RuneError"
  using assms by (auto simp: decode_rune_def Let_def split: list.splits if_splits)

lemma decode_rune_prefix:
  assumes "decode_rune s = (r, w)" and "s \<noteq> []" and "\<not> ill_formed (r, take w s)"
  shows "decode_rune (take w s @ t) = (r, w)"
proof (cases "w = 1")
  case True
  obtain c cs where s: "s = c # cs" using assms(2) by (cases s) auto
  have "(of_char c :: nat) < 128 \<and> r = of_char c"
    using decode_rune_one [of c cs r] assms True s by (auto simp: ill_formed_def)
  with s True show ?thesis by (simp add: decode_rune_ascii)
next
  case False
  with assms show ?thesis by (simp add: decode_rune_multi)
qed

text \<open>The bit patterns leave no overlong encoding: several bytes never decode to an ASCII rune.\<close>

lemma mod_block:
  assumes "q * m \<le> n" and "n < q * m + m" shows "n mod m = n - q * (m::nat)"
proof -
  obtain k where k: "n = k + q * m" using assms(1) by (metis le_add_diff_inverse2)
  with assms(2) have "k < m" by simp
  with k show ?thesis by simp
qed

lemma low_bits_ge:
  "byte_between 160 191 c \<Longrightarrow> 32 \<le> low_bits c"
  "byte_between 144 191 c \<Longrightarrow> 16 \<le> low_bits c"
  unfolding byte_between_def low_bits_def
  using mod_block [of 2 64 "of_char c"] by auto

lemma two_byte_ge:
  assumes "194 \<le> b" and "b \<le> 223" shows "128 \<le> (b mod 32) * 64 + (x::nat)"
proof -
  have "2 \<le> b mod 32" using assms mod_block [of 6 32 b] by simp
  then show ?thesis by simp
qed

lemma three_byte_ge:
  assumes "224 \<le> b" and "b \<le> 239" and "second_ok b c"
  shows "128 \<le> ((b mod 16) * 64 + low_bits c) * 64 + (x::nat)"
proof (cases "b = 224")
  case True
  with assms(3) have "32 \<le> low_bits c" by (simp add: second_ok_def second_range_def low_bits_ge)
  with True show ?thesis by simp
next
  case False
  with assms have "1 \<le> b mod 16" using mod_block [of 14 16 b] by simp
  then show ?thesis by simp
qed

lemma four_byte_ge:
  assumes "240 \<le> b" and "b \<le> 244" and "second_ok b c"
  shows "128 \<le> (((b mod 8) * 64 + low_bits c) * 64 + x) * 64 + (y::nat)"
proof (cases "b = 240")
  case True
  with assms(3) have "16 \<le> low_bits c" by (simp add: second_ok_def second_range_def low_bits_ge)
  with True show ?thesis by simp
next
  case False
  with assms have "1 \<le> b mod 8" using mod_block [of 30 8 b] by simp
  then show ?thesis by simp
qed

lemma decode_rune_non_ascii:
  assumes "decode_rune (c # cs) = (r, w)" and "\<not> (of_char c :: nat) < 128"
  shows "128 \<le> r"
  using assms two_byte_ge three_byte_ge four_byte_ge
  by (auto simp: decode_rune_def Let_def RuneError_def split: list.splits if_splits)

lemma decode_rune_ascii_iff:
  assumes "decode_rune s = (r, w)" and "s \<noteq> []" and "r < 128"
  shows "w = 1" and "\<exists>c. take w s = [c] \<and> of_char c = r"
proof -
  obtain c cs where s: "s = c # cs" using assms(2) by (cases s) auto
  have "(of_char c :: nat) < 128"
    using decode_rune_non_ascii [of c cs r w] assms s by auto
  with assms(1) s show "w = 1" and "\<exists>c. take w s = [c] \<and> of_char c = r"
    by (auto simp: decode_rune_ascii)
qed

section \<open>The Unicode tables\<close>

record unicode_tables =
  is_print :: "nat \<Rightarrow> bool"
  rune_upper :: "nat \<Rightarrow> nat"
  rune_lower :: "nat \<Rightarrow> nat"

end
