(* ===== verification/World.thy ===== *)
theory World
  imports JobStatus Utf8
begin

text \<open>
  The state the program works on and the environment it runs in.

  \<open>database\<close> is the content of the SQL database the store opens: the column names of the
  \<open>jobs\<close> table, its rows in order of insertion, the \<open>job_history\<close> rows, and the two
  \<open>AUTOINCREMENT\<close> counters. \<open>world\<close> adds the audit file, the daemon's interruption latch
  and \<open>calls\<close>, the record of every call the program has made to the outside, newest first.

  Everything the program cannot decide for itself is an answer of the environment: the
  clock, whether the database driver reports an error for a statement, what \<open>os.Stat\<close>
  finds, how a child process ends. An \<open>env\<close> gives each answer as a function of the calls
  made so far, so it may answer the same question differently each time; the theorems
  hold for every such environment unless a hypothesis restricts it.

  \<open>column_time\<close> is what the database keeps of a time it is given: SQLite stores it whole, a
  \<open>DATETIME\<close> column of the MySQL schema keeps whole seconds.

  A statement for which the driver reports an error has had no effect, as SQL promises
  for single statements; inside a transaction nothing has an effect before the commit.
\<close>

section \<open>Tables\<close>

record job_row =
  row_id :: int
  row_pid :: int
  row_pgid :: int
  row_checkpoint_dir :: string
  row_command :: string
  row_work_dir :: string
  row_hook_checkpoint :: string
  row_hook_resume :: string
  row_status :: string
  row_failure_reason :: string
  row_owner :: string
  row_tag :: string
  row_registered_at :: time
  row_updated_at :: time

record history_row =
  hrow_id :: int
  hrow_job_id :: int
  hrow_from_status :: string
  hrow_to_status :: string
  hrow_changed_by :: string
  hrow_changed_at :: time

record database =
  jobs_columns :: "string list option" \<comment> \<open>\<open>None\<close>: there is no jobs table\<close>
  jobs_rows :: "job_row list"
  jobs_seq :: int
  history_exists :: bool
  history_rows :: "history_row list"
  history_seq :: int

section \<open>Calls to the outside\<close>

datatype stmt =
    SqlOpen | SqlPing | SqlCreateJobs | SqlCreateHistory | SqlTableInfo | SqlTableInfoRow | SqlTableInfoEnd
  | SqlAlterTable string
  | SqlInsertJob | SqlLastInsertId
  | SqlSelectJob | SqlSelectActive | SqlSelectTerminal | SqlScanRow | SqlRowsEnd
  | SqlBegin | SqlUpdateStatus | SqlUpdatePid | SqlInsertHistory | SqlCommit
  | SqlUpdateCheckpointDir | SqlSelectHistory

record job_summary =
  js_ID :: string
  js_Status :: Status
  js_PID :: int

record notify_payload =
  np_Trigger :: string
  np_DetectedAt :: time
  np_Detail :: "string \<rightharpoonup> string"
  np_Jobs :: "job_summary list"

datatype call =
    NowCall
  | SqlCall stmt
  | StatCall string
  | RemoveAllCall string
  | MkdirAllCall string
  | KillCall int int \<comment> \<open>\<open>syscall.Kill(-pid, sig)\<close>: process group and signal\<close>
  | ExecCall string "string list"
  | LookPathCall string
  | ReadFileCall string
  | AppendCall string
  | NotifyCall notify_payload

record file_info =
  fi_is_dir :: bool
  fi_mode :: "32 word"

record exec_outcome =
  ex_output :: string
  ex_error :: "string option"

datatype kill_outcome = KillOk | KillESRCH | KillError string

record env =
  unicode :: unicode_tables
  clock :: "call list \<Rightarrow> time"
  sql_fault :: "call list \<Rightarrow> stmt \<Rightarrow> string option"
  schema_fault :: "stmt \<Rightarrow> string" \<comment> \<open>the driver's text when a table or column is missing\<close>
  full_fault :: string \<comment> \<open>the driver's text when no row id is left\<close>
  column_time :: "time \<Rightarrow> time" \<comment> \<open>what a \<open>DATETIME\<close> column keeps of a time\<close>
  json_error :: "string \<Rightarrow> string" \<comment> \<open>the text of \<open>json.Unmarshal\<close>'s error\<close>
  stat_file :: "call list \<Rightarrow> string \<Rightarrow> string + file_info"
  remove_all :: "call list \<Rightarrow> string \<Rightarrow> string option"
  mkdir_all :: "call list \<Rightarrow> string \<Rightarrow> string option"
  kill_group :: "call list \<Rightarrow> int \<Rightarrow> int \<Rightarrow> kill_outcome"
  exec_cmd :: "call list \<Rightarrow> string \<Rightarrow> string list \<Rightarrow> exec_outcome"
  look_path :: "call list \<Rightarrow> string \<Rightarrow> bool"
  read_file :: "call list \<Rightarrow> string \<Rightarrow> string + string"
  append_fault :: "call list \<Rightarrow> string \<Rightarrow> (nat \<times> string) option"
    \<comment> \<open>bytes written before the error, and its text\<close>
  notify_target :: "call list \<Rightarrow> notify_payload \<Rightarrow> string option"

record world =
  db :: database
  audit_file :: string
  interrupted :: bool
  calls :: "call list"

definition record_call :: "call \<Rightarrow> world \<Rightarrow> world" where
  "record_call c w = w\<lparr>calls := c # calls w\<rparr>"

lemma record_call_simps [simp]:
  "db (record_call c w) = db w" "audit_file (record_call c w) = audit_file w"
  "interrupted (record_call c w) = interrupted w" "calls (record_call c w) = c # calls w"
  by (simp_all add: record_call_def)

text \<open>\<open>time.Now().UTC()\<close>.\<close>

definition now_utc :: "env \<Rightarrow> world \<Rightarrow> time \<times> world" where
  "now_utc e w = (clock e (calls w), record_call NowCall w)"

text \<open>
  A statement handed to the driver: an error text, or none. Before the driver's own
  faults come the database's: a statement on the \<open>jobs\<close> table names its columns (SQL matches
  them without regard to case), and an absent column (or table) is an error.
\<close>

definition jobs_column_names :: "string list" where
  "jobs_column_names = [''id'', ''pid'', ''pgid'', ''checkpoint_dir'', ''command'', ''work_dir'',
     ''hook_checkpoint'', ''hook_resume'', ''status'', ''failure_reason'', ''owner'', ''tag'',
     ''registered_at'', ''updated_at'']"

definition stmt_columns :: "stmt \<Rightarrow> string list" where
  "stmt_columns st = (case st of
       SqlInsertJob \<Rightarrow> tl jobs_column_names
     | SqlSelectJob \<Rightarrow> jobs_column_names
     | SqlSelectActive \<Rightarrow> jobs_column_names
     | SqlSelectTerminal \<Rightarrow> jobs_column_names
     | SqlUpdateStatus \<Rightarrow> [''status'', ''failure_reason'', ''updated_at'', ''id'']
     | SqlUpdatePid \<Rightarrow> [''pid'', ''pgid'', ''status'', ''updated_at'', ''id'']
     | SqlUpdateCheckpointDir \<Rightarrow> [''checkpoint_dir'', ''updated_at'', ''id'']
     | _ \<Rightarrow> [])"

definition has_column :: "string list \<Rightarrow> string \<Rightarrow> bool" where
  "has_column cs c \<longleftrightarrow> list_ex (\<lambda>name. equal_fold name c) cs"

definition schema_ready :: "database \<Rightarrow> bool" where
  "schema_ready d \<longleftrightarrow>
     (case jobs_columns d of None \<Rightarrow> False | Some cs \<Rightarrow> list_all (has_column cs) jobs_column_names)
     \<and> history_exists d"

definition schema_covers :: "stmt \<Rightarrow> database \<Rightarrow> bool" where
  "schema_covers st d \<longleftrightarrow>
     (stmt_columns st = [] \<or>
        (case jobs_columns d of None \<Rightarrow> False | Some cs \<Rightarrow> list_all (has_column cs) (stmt_columns st)))
     \<and> (st \<in> {SqlInsertHistory, SqlSelectHistory} \<longrightarrow> history_exists d)"

definition sql_error :: "env \<Rightarrow> stmt \<Rightarrow> world \<Rightarrow> string option" where
  "sql_error e st w =
     (if schema_covers st (db w) then sql_fault e (calls w) st else Some (schema_fault e st))"

definition sql :: "env \<Rightarrow> stmt \<Rightarrow> world \<Rightarrow> string option \<times> world" where
  "sql e st w = (sql_error e st w, record_call (SqlCall st) w)"

lemma schema_ready_covers: "schema_ready d \<Longrightarrow> schema_covers st d"
  by (cases st) (auto simp: schema_ready_def schema_covers_def stmt_columns_def
      jobs_column_names_def split: option.splits)

lemma sql_error_ready: "schema_ready (db w) \<Longrightarrow> sql_error e st w = sql_fault e (calls w) st"
  by (simp add: sql_error_def schema_ready_covers)

lemma sql_simps [simp]:
  "fst (sql e st w) = sql_error e st w" "snd (sql e st w) = record_call (SqlCall st) w"
  by (simp_all add: sql_def)

lemma sql_eq [simp]:
  "sql e st w = (f, w') \<longleftrightarrow> f = sql_error e st w \<and> w' = record_call (SqlCall st) w"
  by (auto simp: sql_def)

lemma now_utc_simps [simp]:
  "snd (now_utc e w) = record_call NowCall w" "fst (now_utc e w) = clock e (calls w)"
  by (simp_all add: now_utc_def)

text \<open>An environment whose database driver never reports an error.\<close>

definition sql_ok :: "env \<Rightarrow> bool" where
  "sql_ok e \<longleftrightarrow> (\<forall>h st. sql_fault e h st = None)"

lemma sql_okD [simp]: "sql_ok e \<Longrightarrow> sql_fault e h st = None"
  by (simp add: sql_ok_def)

section \<open>The operating system\<close>

text \<open>
  Each call is recorded and answered by the environment. \<open>os.RemoveAll\<close> of the empty path
  does nothing and succeeds. A signal goes to the process group: \<open>syscall.Kill(-pid, sig)\<close>.
\<close>

definition os_Stat :: "env \<Rightarrow> string \<Rightarrow> world \<Rightarrow> (string + file_info) \<times> world" where
  "os_Stat e path w = (stat_file e (calls w) path, record_call (StatCall path) w)"

definition os_RemoveAll :: "env \<Rightarrow> string \<Rightarrow> world \<Rightarrow> string option \<times> world" where
  "os_RemoveAll e path w = (if path = [] then (None, w)
     else (remove_all e (calls w) path, record_call (RemoveAllCall path) w))"

definition os_MkdirAll :: "env \<Rightarrow> string \<Rightarrow> world \<Rightarrow> string option \<times> world" where
  "os_MkdirAll e path w = (mkdir_all e (calls w) path, record_call (MkdirAllCall path) w)"

definition os_ReadFile :: "env \<Rightarrow> string \<Rightarrow> world \<Rightarrow> (string + string) \<times> world" where
  "os_ReadFile e path w = (read_file e (calls w) path, record_call (ReadFileCall path) w)"

definition syscall_Kill :: "env \<Rightarrow> int \<Rightarrow> int \<Rightarrow> world \<Rightarrow> kill_outcome \<times> world" where
  "syscall_Kill e pid sig w = (kill_group e (calls w) pid sig, record_call (KillCall pid sig) w)"

definition exec_Run :: "env \<Rightarrow> string \<Rightarrow> string list \<Rightarrow> world \<Rightarrow> exec_outcome \<times> world" where
  "exec_Run e name args w = (exec_cmd e (calls w) name args, record_call (ExecCall name args) w)"

definition exec_LookPath :: "env \<Rightarrow> string \<Rightarrow> world \<Rightarrow> bool \<times> world" where
  "exec_LookPath e name w = (look_path e (calls w) name, record_call (LookPathCall name) w)"

lemmas os_defs = os_Stat_def os_RemoveAll_def os_MkdirAll_def os_ReadFile_def syscall_Kill_def
  exec_Run_def exec_LookPath_def

section \<open>Concrete environments for examples\<close>

text \<open>
  Plain ASCII tables: printable characters, and no letters to convert beyond ASCII. The
  environment below answers every question with success; its clock counts the calls.
\<close>

definition ascii_tables :: unicode_tables where
  "ascii_tables = \<lparr>is_print = (\<lambda>r. 32 \<le> r \<and> r < 127), rune_upper = (\<lambda>r. r), rune_lower = (\<lambda>r. r)\<rparr>"

definition quiet_env :: env where
  "quiet_env = \<lparr>unicode = ascii_tables, clock = (\<lambda>h. 1000 + int (length h)),
     sql_fault = (\<lambda>_ _. None), schema_fault = (\<lambda>_. ''no such column''),
     full_fault = ''database or disk is full'', column_time = (\<lambda>t. t), json_error = (\<lambda>_. ''invalid character''),
     stat_file = (\<lambda>_ _. Inr \<lparr>fi_is_dir = False, fi_mode = 493\<rparr>),
     remove_all = (\<lambda>_ _. None), mkdir_all = (\<lambda>_ _. None),
     kill_group = (\<lambda>_ _ _. KillOk), exec_cmd = (\<lambda>_ _ _. \<lparr>ex_output = [], ex_error = None\<rparr>),
     look_path = (\<lambda>_ _. True), read_file = (\<lambda>_ _. Inr ''4821''),
     append_fault = (\<lambda>_ _. None), notify_target = (\<lambda>_ _. None)\<rparr>"

definition empty_db :: database where
  "empty_db = \<lparr>jobs_columns = Some jobs_column_names, jobs_rows = [], jobs_seq = 0,
     history_exists = True, history_rows = [], history_seq = 0\<rparr>"

definition empty_world :: world where
  "empty_world = \<lparr>db = empty_db, audit_file = [], interrupted = False, calls = []\<rparr>"

lemma sql_ok_quiet [simp]: "sql_ok quiet_env"
  by (simp add: sql_ok_def quiet_env_def)

lemma has_column_member: "c \<in> set cs \<Longrightarrow> has_column cs c"
  unfolding has_column_def list_ex_iff using equal_fold_refl by blast

lemma all_columns_member: "set xs \<subseteq> set cs \<Longrightarrow> list_all (has_column cs) xs"
  by (auto simp: list_all_iff intro: has_column_member)

lemma schema_ready_empty [simp]: "schema_ready empty_db"
  by (simp add: schema_ready_def empty_db_def all_columns_member)

end
