(* ===== verification/Strconv.thy ===== *)
theory Strconv
  imports Prelude
begin

text \<open>
  The decimal conversions of package \<open>strconv\<close> as the program uses them:
  \<open>ParseInt(s, 10, 64)\<close>, \<open>Atoi\<close> on a 64-bit \<open>int\<close>, and \<open>FormatInt(n, 10)\<close> (which is also
  what \<open>Itoa\<close> and the verb \<open>%d\<close> print). Parsing distinguishes the two causes of failure, a
  byte that is not a digit and a value outside the type.
\<close>

datatype num_error = ErrSyntax | ErrRange

definition digit_value :: "char \<Rightarrow> nat option" where
  "digit_value c = (if 48 \<le> (of_char c :: nat) \<and> (of_char c :: nat) \<le> 57
     then Some (of_char c - 48) else None)"

definition digit_char :: "nat \<Rightarrow> char" where
  "digit_char d = char_of (48 + d)"

text \<open>
  The loop of \<open>ParseUint\<close>: a byte is checked before the accumulator, and the accumulator
  overflows when it reaches \<open>2^64\<close>.
\<close>

fun parse_digits :: "nat \<Rightarrow> string \<Rightarrow> num_error + nat" where
  "parse_digits n [] = Inr n"
| "parse_digits n (c # cs) =
     (case digit_value c of
        None \<Rightarrow> Inl ErrSyntax
      | Some d \<Rightarrow> if n * 10 + d \<ge> 2 ^ 64 then Inl ErrRange
                  else parse_digits (n * 10 + d) cs)"

definition ParseUint :: "string \<Rightarrow> num_error + nat" where
  "ParseUint s = (if s = [] then Inl ErrSyntax else parse_digits 0 s)"

definition split_sign :: "string \<Rightarrow> bool \<times> string" where
  "split_sign s = (case s of
       [] \<Rightarrow> (False, [])
     | c # cs \<Rightarrow> if c = CHR ''+'' then (False, cs)
                 else if c = CHR ''-'' then (True, cs)
                 else (False, s))"

definition ParseInt :: "string \<Rightarrow> num_error + int" where
  "ParseInt s = (case split_sign s of (neg, ds) \<Rightarrow>
     (case ParseUint ds of
        Inl e \<Rightarrow> Inl e
      | Inr un \<Rightarrow>
          if \<not> neg \<and> un \<ge> 2 ^ 63 then Inl ErrRange
          else if neg \<and> un > 2 ^ 63 then Inl ErrRange
          else Inr (if neg then - int un else int un)))"

definition Atoi :: "string \<Rightarrow> num_error + int" where
  "Atoi s = ParseInt s"

fun digits_of :: "nat \<Rightarrow> string" where
  "digits_of n = (if n < 10 then [digit_char n] else digits_of (n div 10) @ [digit_char (n mod 10)])"

declare digits_of.simps [simp del]

definition FormatInt :: "int \<Rightarrow> string" where
  "FormatInt n = (if n < 0 then CHR ''-'' # digits_of (nat (- n)) else digits_of (nat n))"

lemmas ParseInt_eval = ParseInt_def ParseUint_def split_sign_def digit_value_def
lemmas FormatInt_eval = FormatInt_def digits_of.simps digit_char_def char_of_def bit_iff_odd

section \<open>Reading back what was printed\<close>

lemma digit_value_char [simp]: "d < 10 \<Longrightarrow> digit_value (digit_char d) = Some d"
  by (simp add: digit_value_def digit_char_def of_char_of)

lemma digit_value_less_10: "digit_value c = Some d \<Longrightarrow> d < 10"
  by (auto simp: digit_value_def split: if_splits)

text \<open>The value a digit string denotes, with no bound on its size.\<close>

fun dec_value :: "nat \<Rightarrow> string \<Rightarrow> nat" where
  "dec_value n [] = n"
| "dec_value n (c # cs) = dec_value (n * 10 + (case digit_value c of Some d \<Rightarrow> d | None \<Rightarrow> 0)) cs"

definition all_digits :: "string \<Rightarrow> bool" where
  "all_digits s \<longleftrightarrow> list_all (\<lambda>c. digit_value c \<noteq> None) s"

lemma dec_value_append: "dec_value n (s @ t) = dec_value (dec_value n s) t"
  by (induction s arbitrary: n) auto

lemma dec_value_ge: "n \<le> dec_value n s"
proof (induction s arbitrary: n)
  case (Cons c cs)
  let ?m = "n * 10 + (case digit_value c of Some d \<Rightarrow> d | None \<Rightarrow> 0)"
  have "n \<le> ?m" by simp
  also have "?m \<le> dec_value ?m cs" by (rule Cons.IH)
  finally show ?case by simp
qed simp

lemma parse_digits_value:
  assumes "all_digits s" and "dec_value n s < 2 ^ 64"
  shows "parse_digits n s = Inr (dec_value n s)"
  using assms
proof (induction s arbitrary: n)
  case (Cons c cs)
  then obtain d where d: "digit_value c = Some d" by (auto simp: all_digits_def)
  have "n * 10 + d \<le> dec_value (n * 10 + d) cs" by (rule dec_value_ge)
  with Cons.prems d have "n * 10 + d < 2 ^ 64" by simp
  with Cons d show ?case by (simp add: all_digits_def)
qed simp

lemma parse_digits_InrD:
  assumes "parse_digits n s = Inr m"
  shows "all_digits s" and "m = dec_value n s"
  using assms by (induction s arbitrary: n) (auto simp: all_digits_def split: option.splits if_splits)

lemma digits_of_all_digits: "all_digits (digits_of n)"
proof (induction n rule: digits_of.induct)
  case (1 n)
  then show ?case
    by (subst digits_of.simps) (auto simp: all_digits_def)
qed

lemma dec_value_digits_of: "dec_value 0 (digits_of n) = n"
proof (induction n rule: digits_of.induct)
  case (1 n)
  then show ?case
    by (subst digits_of.simps) (auto simp: dec_value_append)
qed

lemma digits_of_nonempty [simp]: "digits_of n \<noteq> []"
  by (subst digits_of.simps) simp

lemma digit_char_not_sign:
  assumes "d < 10" shows "digit_char d \<noteq> CHR ''+''" and "digit_char d \<noteq> CHR ''-''"
proof -
  have "digit_value (CHR ''+'') = None" and "digit_value (CHR ''-'') = None"
    by (simp_all add: digit_value_def)
  with digit_value_char [OF assms] show "digit_char d \<noteq> CHR ''+''" and "digit_char d \<noteq> CHR ''-''"
    by (metis option.distinct(1))+
qed

lemma split_sign_digits:
  assumes "all_digits s" shows "split_sign s = (False, s)"
proof (cases s)
  case (Cons c cs)
  with assms have "digit_value c \<noteq> None" by (simp add: all_digits_def)
  then have "c \<noteq> CHR ''+''" and "c \<noteq> CHR ''-''" by (auto simp: digit_value_def)
  with Cons show ?thesis by (simp add: split_sign_def)
qed (simp add: split_sign_def)

lemma ParseUint_digits_of:
  assumes "n < 2 ^ 64" shows "ParseUint (digits_of n) = Inr n"
  using assms parse_digits_value [OF digits_of_all_digits, of 0 n]
  by (simp add: ParseUint_def dec_value_digits_of)

lemma ParseInt_FormatInt:
  assumes "in_int64 n" shows "ParseInt (FormatInt n) = Inr n"
proof (cases "n < 0")
  case True
  with assms have "nat (- n) \<le> 2 ^ 63" by (simp add: in_int64_def int64_bounds_values)
  with True show ?thesis
    by (simp add: ParseInt_def FormatInt_def split_sign_def ParseUint_digits_of)
next
  case False
  with assms have "nat n < 2 ^ 63" by (simp add: in_int64_def int64_bounds_values)
  with False show ?thesis
    by (simp add: ParseInt_def FormatInt_def split_sign_digits digits_of_all_digits
        ParseUint_digits_of)
qed

lemma ParseInt_range: "ParseInt s = Inr n \<Longrightarrow> in_int64 n"
  by (auto simp: ParseInt_def in_int64_def int64_bounds_values split: prod.splits sum.splits if_splits)

lemma FormatInt_inject:
  assumes "in_int64 m" and "in_int64 n" and "FormatInt m = FormatInt n"
  shows "m = n"
proof -
  have "ParseInt (FormatInt m) = ParseInt (FormatInt n)" using assms(3) by simp
  with assms(1,2) show ?thesis by (simp add: ParseInt_FormatInt)
qed

lemma FormatInt_nonempty [simp]: "FormatInt n \<noteq> []"
  by (simp add: FormatInt_def)

lemma ParseInt_empty [simp]: "ParseInt [] = Inl ErrSyntax"
  by (simp add: ParseInt_def split_sign_def ParseUint_def)

end
