(* ===== verification/Json.thy ===== *)
theory Json
  imports Utf8
begin

text \<open>
  The part of \<open>encoding/json\<close> that decides what the program stores: a Go string as a JSON
  string (\<open>json.Marshal\<close>, HTML escaping on), and a \<open>[]string\<close> as a JSON array or \<open>null\<close>,
  together with \<open>json.Unmarshal\<close> into a \<open>[]string\<close>. The store keeps a job's command line in
  this form, and the audit log writes its entries with it.

  Decoding is total: \<open>None\<close> is an error of \<open>Unmarshal\<close>, whether the text is no JSON or is JSON
  of another shape.
\<close>

section \<open>Encoding\<close>

definition backslash :: char where "backslash = CHR 0x5C"
definition dquote :: char where "dquote = CHR 0x22"

definition hex_char :: "nat \<Rightarrow> char" where
  "hex_char n = (if n < 10 then char_of (48 + n) else char_of (87 + n))"

definition json_escape :: "nat \<times> string \<Rightarrow> string" where
  "json_escape p = (case p of (r, bs) \<Rightarrow>
     if r = 34 \<or> r = 92 then backslash # bs
     else if r = 8 then [backslash, CHR ''b'']
     else if r = 12 then [backslash, CHR ''f'']
     else if r = 10 then [backslash, CHR ''n'']
     else if r = 13 then [backslash, CHR ''r'']
     else if r = 9 then [backslash, CHR ''t'']
     else if r < 32 \<or> r = 60 \<or> r = 62 \<or> r = 38
       then [backslash, CHR ''u'', CHR ''0'', CHR ''0'', hex_char (r div 16), hex_char (r mod 16)]
     else if ill_formed p
       then [backslash, CHR ''u'', CHR ''f'', CHR ''f'', CHR ''f'', CHR ''d'']
     else if r = 8232 \<or> r = 8233
       then [backslash, CHR ''u'', CHR ''2'', CHR ''0'', CHR ''2'', hex_char (r mod 16)]
     else bs)"

definition json_string :: "string \<Rightarrow> string" where
  "json_string s = dquote # concat (map json_escape (runes s)) @ [dquote]"

fun json_elems :: "string list \<Rightarrow> string" where
  "json_elems [] = []"
| "json_elems [x] = json_string x"
| "json_elems (x # xs) = json_string x @ CHR '','' # json_elems xs"

definition json_strings :: "string list option \<Rightarrow> string" where
  "json_strings v = (case v of
       None \<Rightarrow> ''null''
     | Some xs \<Rightarrow> CHR ''['' # json_elems xs @ [CHR '']''])"

section \<open>Decoding\<close>

definition hex_value :: "char \<Rightarrow> nat option" where
  "hex_value c = (let b = of_char c :: nat in
     if 48 \<le> b \<and> b \<le> 57 then Some (b - 48)
     else if 97 \<le> b \<and> b \<le> 102 then Some (b - 87)
     else if 65 \<le> b \<and> b \<le> 70 then Some (b - 55)
     else None)"

fun hex4 :: "string \<Rightarrow> nat option" where
  "hex4 (a # b # c # d # _) =
     (case (hex_value a, hex_value b, hex_value c, hex_value d) of
        (Some w, Some x, Some y, Some z) \<Rightarrow> Some (((w * 16 + x) * 16 + y) * 16 + z)
      | _ \<Rightarrow> None)"
| "hex4 _ = None"

definition is_surrogate :: "nat \<Rightarrow> bool" where
  "is_surrogate r \<longleftrightarrow> 55296 \<le> r \<and> r \<le> 57343"

text \<open>\<open>\u\<close> and four digits; a surrogate needs its partner right behind, or reads as \<open>RuneError\<close>.\<close>

definition unquote_u :: "string \<Rightarrow> (string \<times> nat) option" where
  "unquote_u rest = (case hex4 rest of
     None \<Rightarrow> None
   | Some r \<Rightarrow>
       if \<not> is_surrogate r then Some (encode_rune r, 6)
       else (case drop 4 rest of
          b # u # rest' \<Rightarrow>
            (case (if b = backslash \<and> u = CHR ''u'' then hex4 rest' else None) of
               Some r1 \<Rightarrow>
                 if r < 56320 \<and> 56320 \<le> r1 \<and> r1 \<le> 57343
                 then Some (encode_rune ((r - 55296) * 1024 + (r1 - 56320) + 65536), 12)
                 else Some (encode_rune RuneError, 6)
             | None \<Rightarrow> Some (encode_rune RuneError, 6))
        | _ \<Rightarrow> Some (encode_rune RuneError, 6)))"

definition unquote_escape :: "string \<Rightarrow> (string \<times> nat) option" where
  "unquote_escape s = (case s of
     [] \<Rightarrow> None
   | e # rest \<Rightarrow>
       if e = dquote \<or> e = backslash \<or> e = CHR ''/'' then Some ([e], 2)
       else if e = CHR ''b'' then Some ([char_of (8::nat)], 2)
       else if e = CHR ''f'' then Some ([char_of (12::nat)], 2)
       else if e = CHR ''n'' then Some ([char_of (10::nat)], 2)
       else if e = CHR ''r'' then Some ([char_of (13::nat)], 2)
       else if e = CHR ''t'' then Some ([char_of (9::nat)], 2)
       else if e = CHR ''u'' then unquote_u rest
       else None)"

text \<open>One unit of a JSON string's body: the bytes it stands for and the bytes it takes.\<close>

definition unquote_step :: "string \<Rightarrow> (string \<times> nat) option" where
  "unquote_step s = (case s of
     [] \<Rightarrow> None
   | c # cs \<Rightarrow>
       if (of_char c :: nat) < 32 then None
       else if c = backslash then unquote_escape cs
       else (case decode_rune s of (r, w) \<Rightarrow>
               Some (if ill_formed (r, take w s) then encode_rune RuneError else take w s, w)))"

lemma unquote_step_width: "unquote_step s = Some (out, w) \<Longrightarrow> 0 < w"
  using decode_rune_width_pos [of s]
  by (auto simp: unquote_step_def unquote_escape_def unquote_u_def
      split: list.splits if_splits prod.splits option.splits)

text \<open>The body of a JSON string up to its closing quote, and the text after it.\<close>

function unquote :: "string \<Rightarrow> (string \<times> string) option" where
  "unquote s = (case s of
     [] \<Rightarrow> None
   | c # cs \<Rightarrow>
       if c = dquote then Some ([], cs)
       else (case unquote_step s of
               None \<Rightarrow> None
             | Some (out, w) \<Rightarrow> map_option (\<lambda>(t, rest). (out @ t, rest)) (unquote (drop w s))))"
  by pat_completeness auto
termination
  by (relation "measure length") (auto dest: unquote_step_width)

declare unquote.simps [simp del]

fun skip_ws :: "string \<Rightarrow> string" where
  "skip_ws [] = []"
| "skip_ws (c # cs) =
     (if c = CHR '' '' \<or> (of_char c :: nat) \<in> {9, 10, 13} then skip_ws cs else c # cs)"

definition read_null :: "string \<Rightarrow> string option" where
  "read_null s = (if take 4 s = ''null'' then Some (drop 4 s) else None)"

text \<open>A string, or \<open>null\<close>, which leaves the element at its zero value.\<close>

definition read_elem :: "string \<Rightarrow> (string \<times> string) option" where
  "read_elem s = (case s of
     [] \<Rightarrow> None
   | c # cs \<Rightarrow> if c = dquote then unquote cs else map_option (\<lambda>rest. ([], rest)) (read_null s))"

lemma skip_ws_length: "length (skip_ws s) \<le> length s"
  by (induction s) auto

lemma unquote_length: "unquote s = Some (t, rest) \<Longrightarrow> length rest < length s"
proof (induction s arbitrary: t rule: unquote.induct)
  case (1 s)
  from "1.prems" show ?case
  proof (cases s)
    case (Cons c cs)
    with 1 show ?thesis
      by (subst (asm) (2) unquote.simps) (fastforce split: if_splits option.splits dest: unquote_step_width)
  qed (simp add: unquote.simps)
qed

lemma read_elem_length: "read_elem s = Some (t, rest) \<Longrightarrow> length rest < length s"
  by (auto simp: read_elem_def read_null_def split: list.splits if_splits dest: unquote_length)

text \<open>The elements after an opening bracket and at least one more value, to the closing bracket.\<close>

function read_elems :: "string \<Rightarrow> (string list \<times> string) option" where
  "read_elems s = (case read_elem (skip_ws s) of
     None \<Rightarrow> None
   | Some (x, rest) \<Rightarrow>
       (case skip_ws rest of
          [] \<Rightarrow> None
        | c # rest' \<Rightarrow>
            if c = CHR '']'' then Some ([x], rest')
            else if c = CHR '','' then map_option (\<lambda>(xs, r). (x # xs, r)) (read_elems rest')
            else None))"
  by pat_completeness auto
termination
proof (relation "measure length", simp)
  fix s p x rest c rest'
  assume a: "read_elem (skip_ws s) = Some p" "(x, rest) = p" "skip_ws rest = c # rest'"
  have "length rest' < length rest" using a(3) skip_ws_length [of rest] by simp
  also have "\<dots> < length (skip_ws s)" using a(1,2) read_elem_length by auto
  also have "\<dots> \<le> length s" by (rule skip_ws_length)
  finally show "(rest', s) \<in> measure length" by simp
qed

declare read_elems.simps [simp del]

definition json_read_strings :: "string \<Rightarrow> string list option option" where
  "json_read_strings s = (case skip_ws s of
     [] \<Rightarrow> None
   | c # cs \<Rightarrow>
       if c = CHR ''['' then
         (case skip_ws cs of
            [] \<Rightarrow> None
          | d # ds \<Rightarrow>
              if d = CHR '']'' then (if skip_ws ds = [] then Some (Some []) else None)
              else (case read_elems cs of
                      Some (xs, rest) \<Rightarrow> if skip_ws rest = [] then Some (Some xs) else None
                    | None \<Rightarrow> None))
       else (case read_null (c # cs) of
               Some rest \<Rightarrow> if skip_ws rest = [] then Some None else None
             | None \<Rightarrow> None))"

section \<open>Reading back what was written\<close>

text \<open>
  What survives a round trip: a well-formed sequence survives as it is, an ill-formed
  byte comes back as the replacement character.
\<close>

definition sanitize_rune :: "nat \<times> string \<Rightarrow> string" where
  "sanitize_rune p = (if ill_formed p then encode_rune RuneError else snd p)"

definition sanitize :: "string \<Rightarrow> string" where
  "sanitize s = concat (map sanitize_rune (runes s))"

lemma sanitize_valid: "valid_utf8 s \<Longrightarrow> sanitize s = s"
proof -
  assume "valid_utf8 s"
  then have "map sanitize_rune (runes s) = map snd (runes s)"
    by (auto simp: valid_utf8_def sanitize_rune_def list_all_iff)
  then have "sanitize s = concat (map snd (runes s))" unfolding sanitize_def by (rule arg_cong)
  then show ?thesis by (simp add: concat_runes)
qed

text \<open>A rune together with the bytes it was decoded from.\<close>

definition rune_piece :: "nat \<times> string \<Rightarrow> bool" where
  "rune_piece p \<longleftrightarrow> (\<exists>s w. s \<noteq> [] \<and> decode_rune s = (fst p, w) \<and> snd p = take w s)"

lemma runes_rune_piece: "p \<in> set (runes s) \<Longrightarrow> rune_piece p"
proof (induction s rule: runes.induct)
  case (1 s)
  show ?case
  proof (cases "s = []")
    case False
    with "1.prems" consider "p = (fst (decode_rune s), take (snd (decode_rune s)) s)"
      | "p \<in> set (runes (drop (snd (decode_rune s)) s))"
      by (auto simp: runes_nonempty)
    then show ?thesis
    proof cases
      case 1
      with False show ?thesis
        unfolding rune_piece_def by (metis fst_conv prod.collapse snd_conv)
    qed (use 1 False in blast)
  qed (use 1 in simp)
qed

lemma rune_piece_ascii:
  assumes "rune_piece (r, bs)" and "r < 128"
  obtains c where "bs = [c]" and "of_char c = r"
  using assms decode_rune_ascii_iff unfolding rune_piece_def by auto metis

lemma hex_char_value [simp]: "n < 16 \<Longrightarrow> hex_value (hex_char n) = Some n"
  by (auto simp: hex_value_def hex_char_def Let_def of_char_of)

lemma unquote_unit:
  assumes "unquote_step (u @ t) = Some (out, length u)" and "u \<noteq> []" and "hd u \<noteq> dquote"
  shows "unquote (u @ t) = map_option (\<lambda>(x, r). (out @ x, r)) (unquote t)"
  using assms by (cases u) (simp_all add: unquote.simps [of "_ # _"])

lemma char_of_eq_iff: "of_char c = (n :: nat) \<Longrightarrow> c = char_of n"
  by auto

lemma char_lits:
  "char_of (8::nat) = CHR 0x08" "char_of (9::nat) = CHR 0x09" "char_of (10::nat) = CHR 0x0A"
  "char_of (12::nat) = CHR 0x0C" "char_of (13::nat) = CHR 0x0D" "char_of (34::nat) = CHR 0x22"
  "char_of (92::nat) = CHR 0x5C"
  by code_simp+

lemma hex_lits [simp]:
  "hex_value (CHR ''0'') = Some 0" "hex_value (CHR ''2'') = Some 2"
  "hex_value (CHR ''f'') = Some 15" "hex_value (CHR ''d'') = Some 13"
  by (simp_all add: hex_value_def Let_def)

text \<open>The 2-digit escapes of control characters and of the three HTML characters.\<close>

lemma hex4_low:
  "r < 128 \<Longrightarrow> hex4 (CHR ''0'' # CHR ''0'' # hex_char (r div 16) # hex_char (r mod 16) # t) = Some r"
  by simp

lemma escape_ascii_step:
  assumes "of_char c = r" and "r < 128"
  shows "unquote_step (json_escape (r, [c]) @ t) = Some ([c], length (json_escape (r, [c])))"
    and "json_escape (r, [c]) \<noteq> []" and "hd (json_escape (r, [c])) \<noteq> dquote"
proof -
  have c: "c = char_of r" using assms(1) by (rule char_of_eq_iff)
  have ne: "c \<noteq> backslash" if "r \<noteq> 92" using that assms(1) by (auto simp: backslash_def)
  have nq: "c \<noteq> dquote" if "r \<noteq> 34" using that assms(1) by (auto simp: dquote_def)
  have asc: "decode_rune (c # t) = (r, 1)" using assms by (simp add: decode_rune_ascii)
  have enc: "encode_rune r = [c]" using assms c by (simp add: encode_rune_def)
  show "json_escape (r, [c]) \<noteq> []" by (simp add: json_escape_def)
  show "hd (json_escape (r, [c])) \<noteq> dquote"
    using nq by (auto simp: json_escape_def backslash_def dquote_def)
  consider "r = 34 \<or> r = 92" | "r = 8" | "r = 12" | "r = 10" | "r = 13" | "r = 9"
    | "r < 32 \<or> r = 60 \<or> r = 62 \<or> r = 38" "r \<notin> {8, 9, 10, 12, 13}"
    | "r \<ge> 32" "r \<notin> {34, 38, 60, 62, 92}" by force
  then show "unquote_step (json_escape (r, [c]) @ t) = Some ([c], length (json_escape (r, [c])))"
  proof cases
    case 1
    then show ?thesis
      using c by (auto simp: json_escape_def unquote_step_def unquote_escape_def backslash_def
          dquote_def char_lits)
  next
    case 7
    then have "r \<noteq> 34" and "r \<noteq> 92" by auto
    with 7 assms(2) enc show ?thesis
      by (simp add: json_escape_def unquote_step_def unquote_escape_def unquote_u_def hex4_low
          is_surrogate_def backslash_def dquote_def)
  next
    case 8
    have ill: "\<not> ill_formed (r, [c])" using assms(2) by (simp add: ill_formed_def RuneError_def)
    with 8 assms ne asc show ?thesis
      by (simp add: json_escape_def unquote_step_def)
  qed (use c in \<open>simp_all add: json_escape_def unquote_step_def unquote_escape_def backslash_def
      dquote_def char_lits\<close>)
qed

text \<open>The two line separators are the only other runes that are written as an escape.\<close>

lemma low_bits_less [simp]: "low_bits c < 64"
  by (simp add: low_bits_def)

lemma of_char_low_bits:
  "byte_between 128 191 c \<Longrightarrow> of_char c = 128 + low_bits c"
  "second_ok b c \<Longrightarrow> of_char c = 128 + low_bits c"
  unfolding byte_between_def second_ok_def second_range_def low_bits_def
  using mod_block [of 2 64 "of_char c"] by (auto split: if_splits)

lemma three_bytes_read_back:
  assumes "l1 < 64" and "l2 < (64::nat)"
  shows "((x * 64 + l1) * 64 + l2) div 4096 = x"
    and "(((x * 64 + l1) * 64 + l2) div 64) mod 64 = l1"
    and "((x * 64 + l1) * 64 + l2) mod 64 = l2"
proof -
  let ?n = "(x * 64 + l1) * 64 + l2"
  have d: "?n div 64 = x * 64 + l1" using assms(2) by simp
  have "?n div 4096 = ?n div 64 div 64" by (simp add: div_mult2_eq [symmetric])
  with d assms(1) show "?n div 4096 = x" by simp
  from d assms(1) show "(?n div 64) mod 64 = l1" by simp
  have "?n mod 64 = l2 mod 64" by (rule mod_mult_self3)
  also have "\<dots> = l2" using assms(2) by (rule mod_less)
  finally show "?n mod 64 = l2" .
qed

lemma decode_line_separator:
  assumes "decode_rune s = (r, w)" and "r = 8232 \<or> r = 8233" and "s \<noteq> []"
  shows "take w s = encode_rune r"
proof -
  obtain c cs where s: "s = c # cs" using assms(3) by (cases s) auto
  let ?b = "of_char c :: nat"
  have not2: "?b mod 32 * 64 + low_bits d \<noteq> r" for d
  proof -
    have "?b mod 32 \<le> 31" using mod_less_divisor [of 32 ?b] by simp
    moreover have "low_bits d < 64" by simp
    ultimately have "?b mod 32 * 64 + low_bits d < 2048" by linarith
    with assms(2) show ?thesis by auto
  qed
  have not4: "((?b mod 8 * 64 + low_bits d) * 64 + low_bits e) * 64 + low_bits f \<noteq> r"
    if "240 \<le> ?b" "?b \<le> 244" "second_ok ?b d" for d e f
  proof (cases "?b = 240")
    case True
    with that have "16 \<le> low_bits d" by (simp add: second_ok_def second_range_def low_bits_ge)
    with assms(2) show ?thesis by auto
  next
    case False
    with that have "1 \<le> ?b mod 8" using mod_block [of 30 8 ?b] by simp
    with assms(2) show ?thesis by auto
  qed
  have "\<exists>c1 c2 cs'. cs = c1 # c2 # cs' \<and> second_ok ?b c1 \<and> byte_between 128 191 c2 \<and> w = 3 \<and>
      224 \<le> ?b \<and> ?b \<le> 239 \<and> r = (?b mod 16 * 64 + low_bits c1) * 64 + low_bits c2"
    using assms(1,2) s not2 not4
    by (auto simp: decode_rune_def Let_def RuneError_def split: list.splits if_splits)
  then obtain c1 c2 cs' where b: "cs = c1 # c2 # cs'" "second_ok ?b c1" "byte_between 128 191 c2"
    "w = 3" "224 \<le> ?b" "?b \<le> 239" and r: "r = (?b mod 16 * 64 + low_bits c1) * 64 + low_bits c2"
    by blast
  have "encode_rune r = [char_of (224 + r div 4096), char_of (128 + (r div 64) mod 64), char_of (128 + r mod 64)]"
    using assms(2) by (auto simp: encode_rune_def)
  also have "\<dots> = [char_of (224 + ?b mod 16), char_of (128 + low_bits c1), char_of (128 + low_bits c2)]"
    by (simp only: r three_bytes_read_back low_bits_less)
  also have "224 + ?b mod 16 = ?b" using b(5,6) mod_block [of 14 16 ?b] by simp
  also have "[char_of ?b, char_of (128 + low_bits c1), char_of (128 + low_bits c2)] = [c, c1, c2]"
    by (simp add: of_char_low_bits(1) [OF b(3), symmetric] of_char_low_bits(2) [OF b(2), symmetric])
  finally show ?thesis using b s by simp
qed

lemma rune_piece_first:
  assumes "rune_piece (r, bs)" and "\<not> r < 128"
  obtains c cs where "bs = c # cs" and "\<not> (of_char c :: nat) < 128"
proof -
  obtain s w where sw: "s \<noteq> []" "decode_rune s = (r, w)" "bs = take w s"
    using assms(1) unfolding rune_piece_def by auto
  then obtain c cs where s: "s = c # cs" by (cases s) auto
  have "\<not> (of_char c :: nat) < 128"
    using sw(2) s assms(2) decode_rune_ascii [of c cs] by auto
  moreover have "0 < w" using decode_rune_width_pos [OF sw(1)] sw(2) by simp
  ultimately show thesis using that sw(3) s by (cases w) auto
qed

lemma non_ascii_char:
  assumes "\<not> (of_char c :: nat) < 128"
  shows "c \<noteq> backslash" and "c \<noteq> dquote" and "\<not> (of_char c :: nat) < 32"
  using assms by (auto simp: backslash_def dquote_def)

lemma escape_step:
  assumes "rune_piece p"
  shows "unquote_step (json_escape p @ t) = Some (sanitize_rune p, length (json_escape p))"
    and "json_escape p \<noteq> []" and "hd (json_escape p) \<noteq> dquote"
proof -
  obtain r bs where p: "p = (r, bs)" by (cases p)
  have "unquote_step (json_escape p @ t) = Some (sanitize_rune p, length (json_escape p)) \<and>
    json_escape p \<noteq> [] \<and> hd (json_escape p) \<noteq> dquote"
  proof (cases "r < 128")
    case True
    then obtain c where c: "bs = [c]" "of_char c = r"
      using assms p rune_piece_ascii by blast
    have "sanitize_rune (r, [c]) = [c]"
      using True by (simp add: sanitize_rune_def ill_formed_def RuneError_def)
    with escape_ascii_step [OF c(2) True] c p show ?thesis by simp
  next
    case False
    obtain c cs where c: "bs = c # cs" "\<not> (of_char c :: nat) < 128"
      using assms p False rune_piece_first by blast
    obtain s w where sw: "s \<noteq> []" "decode_rune s = (r, w)" "bs = take w s"
      using assms unfolding p rune_piece_def by auto
    consider (ill) "ill_formed p" | (sep) "\<not> ill_formed p" "r = 8232 \<or> r = 8233"
      | (plain) "\<not> ill_formed p" "r \<noteq> 8232" "r \<noteq> 8233" by blast
    then show ?thesis
    proof cases
      case ill
      with False p show ?thesis
        by (simp add: json_escape_def unquote_step_def unquote_escape_def unquote_u_def
            is_surrogate_def sanitize_rune_def RuneError_def backslash_def dquote_def)
    next
      case sep
      have "bs = encode_rune r" using decode_line_separator [OF sw(2) sep(2) sw(1)] sw(3) by simp
      moreover have "hex_char 8 = CHR ''8''" and "hex_char 9 = CHR ''9''"
        by code_simp+
      ultimately show ?thesis using sep False p
        by (auto simp: json_escape_def unquote_step_def unquote_escape_def unquote_u_def
            is_surrogate_def sanitize_rune_def hex_value_def Let_def backslash_def dquote_def)
    next
      case plain
      have "decode_rune (bs @ t) = (r, w)"
        using decode_rune_prefix [OF sw(2,1)] plain(1) p sw(3) by simp
      moreover have "length bs = w"
        using sw decode_rune_width_le [of s] by simp
      ultimately show ?thesis using plain False p c non_ascii_char [OF c(2)]
        by (auto simp: json_escape_def unquote_step_def sanitize_rune_def)
    qed
  qed
  then show "unquote_step (json_escape p @ t) = Some (sanitize_rune p, length (json_escape p))"
    and "json_escape p \<noteq> []" and "hd (json_escape p) \<noteq> dquote" by blast+
qed

lemma unquote_escapes:
  assumes "list_all rune_piece ps"
  shows "unquote (concat (map json_escape ps) @ dquote # t) = Some (concat (map sanitize_rune ps), t)"
  using assms
proof (induction ps)
  case Nil
  then show ?case by (simp add: unquote.simps)
next
  case (Cons p ps)
  then have "rune_piece p" by simp
  from unquote_unit [OF escape_step [OF this]] Cons show ?case by simp
qed

lemma read_json_string: "read_elem (json_string s @ t) = Some (sanitize s, t)"
  using unquote_escapes [of "runes s" t] runes_rune_piece
  by (auto simp: read_elem_def json_string_def sanitize_def list_all_iff)

lemma skip_ws_json_string [simp]: "skip_ws (json_string s @ t) = json_string s @ t"
  by (simp add: json_string_def dquote_def)

lemma read_json_elems:
  assumes "xs \<noteq> []"
  shows "read_elems (json_elems xs @ CHR '']'' # t) = Some (map sanitize xs, t)"
  using assms
proof (induction xs rule: json_elems.induct)
  case (2 x)
  then show ?case by (simp add: read_elems.simps read_json_string)
next
  case (3 x y ys)
  then show ?case
    by (simp add: read_elems.simps [of "json_string x @ _"] read_json_string)
qed simp

text \<open>
  A \<open>[]string\<close> comes back element by element with its ill-formed bytes replaced; a slice of
  valid UTF-8 strings, and the nil slice, come back exactly.
\<close>

lemma json_elems_first:
  assumes "xs \<noteq> []" obtains cs where "json_elems xs = dquote # cs"
  using assms by (cases xs rule: json_elems.cases) (auto simp: json_string_def)

lemma json_strings_round_trip:
  "json_read_strings (json_strings v) = Some (map_option (map sanitize) v)"
proof (cases v)
  case None
  then show ?thesis
    by (simp add: json_strings_def json_read_strings_def read_null_def)
next
  case (Some xs)
  show ?thesis
  proof (cases "xs = []")
    case False
    then obtain cs where cs: "json_elems xs = dquote # cs" by (rule json_elems_first)
    have "skip_ws (json_elems xs @ t) = dquote # cs @ t" for t
      by (simp add: cs dquote_def)
    with False Some read_json_elems [OF False, of "[]"] show ?thesis
      by (simp add: json_strings_def json_read_strings_def cs) (simp add: dquote_def)
  qed (simp add: Some json_strings_def json_read_strings_def)
qed

corollary json_strings_round_trip_valid:
  assumes "\<And>xs. v = Some xs \<Longrightarrow> list_all valid_utf8 xs"
  shows "json_read_strings (json_strings v) = Some v"
  using assms
  by (cases v) (auto simp: json_strings_round_trip list_all_iff sanitize_valid intro: map_idI)

end
