(* ===== verification/Store.thy ===== *)
theory Store
  imports World Strconv Json
begin

text \<open>
  The job store, \<open>internal/store/store.go\<close>: the \<open>Job\<close> and \<open>HistoryEntry\<close> structs and the
  methods of \<open>Store\<close>, over the database of theory \<open>World\<close>. Every SQL call can fail
  (the environment decides), and every \<open>err != nil\<close> of the source is a branch here.

  \<open>Store_UpdateStatus\<close> and \<open>Store_UpdatePID\<close> read and validate first and then write in a
  transaction; the transaction works on a copy of the database that replaces the original
  at the commit. \<open>ORDER BY registered_at\<close> is a stable sort, so ties stay in order of
  insertion.
\<close>

record Job =
  ID :: string
  PID :: int
  PGID :: int
  CheckpointDir :: string
  Command :: "string list option" \<comment> \<open>\<open>None\<close> is the nil slice\<close>
  WorkDir :: string
  HookCheckpoint :: string
  HookResume :: string
  Status :: Status
  FailureReason :: string
  Owner :: string
  Tag :: string
  RegisteredAt :: time
  UpdatedAt :: time

record HistoryEntry =
  JobID :: string
  FromStatus :: Status
  ToStatus :: Status
  ChangedBy :: string
  ChangedAt :: time

datatype store_error =
    InvalidJobID string
  | InsertJobError string
  | InsertedIDError string
  | ScanJobRowError string
  | UnmarshalCommandError string
  | ListJobsError string
  | ListTerminalJobsError string
  | RowsError string
  | ScanHistoryRowError string
  | InvalidTransition string Status Status
  | UpdateJobError string string
  | JobNotFound string
  | RecordHistoryError int string
  | CommitError string
  | ListHistoryError string string
  | CreateDBDirError string
  | UnsupportedDBDriver string
  | OpenDBError string string
  | ConnectDBError string string
  | ApplySchemaError string
  | CheckColumnError string string string
  | AddColumnError string string string
  | MigrateSchemaError store_error

section \<open>Reading\<close>

definition parseID :: "string \<Rightarrow> store_error + int" where
  "parseID jid = (case ParseInt jid of Inl _ \<Rightarrow> Inl (InvalidJobID jid) | Inr n \<Rightarrow> Inr n)"

definition scanJob :: "env \<Rightarrow> job_row \<Rightarrow> store_error + Job" where
  "scanJob e r = (case json_read_strings (row_command r) of
     None \<Rightarrow> Inl (UnmarshalCommandError (json_error e (row_command r)))
   | Some cmd \<Rightarrow> Inr
       \<lparr>ID = FormatInt (row_id r), PID = row_pid r, PGID = row_pgid r,
        CheckpointDir = row_checkpoint_dir r, Command = cmd, WorkDir = row_work_dir r,
        HookCheckpoint = row_hook_checkpoint r, HookResume = row_hook_resume r,
        Status = status_of_text (row_status r), FailureReason = row_failure_reason r,
        Owner = row_owner r, Tag = row_tag r, RegisteredAt = row_registered_at r,
        UpdatedAt = row_updated_at r\<rparr>)"

definition no_rows :: string where
  "no_rows = ''sql: no rows in result set''"

definition Store_Get :: "env \<Rightarrow> string \<Rightarrow> world \<Rightarrow> (store_error + Job) \<times> world" where
  "Store_Get e jid w = (case parseID jid of
     Inl err \<Rightarrow> (Inl err, w)
   | Inr n \<Rightarrow> (case sql e SqlSelectJob w of
        (Some t, w) \<Rightarrow> (Inl (ScanJobRowError t), w)
      | (None, w) \<Rightarrow> (case select_row row_id n (jobs_rows (db w)) of
            None \<Rightarrow> (Inl (ScanJobRowError no_rows), w)
          | Some r \<Rightarrow> (scanJob e r, w))))"

definition terminal_texts :: "string list" where
  "terminal_texts = [status_text StatusFailed, status_text StatusCanceled, status_text StatusCompleted]"

definition active_rows :: "database \<Rightarrow> job_row list" where
  "active_rows d = sort_key row_registered_at
     (filter (\<lambda>r. row_status r \<notin> set terminal_texts) (jobs_rows d))"

definition terminal_rows :: "database \<Rightarrow> job_row list" where
  "terminal_rows d = sort_key row_registered_at
     (filter (\<lambda>r. row_status r \<in> set terminal_texts) (jobs_rows d))"

text \<open>
  The loop over \<open>rows.Next()\<close> that both listings share: the first row that does not scan, or
  whose command does not decode, ends it; after the last row comes \<open>rows.Err()\<close>.
\<close>

fun collect_jobs :: "env \<Rightarrow> job_row list \<Rightarrow> world \<Rightarrow> (store_error + Job list) \<times> world" where
  "collect_jobs e [] w = (case sql e SqlRowsEnd w of
     (Some t, w) \<Rightarrow> (Inl (RowsError t), w)
   | (None, w) \<Rightarrow> (Inr [], w))"
| "collect_jobs e (r # rs) w = (case sql e SqlScanRow w of
     (Some t, w) \<Rightarrow> (Inl (ScanJobRowError t), w)
   | (None, w) \<Rightarrow> (case scanJob e r of
        Inl err \<Rightarrow> (Inl err, w)
      | Inr j \<Rightarrow> (case collect_jobs e rs w of
           (Inl err, w) \<Rightarrow> (Inl err, w)
         | (Inr js, w) \<Rightarrow> (Inr (j # js), w))))"

definition Store_List :: "env \<Rightarrow> world \<Rightarrow> (store_error + Job list) \<times> world" where
  "Store_List e w = (case sql e SqlSelectActive w of
     (Some t, w) \<Rightarrow> (Inl (ListJobsError t), w)
   | (None, w) \<Rightarrow> collect_jobs e (active_rows (db w)) w)"

definition Store_ListTerminal :: "env \<Rightarrow> world \<Rightarrow> (store_error + Job list) \<times> world" where
  "Store_ListTerminal e w = (case sql e SqlSelectTerminal w of
     (Some t, w) \<Rightarrow> (Inl (ListTerminalJobsError t), w)
   | (None, w) \<Rightarrow> collect_jobs e (terminal_rows (db w)) w)"

definition history_entry :: "history_row \<Rightarrow> HistoryEntry" where
  "history_entry h = \<lparr>JobID = FormatInt (hrow_job_id h),
     FromStatus = status_of_text (hrow_from_status h), ToStatus = status_of_text (hrow_to_status h),
     ChangedBy = hrow_changed_by h, ChangedAt = hrow_changed_at h\<rparr>"

fun collect_history :: "env \<Rightarrow> history_row list \<Rightarrow> world \<Rightarrow> (store_error + HistoryEntry list) \<times> world" where
  "collect_history e [] w = (case sql e SqlRowsEnd w of
     (Some t, w) \<Rightarrow> (Inl (RowsError t), w)
   | (None, w) \<Rightarrow> (Inr [], w))"
| "collect_history e (h # hs) w = (case sql e SqlScanRow w of
     (Some t, w) \<Rightarrow> (Inl (ScanHistoryRowError t), w)
   | (None, w) \<Rightarrow> (case collect_history e hs w of
        (Inl err, w) \<Rightarrow> (Inl err, w)
      | (Inr es, w) \<Rightarrow> (Inr (history_entry h # es), w)))"

definition Store_History :: "env \<Rightarrow> string \<Rightarrow> world \<Rightarrow> (store_error + HistoryEntry list) \<times> world" where
  "Store_History e jid w = (case parseID jid of
     Inl err \<Rightarrow> (Inl err, w)
   | Inr n \<Rightarrow> (case sql e SqlSelectHistory w of
        (Some t, w) \<Rightarrow> (Inl (ListHistoryError jid t), w)
      | (None, w) \<Rightarrow> collect_history e
          (sort_key hrow_id (filter (\<lambda>h. hrow_job_id h = n) (history_rows (db w)))) w))"

section \<open>Writing\<close>

definition insert_job_row :: "env \<Rightarrow> Job \<Rightarrow> database \<Rightarrow> database" where
  "insert_job_row e j d = d\<lparr>jobs_seq := jobs_seq d + 1,
     jobs_rows := jobs_rows d @
       [\<lparr>row_id = jobs_seq d + 1, row_pid = PID j, row_pgid = PGID j,
         row_checkpoint_dir = CheckpointDir j, row_command = json_strings (Command j),
         row_work_dir = WorkDir j, row_hook_checkpoint = HookCheckpoint j,
         row_hook_resume = HookResume j, row_status = status_text (Status j),
         row_failure_reason = FailureReason j, row_owner = Owner j, row_tag = Tag j,
         row_registered_at = column_time e (RegisteredAt j),
         row_updated_at = column_time e (UpdatedAt j)\<rparr>]\<rparr>"

definition Store_Insert :: "env \<Rightarrow> Job \<Rightarrow> world \<Rightarrow> (store_error + string) \<times> world" where
  "Store_Insert e j w = (case sql e SqlInsertJob w of
     (Some t, w) \<Rightarrow> (Inl (InsertJobError t), w)
   | (None, w) \<Rightarrow>
       if jobs_seq (db w) \<ge> int64_max then (Inl (InsertJobError (full_fault e)), w)
       else (let w = w\<lparr>db := insert_job_row e j (db w)\<rparr> in
         case sql e SqlLastInsertId w of
           (Some t, w) \<Rightarrow> (Inl (InsertedIDError t), w)
         | (None, w) \<Rightarrow> (Inr (FormatInt (jobs_seq (db w))), w)))"

definition update_jobs :: "int \<Rightarrow> (job_row \<Rightarrow> job_row) \<Rightarrow> database \<Rightarrow> database" where
  "update_jobs n f d = d\<lparr>jobs_rows := update_rows row_id n f (jobs_rows d)\<rparr>"

definition insert_history_row ::
  "int \<Rightarrow> Status \<Rightarrow> Status \<Rightarrow> string \<Rightarrow> time \<Rightarrow> database \<Rightarrow> database" where
  "insert_history_row n from_st to_st changedBy at d = d\<lparr>history_seq := history_seq d + 1,
     history_rows := history_rows d @
       [\<lparr>hrow_id = history_seq d + 1, hrow_job_id = n, hrow_from_status = status_text from_st,
         hrow_to_status = status_text to_st, hrow_changed_by = changedBy, hrow_changed_at = at\<rparr>]\<rparr>"

text \<open>\<open>recordHistory\<close> writes into the open transaction, whose database is \<open>d\<close>.\<close>

definition recordHistory ::
  "env \<Rightarrow> int \<Rightarrow> Status \<Rightarrow> Status \<Rightarrow> string \<Rightarrow> time \<Rightarrow> database \<Rightarrow> world \<Rightarrow>
     (store_error + database) \<times> world" where
  "recordHistory e n from_st to_st changedBy at d w = (case sql e SqlInsertHistory w of
     (Some t, w) \<Rightarrow> (Inl (RecordHistoryError n t), w)
   | (None, w) \<Rightarrow> (Inr (insert_history_row n from_st to_st changedBy (column_time e at) d), w))"

text \<open>
  The transaction both updates share: begin, one \<open>UPDATE jobs\<close>, the history row, commit;
  every early return rolls back.
\<close>

definition update_tx ::
  "env \<Rightarrow> string \<Rightarrow> int \<Rightarrow> stmt \<Rightarrow> (time \<Rightarrow> job_row \<Rightarrow> job_row) \<Rightarrow> Status \<Rightarrow> Status \<Rightarrow> string \<Rightarrow>
     world \<Rightarrow> store_error option \<times> world" where
  "update_tx e jid n st f from_st to_st changedBy w = (case sql e SqlBegin w of
     (Some t, w) \<Rightarrow> (Some (UpdateJobError jid t), w)
   | (None, w) \<Rightarrow> (case now_utc e w of (now, w) \<Rightarrow>
      (case sql e st w of
         (Some t, w) \<Rightarrow> (Some (UpdateJobError jid t), w)
       | (None, w) \<Rightarrow>
           if matching_rows row_id n (jobs_rows (db w)) = 0 then (Some (JobNotFound jid), w)
           else (case recordHistory e n from_st to_st changedBy now
                        (update_jobs n (f (column_time e now)) (db w)) w of
              (Inl err, w) \<Rightarrow> (Some err, w)
            | (Inr d, w) \<Rightarrow> (case sql e SqlCommit w of
                 (Some t, w) \<Rightarrow> (Some (CommitError t), w)
               | (None, w) \<Rightarrow> (None, w\<lparr>db := d\<rparr>))))))"

definition set_status :: "Status \<Rightarrow> string \<Rightarrow> time \<Rightarrow> job_row \<Rightarrow> job_row" where
  "set_status to_st failureReason now r =
     r\<lparr>row_status := status_text to_st, row_failure_reason := failureReason, row_updated_at := now\<rparr>"

definition set_pid :: "int \<Rightarrow> int \<Rightarrow> time \<Rightarrow> job_row \<Rightarrow> job_row" where
  "set_pid pid pgid now r =
     r\<lparr>row_pid := pid, row_pgid := pgid, row_status := status_text StatusRunning,
       row_updated_at := now\<rparr>"

definition Store_UpdateStatus ::
  "env \<Rightarrow> string \<Rightarrow> Status \<Rightarrow> string \<Rightarrow> string \<Rightarrow> world \<Rightarrow> store_error option \<times> world" where
  "Store_UpdateStatus e jid to_st failureReason changedBy w = (case parseID jid of
     Inl err \<Rightarrow> (Some err, w)
   | Inr n \<Rightarrow> (case Store_Get e jid w of
        (Inl err, w) \<Rightarrow> (Some err, w)
      | (Inr existing, w) \<Rightarrow>
          if \<not> ValidTransition (Status existing) to_st
          then (Some (InvalidTransition jid (Status existing) to_st), w)
          else update_tx e jid n SqlUpdateStatus (set_status to_st failureReason)
                 (Status existing) to_st changedBy w))"

definition Store_UpdatePID ::
  "env \<Rightarrow> string \<Rightarrow> int \<Rightarrow> int \<Rightarrow> string \<Rightarrow> world \<Rightarrow> store_error option \<times> world" where
  "Store_UpdatePID e jid pid pgid changedBy w = (case parseID jid of
     Inl err \<Rightarrow> (Some err, w)
   | Inr n \<Rightarrow> (case Store_Get e jid w of
        (Inl err, w) \<Rightarrow> (Some err, w)
      | (Inr existing, w) \<Rightarrow>
          if \<not> ValidTransition (Status existing) StatusRunning
          then (Some (InvalidTransition jid (Status existing) StatusRunning), w)
          else update_tx e jid n SqlUpdatePid (set_pid pid pgid)
                 (Status existing) StatusRunning changedBy w))"

definition Store_UpdateCheckpointDir ::
  "env \<Rightarrow> string \<Rightarrow> string \<Rightarrow> world \<Rightarrow> store_error option \<times> world" where
  "Store_UpdateCheckpointDir e jid dir w = (case parseID jid of
     Inl err \<Rightarrow> (Some err, w)
   | Inr n \<Rightarrow> (case now_utc e w of (now, w) \<Rightarrow>
      (case sql e SqlUpdateCheckpointDir w of
         (Some t, w) \<Rightarrow> (Some (UpdateJobError jid t), w)
       | (None, w) \<Rightarrow>
           if matching_rows row_id n (jobs_rows (db w)) = 0 then (Some (JobNotFound jid), w)
           else (None, w\<lparr>db := update_jobs n
                  (\<lambda>r. r\<lparr>row_checkpoint_dir := dir, row_updated_at := column_time e now\<rparr>) (db w)\<rparr>))))"

end
