(* ===== verification/StoreInv.thy ===== *)
theory StoreInv
  imports Store
begin

text \<open>
  What the store promises: frame facts (which parts of the world a method leaves alone),
  what each method returns and writes on every branch, the well-formedness invariant of
  the database and that every method keeps it, and the lifecycle contract, a locale whose
  consequences hold for any run of store operations.
\<close>

section \<open>Frames\<close>

text \<open>Store methods talk to the clock and the database only.\<close>

fun is_store_call :: "call \<Rightarrow> bool" where
  "is_store_call NowCall = True"
| "is_store_call (SqlCall _) = True"
| "is_store_call _ = False"

text \<open>
  \<open>w'\<close> is \<open>w\<close> after some calls that satisfy \<open>P\<close>, apart from the database.
\<close>

definition frame :: "(call \<Rightarrow> bool) \<Rightarrow> world \<Rightarrow> world \<Rightarrow> bool" where
  "frame P w w' \<longleftrightarrow> audit_file w' = audit_file w \<and> interrupted w' = interrupted w \<and>
     (\<exists>cs. calls w' = cs @ calls w \<and> list_all P cs)"

lemma frame_refl [simp]: "frame P w w"
  by (simp add: frame_def)

lemma frame_trans: "frame P w w' \<Longrightarrow> frame P w' w'' \<Longrightarrow> frame P w w''"
  unfolding frame_def by (metis append.assoc list_all_append)

lemma frame_record_call: "P c \<Longrightarrow> frame P w (record_call c w)"
  by (auto simp: frame_def intro: exI [of _ "[c]"])

lemma frame_record_call_trans: "P c \<Longrightarrow> frame P w w' \<Longrightarrow> frame P w (record_call c w')"
  by (blast intro: frame_trans frame_record_call)

lemma frame_db [simp]: "frame P w (w'\<lparr>db := d\<rparr>) \<longleftrightarrow> frame P w w'"
  by (simp add: frame_def)

lemma frame_mono: "frame P w w' \<Longrightarrow> (\<And>c. P c \<Longrightarrow> Q c) \<Longrightarrow> frame Q w w'"
  unfolding frame_def by (metis list.pred_mono_strong)

lemma frameD:
  assumes "frame P w w'"
  shows "audit_file w' = audit_file w" and "interrupted w' = interrupted w"
    and "c \<in> set (calls w') \<Longrightarrow> \<not> P c \<Longrightarrow> c \<in> set (calls w)"
    and "set (calls w) \<subseteq> set (calls w')"
  using assms by (auto simp: frame_def list_all_iff)

text \<open>\<open>store_op\<close>: the frame of the store's methods.\<close>

abbreviation store_frame :: "world \<Rightarrow> world \<Rightarrow> bool" where
  "store_frame \<equiv> frame is_store_call"

lemmas frame_intros = frame_record_call_trans frame_record_call

lemmas store_splits = prod.splits option.splits sum.splits if_splits

lemma Store_Get_frame: "store_frame w (snd (Store_Get e jid w))"
  by (auto simp: Store_Get_def intro!: frame_intros split: store_splits)

lemma Store_Get_db [simp]: "db (snd (Store_Get e jid w)) = db w"
  by (auto simp: Store_Get_def split: store_splits)

lemma Store_Get_eq_db: "Store_Get e jid w = (res, w') \<Longrightarrow> db w' = db w"
  using Store_Get_db [of e jid w] by simp

text \<open>A loop over the rows of a query makes statements and nothing else.\<close>

lemma record_sql_frame: "store_frame (record_call (SqlCall st) w) w' \<Longrightarrow> store_frame w w'"
  by (rule frame_trans [OF frame_record_call]) simp_all

lemma collect_jobs_frame: "store_frame w (snd (collect_jobs e rs w))"
proof (induction rs arbitrary: w)
  case (Cons r rs)
  have "store_frame w (snd (collect_jobs e rs (record_call (SqlCall SqlScanRow) w)))"
    by (rule record_sql_frame [OF Cons.IH])
  then show ?case by (auto intro: frame_intros split: store_splits)
qed (auto intro: frame_intros split: store_splits)

lemma collect_jobs_db [simp]: "db (snd (collect_jobs e rs w)) = db w"
proof (induction rs arbitrary: w)
  case (Cons r rs)
  from this [of "record_call (SqlCall SqlScanRow) w"] show ?case by (auto split: store_splits)
qed (auto split: store_splits)

lemma collect_history_frame: "store_frame w (snd (collect_history e hs w))"
proof (induction hs arbitrary: w)
  case (Cons h hs)
  have "store_frame w (snd (collect_history e hs (record_call (SqlCall SqlScanRow) w)))"
    by (rule record_sql_frame [OF Cons.IH])
  then show ?case by (auto intro: frame_intros split: store_splits)
qed (auto intro: frame_intros split: store_splits)

lemma collect_history_db [simp]: "db (snd (collect_history e hs w)) = db w"
proof (induction hs arbitrary: w)
  case (Cons h hs)
  from this [of "record_call (SqlCall SqlScanRow) w"] show ?case by (auto split: store_splits)
qed (auto split: store_splits)

lemma Store_List_frame: "store_frame w (snd (Store_List e w))"
  using frame_trans [OF frame_record_call collect_jobs_frame]
  by (auto simp: Store_List_def intro: frame_intros split: store_splits)

lemma Store_List_db [simp]: "db (snd (Store_List e w)) = db w"
  by (auto simp: Store_List_def split: store_splits)

lemma Store_ListTerminal_frame: "store_frame w (snd (Store_ListTerminal e w))"
  using frame_trans [OF frame_record_call collect_jobs_frame]
  by (auto simp: Store_ListTerminal_def intro: frame_intros split: store_splits)

lemma Store_ListTerminal_db [simp]: "db (snd (Store_ListTerminal e w)) = db w"
  by (auto simp: Store_ListTerminal_def split: store_splits)

lemma Store_History_frame: "store_frame w (snd (Store_History e jid w))"
  using record_sql_frame [OF collect_history_frame]
  by (auto simp: Store_History_def intro: frame_intros split: store_splits)

lemma Store_History_db [simp]: "db (snd (Store_History e jid w)) = db w"
  by (auto simp: Store_History_def split: store_splits)

lemma Store_Insert_frame: "store_frame w (snd (Store_Insert e j w))"
  by (auto simp: Store_Insert_def Let_def intro!: frame_intros split: store_splits)

lemma recordHistory_world [simp]:
  "snd (recordHistory e n a b by_whom t d w) = record_call (SqlCall SqlInsertHistory) w"
  by (auto simp: recordHistory_def split: store_splits)

lemma recordHistory_eq: "recordHistory e n a b by_whom t d w = (res, w') \<longleftrightarrow>
   w' = record_call (SqlCall SqlInsertHistory) w \<and>
   res = (case sql_error e SqlInsertHistory w of
            Some x \<Rightarrow> Inl (RecordHistoryError n x)
          | None \<Rightarrow> Inr (insert_history_row n a b by_whom (column_time e t) d))"
  by (auto simp: recordHistory_def split: store_splits)

lemma update_tx_frame: "store_frame w (snd (update_tx e jid n st f a b by_whom w))"
  by (auto simp: update_tx_def now_utc_def recordHistory_eq intro!: frame_intros split: store_splits)

lemma update_via_get_frame:
  assumes "Store_Get e jid w = (res, w1)" and "store_frame w1 w2"
  shows "store_frame w w2"
  using assms Store_Get_frame [of w e jid] by (auto intro: frame_trans)

lemma Store_UpdateStatus_frame: "store_frame w (snd (Store_UpdateStatus e jid to_st why by_whom w))"
  by (auto simp: Store_UpdateStatus_def update_tx_frame intro: update_via_get_frame split: store_splits)

lemma Store_UpdatePID_frame: "store_frame w (snd (Store_UpdatePID e jid pid pgid by_whom w))"
  by (auto simp: Store_UpdatePID_def update_tx_frame intro: update_via_get_frame split: store_splits)

lemma Store_UpdateCheckpointDir_frame: "store_frame w (snd (Store_UpdateCheckpointDir e jid dir w))"
  by (auto simp: Store_UpdateCheckpointDir_def now_utc_def intro!: frame_intros split: store_splits)

section \<open>What the methods return and write\<close>

lemma parseID_FormatInt: "in_int64 n \<Longrightarrow> parseID (FormatInt n) = Inr n"
  by (simp add: parseID_def ParseInt_FormatInt)

lemma scanJob_InrD:
  assumes "scanJob e r = Inr j"
  shows "ID j = FormatInt (row_id r)" and "Status j = status_of_text (row_status r)"
    and "CheckpointDir j = row_checkpoint_dir r" and "PGID j = row_pgid r" and "PID j = row_pid r"
    and "RegisteredAt j = row_registered_at r" and "Owner j = row_owner r"
    and "HookResume j = row_hook_resume r" and "HookCheckpoint j = row_hook_checkpoint r"
  using assms by (auto simp: scanJob_def split: option.splits)

lemma Store_Get_InrD:
  assumes "Store_Get e jid w = (Inr j, w')"
  obtains n r where "parseID jid = Inr n" and "select_row row_id n (jobs_rows (db w)) = Some r"
    and "scanJob e r = Inr j" and "w' = record_call (SqlCall SqlSelectJob) w"
    and "sql_error e SqlSelectJob w = None"
  using assms that unfolding Store_Get_def by (auto split: store_splits)

lemma Store_Get_found:
  assumes "parseID jid = Inr n" and "select_row row_id n (jobs_rows (db w)) = Some r"
    and "sql_error e SqlSelectJob w = None"
  shows "Store_Get e jid w = (scanJob e r, record_call (SqlCall SqlSelectJob) w)"
  using assms unfolding Store_Get_def by (simp add: sql_def)

text \<open>The database after a committed update: the changed rows and one more history row.\<close>

definition committed ::
  "int \<Rightarrow> (job_row \<Rightarrow> job_row) \<Rightarrow> Status \<Rightarrow> Status \<Rightarrow> string \<Rightarrow> time \<Rightarrow> database \<Rightarrow> database" where
  "committed n f a b by_whom now d = insert_history_row n a b by_whom now (update_jobs n f d)"

lemma update_tx_None:
  assumes "update_tx e jid n st f a b by_whom w = (None, w')"
  obtains now where "db w' = committed n (f now) a b by_whom now (db w)"
    and "select_row row_id n (jobs_rows (db w)) \<noteq> None"
  using assms that unfolding update_tx_def committed_def
  by (auto simp: now_utc_def recordHistory_eq matching_rows_0_iff split: store_splits)

lemma update_tx_Some:
  assumes "update_tx e jid n st f a b by_whom w = (Some err, w')"
  shows "db w' = db w"
  using assms unfolding update_tx_def
  by (auto simp: now_utc_def recordHistory_eq split: store_splits)

lemma update_tx_succeeds:
  assumes "sql_ok e" and "schema_ready (db w)" and "select_row row_id n (jobs_rows (db w)) = Some r"
  shows "fst (update_tx e jid n st f a b by_whom w) = None"
  using assms select_row_matching_pos [OF assms(3)] unfolding update_tx_def
  by (auto simp: now_utc_def recordHistory_eq sql_error_ready split: store_splits)

text \<open>
  \<open>Store_UpdateStatus\<close> and \<open>Store_UpdatePID\<close> either change nothing or make exactly one legal
  transition of the addressed job, with its history row.
\<close>

lemma Store_UpdateStatus_None:
  assumes "Store_UpdateStatus e jid to_st why by_whom w = (None, w')"
  obtains n r now where "parseID jid = Inr n" and "select_row row_id n (jobs_rows (db w)) = Some r"
    and "ValidTransition (status_of_text (row_status r)) to_st"
    and "db w' = committed n (set_status to_st why now) (status_of_text (row_status r)) to_st
           by_whom now (db w)"
  using assms that unfolding Store_UpdateStatus_def
  by (auto split: store_splits elim!: Store_Get_InrD update_tx_None simp: scanJob_InrD)

lemma Store_UpdateStatus_Some:
  assumes "Store_UpdateStatus e jid to_st why by_whom w = (Some err, w')"
  shows "db w' = db w"
  using assms unfolding Store_UpdateStatus_def
  by (auto split: store_splits dest!: update_tx_Some dest: Store_Get_eq_db)

lemma Store_UpdatePID_None:
  assumes "Store_UpdatePID e jid pid pgid by_whom w = (None, w')"
  obtains n r now where "parseID jid = Inr n" and "select_row row_id n (jobs_rows (db w)) = Some r"
    and "ValidTransition (status_of_text (row_status r)) StatusRunning"
    and "db w' = committed n (set_pid pid pgid now) (status_of_text (row_status r)) StatusRunning
           by_whom now (db w)"
  using assms that unfolding Store_UpdatePID_def
  by (auto split: store_splits elim!: Store_Get_InrD update_tx_None simp: scanJob_InrD)

lemma Store_UpdatePID_Some:
  assumes "Store_UpdatePID e jid pid pgid by_whom w = (Some err, w')"
  shows "db w' = db w"
  using assms unfolding Store_UpdatePID_def
  by (auto split: store_splits dest!: update_tx_Some dest: Store_Get_eq_db)

lemma Store_UpdateCheckpointDir_cases:
  assumes "Store_UpdateCheckpointDir e jid dir w = (res, w')"
  shows "res \<noteq> None \<and> db w' = db w \<or>
    res = None \<and> (\<exists>n now. parseID jid = Inr n \<and> db w' =
      update_jobs n (\<lambda>r. r\<lparr>row_checkpoint_dir := dir, row_updated_at := now\<rparr>) (db w))"
  using assms unfolding Store_UpdateCheckpointDir_def
  by (auto simp: now_utc_def split: store_splits)

lemma Store_Insert_cases:
  assumes "Store_Insert e j w = (res, w')"
  shows "db w' = db w \<and> (\<exists>err. res = Inl err) \<or>
    db w' = insert_job_row e j (db w) \<and> jobs_seq (db w) < int64_max \<and>
      (res = Inr (FormatInt (jobs_seq (db w) + 1)) \<or> (\<exists>t. res = Inl (InsertedIDError t)))"
  using assms unfolding Store_Insert_def
  by (auto simp: Let_def insert_job_row_def split: store_splits)

lemma Store_Insert_succeeds:
  assumes "sql_ok e" and "schema_ready (db w)" and "jobs_seq (db w) < int64_max"
  shows "fst (Store_Insert e j w) = Inr (FormatInt (jobs_seq (db w) + 1))"
    and "db (snd (Store_Insert e j w)) = insert_job_row e j (db w)"
  using assms schema_ready_covers
  unfolding Store_Insert_def sql_def sql_error_def
  by (auto simp: Let_def insert_job_row_def schema_ready_def schema_covers_def)

section \<open>The invariant of the database\<close>

definition job_history :: "database \<Rightarrow> int \<Rightarrow> (Status \<times> Status) list" where
  "job_history d n = map (\<lambda>h. (status_of_text (hrow_from_status h), status_of_text (hrow_to_status h)))
     (filter (\<lambda>h. hrow_job_id h = n) (history_rows d))"

text \<open>
  A row in order: an id the counter has handed out, a command that reads back, and a
  history that leads through the transition table from a start status in \<open>S\<close> to the
  row's status.
\<close>

definition row_ok :: "Status list \<Rightarrow> database \<Rightarrow> job_row \<Rightarrow> bool" where
  "row_ok S d r \<longleftrightarrow> 1 \<le> row_id r \<and> row_id r \<le> jobs_seq d \<and>
     json_read_strings (row_command r) \<noteq> None \<and>
     (\<exists>s0 \<in> set S. status_run s0 (job_history d (row_id r)) (status_of_text (row_status r)))"

definition store_wf :: "Status list \<Rightarrow> database \<Rightarrow> bool" where
  "store_wf S d \<longleftrightarrow> schema_ready d \<and> 0 \<le> jobs_seq d \<and> jobs_seq d \<le> int64_max \<and>
     distinct (map row_id (jobs_rows d)) \<and> (\<forall>r \<in> set (jobs_rows d). row_ok S d r) \<and>
     (\<forall>h \<in> set (history_rows d). hrow_job_id h \<le> jobs_seq d \<and> hrow_id h \<le> history_seq d) \<and>
     sorted_wrt (<) (map hrow_id (history_rows d))"

lemma store_wf_empty [simp]: "store_wf S empty_db"
  using schema_ready_empty by (simp add: store_wf_def int64_bounds_values) (simp add: empty_db_def)

lemma store_wfD:
  assumes "store_wf S d"
  shows "schema_ready d" and "distinct (map row_id (jobs_rows d))"
    and "\<And>r. r \<in> set (jobs_rows d) \<Longrightarrow> row_ok S d r"
    and "0 \<le> jobs_seq d" and "jobs_seq d \<le> int64_max"
    and "sorted_wrt (<) (map hrow_id (history_rows d))"
  using assms by (auto simp: store_wf_def)

lemma row_unique:
  "store_wf S d \<Longrightarrow> r \<in> set (jobs_rows d) \<Longrightarrow> r' \<in> set (jobs_rows d) \<Longrightarrow> row_id r = row_id r' \<Longrightarrow> r = r'"
  by (auto simp: store_wf_def distinct_map dest: inj_onD)

lemma row_ok_in_int64: "store_wf S d \<Longrightarrow> r \<in> set (jobs_rows d) \<Longrightarrow> in_int64 (row_id r)"
  by (fastforce simp: store_wf_def row_ok_def in_int64_def int64_bounds_values)

lemma scanJob_ok: "row_ok S d r \<Longrightarrow> \<exists>j. scanJob e r = Inr j"
  by (auto simp: row_ok_def scanJob_def)

lemma row_ok_cong:
  assumes "row_ok S d r" and "row_id r' = row_id r" and "row_command r' = row_command r"
    and "row_status r' = row_status r" and "jobs_seq d' = jobs_seq d" and "history_rows d' = history_rows d"
  shows "row_ok S d' r'"
  using assms by (simp add: row_ok_def job_history_def)

text \<open>Rows in which neither id, command nor status changes: the checkpoint directory update.\<close>

lemma update_jobs_wf:
  assumes "store_wf S d"
    and "\<And>r. row_id (f r) = row_id r" and "\<And>r. row_command (f r) = row_command r"
    and "\<And>r. row_status (f r) = row_status r"
  shows "store_wf S (update_jobs n f d)"
proof -
  have "row_ok S (update_jobs n f d) r'" if "r' \<in> set (update_rows row_id n f (jobs_rows d))" for r'
    using that
  proof (cases rule: in_update_rows_cases)
    case same
    then show ?thesis
      using row_ok_cong [OF store_wfD(3) [OF assms(1)], of r' r'] by (simp add: update_jobs_def)
  next
    case (changed r)
    then show ?thesis using assms row_ok_cong [OF store_wfD(3) [OF assms(1)]] by (auto simp: update_jobs_def)
  qed
  then show ?thesis using assms by (auto simp: store_wf_def update_jobs_def schema_ready_def)
qed

lemma job_history_insert [simp]:
  "job_history (insert_history_row n a b by_whom now d) m =
     (if m = n then job_history d m @ [(status_of_text (status_text a), status_of_text (status_text b))]
      else job_history d m)"
  by (simp add: job_history_def insert_history_row_def)

lemma job_history_update_jobs [simp]: "job_history (update_jobs n f d) m = job_history d m"
  by (simp add: job_history_def update_jobs_def)

lemma committed_simps [simp]:
  "jobs_rows (committed n f a b by_whom now d) = update_rows row_id n f (jobs_rows d)"
  "jobs_seq (committed n f a b by_whom now d) = jobs_seq d"
  "jobs_columns (committed n f a b by_whom now d) = jobs_columns d"
  "history_exists (committed n f a b by_whom now d) = history_exists d"
  by (simp_all add: committed_def insert_history_row_def update_jobs_def)

text \<open>A committed transition extends the job's history by the step it makes.\<close>

lemma committed_wf:
  assumes wf: "store_wf S d" and sel: "select_row row_id n (jobs_rows d) = Some r0"
    and a: "a = status_of_text (row_status r0)" and ab: "ValidTransition a b"
    and f: "\<And>r. row_id (f r) = row_id r" "\<And>r. row_command (f r) = row_command r"
      "\<And>r. row_status (f r) = status_text b"
  shows "store_wf S (committed n f a b by_whom now d)" (is "store_wf S ?d")
proof -
  note r0 = select_row_SomeD [OF sel]
  have named: "status_of_text (status_text a) = a" "status_of_text (status_text b) = b"
    using ValidTransition_named [OF ab] by simp_all
  have rows: "row_ok S ?d r'" if "r' \<in> set (update_rows row_id n f (jobs_rows d))" for r'
    using that
  proof (cases rule: in_update_rows_cases)
    case same
    from same(1) have "row_ok S d r'" by (rule store_wfD(3) [OF wf])
    with same(2) show ?thesis by (simp add: row_ok_def committed_def insert_history_row_def
        update_jobs_def job_history_def)
  next
    case (changed r)
    then have "r = r0" using r0 row_unique [OF wf] by blast
    with changed have ok: "row_ok S d r0" by (blast intro: store_wfD(3) [OF wf])
    then obtain s0 where "s0 \<in> set S" "status_run s0 (job_history d n) a"
      using r0(2) a by (auto simp: row_ok_def)
    then have "status_run s0 (job_history ?d n) b"
      using ab by (simp add: committed_def named status_run_snoc)
    with \<open>s0 \<in> set S\<close> ok changed \<open>r = r0\<close> r0(2) f named show ?thesis
      by (auto simp: row_ok_def)
  qed
  have "n \<le> jobs_seq d" using store_wfD(3) [OF wf r0(1)] r0(2) by (simp add: row_ok_def)
  with wf rows f(1) show ?thesis
    by (auto simp: store_wf_def schema_ready_def sorted_wrt_append committed_def insert_history_row_def
        update_jobs_def less_Suc_eq_le) (fastforce)?
qed

lemma insert_job_row_wf:
  assumes wf: "store_wf S d" and "jobs_seq d < int64_max" and "Status j \<in> set S" and "is_named (Status j)"
  shows "store_wf S (insert_job_row e j d)" (is "store_wf S ?d")
proof -
  have hist: "job_history ?d m = job_history d m" for m
    by (simp add: job_history_def insert_job_row_def)
  have none: "job_history d (jobs_seq d + 1) = []"
    using wf by (force simp: job_history_def store_wf_def filter_empty_conv)
  have fresh: "jobs_seq d + 1 \<notin> row_id ` set (jobs_rows d)"
    using wf by (fastforce simp: store_wf_def row_ok_def)
  have old: "row_ok S ?d r" if "r \<in> set (jobs_rows d)" for r
    using store_wfD(3) [OF wf that] by (auto simp: row_ok_def hist) (simp add: insert_job_row_def)
  have new: "row_ok S ?d r" if "r \<in> set (jobs_rows ?d)" "r \<notin> set (jobs_rows d)" for r
    using that assms none hist store_wfD(4) [OF wf]
    by (auto simp: row_ok_def insert_job_row_def json_strings_round_trip job_history_def)
  have "row_ok S ?d r" if "r \<in> set (jobs_rows ?d)" for r
    using old new that by blast
  with assms fresh show ?thesis
    by (auto simp: store_wf_def insert_job_row_def schema_ready_def)
qed

section \<open>Every method keeps the invariant\<close>

lemma set_status_fields [simp]:
  "row_id (set_status b why now r) = row_id r" "row_command (set_status b why now r) = row_command r"
  "row_status (set_status b why now r) = status_text b"
  by (simp_all add: set_status_def)

lemma set_pid_fields [simp]:
  "row_id (set_pid p g now r) = row_id r" "row_command (set_pid p g now r) = row_command r"
  "row_status (set_pid p g now r) = status_text StatusRunning"
  by (simp_all add: set_pid_def)

lemma Store_Insert_wf [wf_intros]:
  assumes "store_wf S (db w)" and "Status j \<in> set S" and "is_named (Status j)"
  shows "store_wf S (db (snd (Store_Insert e j w)))"
  using Store_Insert_cases [of e j w "fst (Store_Insert e j w)" "snd (Store_Insert e j w)"]
    insert_job_row_wf [OF assms(1) _ assms(2,3)] assms(1) by auto

lemma Store_UpdateStatus_wf [wf_intros]:
  assumes wf: "store_wf S (db w)"
  shows "store_wf S (db (snd (Store_UpdateStatus e jid to_st why by_whom w)))"
proof (cases "Store_UpdateStatus e jid to_st why by_whom w")
  case (Pair res w')
  show ?thesis
  proof (cases res)
    case None
    with Pair have "Store_UpdateStatus e jid to_st why by_whom w = (None, w')" by simp
    then show ?thesis
      by (rule Store_UpdateStatus_None) (simp add: Pair committed_wf [OF wf])
  next
    case (Some err)
    with Pair wf Store_UpdateStatus_Some show ?thesis by simp
  qed
qed

lemma Store_UpdatePID_wf [wf_intros]:
  assumes wf: "store_wf S (db w)"
  shows "store_wf S (db (snd (Store_UpdatePID e jid pid pgid by_whom w)))"
proof (cases "Store_UpdatePID e jid pid pgid by_whom w")
  case (Pair res w')
  show ?thesis
  proof (cases res)
    case None
    with Pair have "Store_UpdatePID e jid pid pgid by_whom w = (None, w')" by simp
    then show ?thesis
      by (rule Store_UpdatePID_None) (simp add: Pair committed_wf [OF wf])
  next
    case (Some err)
    with Pair wf Store_UpdatePID_Some show ?thesis by simp
  qed
qed

lemma Store_UpdateCheckpointDir_wf [wf_intros]:
  assumes "store_wf S (db w)"
  shows "store_wf S (db (snd (Store_UpdateCheckpointDir e jid dir w)))"
  using Store_UpdateCheckpointDir_cases [of e jid dir w "fst (Store_UpdateCheckpointDir e jid dir w)"
      "snd (Store_UpdateCheckpointDir e jid dir w)"] assms by (auto simp: update_jobs_wf)

section \<open>The status of a job, and how the methods move it\<close>

definition status_at :: "database \<Rightarrow> int \<Rightarrow> Status option" where
  "status_at d n = map_option (\<lambda>r. status_of_text (row_status r)) (select_row row_id n (jobs_rows d))"

lemma status_at_committed:
  assumes "\<And>r. row_id (f r) = row_id r" and "\<And>r. row_status (f r) = status_text b" and "is_named b"
    and "select_row row_id n (jobs_rows d) \<noteq> None"
  shows "status_at (committed n f a b by_whom now d) = (status_at d)(n \<mapsto> b)"
  using assms by (auto simp: status_at_def fun_eq_iff select_row_update)

lemma status_at_update_jobs:
  assumes "\<And>r. row_id (f r) = row_id r" and "\<And>r. row_status (f r) = row_status r"
  shows "status_at (update_jobs n f d) = status_at d"
  using assms
  by (auto simp: status_at_def update_jobs_def fun_eq_iff select_row_update option.map_comp comp_def)

lemma status_at_insert:
  assumes "is_named (Status j)" and "jobs_seq d + 1 \<notin> row_id ` set (jobs_rows d)"
  shows "status_at (insert_job_row e j d) = (status_at d)(jobs_seq d + 1 \<mapsto> Status j)"
  using assms select_row_None_iff [of row_id "jobs_seq d + 1" "jobs_rows d"]
  by (auto simp: status_at_def insert_job_row_def fun_eq_iff select_row_append split: option.splits)

lemma fresh_id: "store_wf S d \<Longrightarrow> jobs_seq d + 1 \<notin> row_id ` set (jobs_rows d)"
  by (fastforce simp: store_wf_def row_ok_def)

lemma Store_UpdateStatus_status:
  assumes "Store_UpdateStatus e jid to_st why by_whom w = (None, w')"
  obtains n a where "parseID jid = Inr n" and "status_at (db w) n = Some a"
    and "ValidTransition a to_st" and "status_at (db w') = (status_at (db w))(n \<mapsto> to_st)"
proof -
  obtain n r now where *: "parseID jid = Inr n" "select_row row_id n (jobs_rows (db w)) = Some r"
    "ValidTransition (status_of_text (row_status r)) to_st"
    "db w' = committed n (set_status to_st why now) (status_of_text (row_status r)) to_st by_whom now (db w)"
    using assms by (rule Store_UpdateStatus_None)
  then show thesis using that ValidTransition_named [OF *(3)] status_at_committed
    by (simp add: status_at_def [of "db w" n])
qed

lemma Store_UpdatePID_status:
  assumes "Store_UpdatePID e jid pid pgid by_whom w = (None, w')"
  obtains n where "parseID jid = Inr n" and "status_at (db w) n = Some StatusRestorePending"
    and "status_at (db w') = (status_at (db w))(n \<mapsto> StatusRunning)"
proof -
  obtain n r now where *: "parseID jid = Inr n" "select_row row_id n (jobs_rows (db w)) = Some r"
    "ValidTransition (status_of_text (row_status r)) StatusRunning"
    "db w' = committed n (set_pid pid pgid now) (status_of_text (row_status r)) StatusRunning by_whom now (db w)"
    using assms by (rule Store_UpdatePID_None)
  then show thesis using that status_at_committed
    by (simp add: status_at_def [of "db w" n] ValidTransition_to_running_iff)
qed

section \<open>Runs of store operations\<close>

text \<open>
  Any caller of the store: one method at a time, with any arguments, in any environment.
  \<open>Insert\<close> is restricted to the start statuses \<open>S\<close> its callers use.
\<close>

inductive store_step :: "Status list \<Rightarrow> env \<Rightarrow> world \<Rightarrow> world \<Rightarrow> bool" for S e where
  insert: "Status j \<in> set S \<Longrightarrow> is_named (Status j) \<Longrightarrow> store_step S e w (snd (Store_Insert e j w))"
| get: "store_step S e w (snd (Store_Get e jid w))"
| list: "store_step S e w (snd (Store_List e w))"
| list_terminal: "store_step S e w (snd (Store_ListTerminal e w))"
| history: "store_step S e w (snd (Store_History e jid w))"
| update_status: "store_step S e w (snd (Store_UpdateStatus e jid to_st why by_whom w))"
| update_pid: "store_step S e w (snd (Store_UpdatePID e jid pid pgid by_whom w))"
| update_checkpoint_dir: "store_step S e w (snd (Store_UpdateCheckpointDir e jid dir w))"

lemma store_step_wf: "store_step S e w w' \<Longrightarrow> store_wf S (db w) \<Longrightarrow> store_wf S (db w')"
  by (induction rule: store_step.induct) (simp_all add: wf_intros)

text \<open>A step adds a job, moves one job along the table, or leaves all statuses alone.\<close>

definition status_moved :: "(int \<rightharpoonup> Status) \<Rightarrow> (int \<rightharpoonup> Status) \<Rightarrow> bool" where
  "status_moved f g \<longleftrightarrow> g = f \<or> (\<exists>n b. f n = None \<and> g = f(n \<mapsto> b)) \<or>
     (\<exists>n a b. f n = Some a \<and> ValidTransition a b \<and> g = f(n \<mapsto> b))"

lemma status_moved_refl [simp]: "status_moved f f"
  by (simp add: status_moved_def)

lemma status_moved_new: "f n = None \<Longrightarrow> status_moved f (f(n \<mapsto> b))"
  unfolding status_moved_def by blast

lemma status_moved_step: "f n = Some a \<Longrightarrow> ValidTransition a b \<Longrightarrow> status_moved f (f(n \<mapsto> b))"
  unfolding status_moved_def by blast

lemma status_moved_at:
  assumes "status_moved f g" and "f n = Some a"
  shows "\<exists>b. g n = Some b \<and> (b = a \<or> ValidTransition a b)"
  using assms by (auto simp: status_moved_def)

lemma store_step_status:
  assumes "store_step S e w w'" and "store_wf S (db w)"
  shows "status_moved (status_at (db w)) (status_at (db w'))"
  using assms
proof (induction rule: store_step.induct)
  case (insert j w)
  have "status_at (db w) (jobs_seq (db w) + 1) = None"
    using fresh_id [OF insert.prems] by (simp add: status_at_def select_row_None_iff)
  moreover have "db (snd (Store_Insert e j w)) \<in> {db w, insert_job_row e j (db w)}"
    using Store_Insert_cases [of e j w "fst (Store_Insert e j w)" "snd (Store_Insert e j w)"] by auto
  moreover note status_at_insert [OF insert.hyps(2) fresh_id [OF insert.prems]]
  ultimately show ?case by (metis empty_iff insert_iff status_moved_new status_moved_refl)
next
  case (update_status w jid to_st why by_whom)
  show ?case
  proof (cases "Store_UpdateStatus e jid to_st why by_whom w")
    case (Pair res w')
    then show ?thesis
      by (cases res) (auto dest: Store_UpdateStatus_Some elim!: Store_UpdateStatus_status
          intro: status_moved_step simp del: fun_upd_apply)
  qed
next
  case (update_pid w jid pid pgid by_whom)
  show ?case
  proof (cases "Store_UpdatePID e jid pid pgid by_whom w")
    case (Pair res w')
    then show ?thesis
      by (cases res) (auto dest: Store_UpdatePID_Some elim!: Store_UpdatePID_status
          intro!: status_moved_step [where a = StatusRestorePending] simp del: fun_upd_apply)
  qed
next
  case (update_checkpoint_dir w jid dir)
  show ?case
    using Store_UpdateCheckpointDir_cases [of e jid dir w "fst (Store_UpdateCheckpointDir e jid dir w)"
        "snd (Store_UpdateCheckpointDir e jid dir w)"]
    by (auto simp: status_at_update_jobs)
qed simp_all

section \<open>The lifecycle contract\<close>

text \<open>
  What a component that moves jobs through their lifecycle promises: it keeps its
  invariant, never forgets a job, and moves a status only along the transition table
  (several transitions in one step are allowed). Everything below follows for whole
  runs; the store's methods and, in a later theory, the daemon's request handlers are
  instances.
\<close>

locale lifecycle =
  fixes step :: "'s \<Rightarrow> 's \<Rightarrow> bool"
    and status :: "'s \<Rightarrow> int \<Rightarrow> Status option"
    and invar :: "'s \<Rightarrow> bool"
  assumes invar_step: "step s t \<Longrightarrow> invar s \<Longrightarrow> invar t"
    and status_moves: "step s t \<Longrightarrow> invar s \<Longrightarrow> status s n = Some a \<Longrightarrow>
      \<exists>b. status t n = Some b \<and> status_step\<^sup>*\<^sup>* a b"
begin

lemma run_invar: "step\<^sup>*\<^sup>* s t \<Longrightarrow> invar s \<Longrightarrow> invar t"
  by (induction rule: rtranclp_induct) (auto intro: invar_step)

lemma run_status:
  assumes "step\<^sup>*\<^sup>* s t" and "invar s" and "status s n = Some a"
  shows "\<exists>b. status t n = Some b \<and> status_step\<^sup>*\<^sup>* a b"
  using assms
proof (induction rule: rtranclp_induct)
  case (step y z)
  then obtain b where "status y n = Some b" "status_step\<^sup>*\<^sup>* a b" by blast
  with step run_invar [OF step.hyps(1)] status_moves [OF step.hyps(2)] show ?case
    by (meson rtranclp_trans)
qed auto

lemma terminal_stays:
  assumes "step\<^sup>*\<^sup>* s t" and "invar s" and "status s n = Some a" and "IsTerminal a"
  shows "status t n = Some a"
proof -
  obtain b where b: "status t n = Some b" "status_step\<^sup>*\<^sup>* a b" using run_status assms by blast
  from b(2) assms(4) have "b = a"
    by (cases rule: converse_rtranclpE)
      (auto dest: ValidTransition_not_terminal simp flip: ValidTransition_iff_step)
  with b show ?thesis by simp
qed

end

interpretation store_life: lifecycle "store_step S e" "\<lambda>w. status_at (db w)" "\<lambda>w. store_wf S (db w)"
  for S e
proof
  show "store_wf S (db t)" if "store_step S e s t" "store_wf S (db s)" for s t
    using that by (rule store_step_wf)
  show "\<exists>b. status_at (db t) n = Some b \<and> status_step\<^sup>*\<^sup>* a b"
    if "store_step S e s t" "store_wf S (db s)" "status_at (db s) n = Some a" for s t n a
    using status_moved_at [OF store_step_status [OF that(1,2)] that(3)]
    by (auto simp: ValidTransition_iff_step)
qed

end
