(* ===== verification/StoreProps.thy ===== *)
theory StoreProps
  imports StoreInv "HOL-Library.Multiset"
begin

text \<open>
  The properties that make the store correct: its transition guard is exact, its writes
  are atomic under every pattern of database failures, what is inserted reads back, the
  two listings split the table, the history is a run through the transition table that
  ends in the current status, and terminal statuses are final.
\<close>

section \<open>Example data\<close>

definition sample_job :: Job where
  "sample_job = \<lparr>ID = [], PID = 1234, PGID = 1234, CheckpointDir = ''/ckpt/1'',
     Command = Some [''sleep'', ''300''], WorkDir = ''/tmp'', HookCheckpoint = [], HookResume = [],
     Status = StatusRunning, FailureReason = [], Owner = ''alice'', Tag = [],
     RegisteredAt = 1000, UpdatedAt = 1000\<rparr>"

definition world_one_job :: world where
  "world_one_job = snd (Store_Insert quiet_env sample_job empty_world)"

abbreviation start_statuses :: "Status list" where
  "start_statuses \<equiv> [StatusRunning, StatusCheckpointCreated]"

lemma empty_world_wf [simp]: "store_wf S (db empty_world)"
  by (simp add: empty_world_def)

lemma world_one_job_wf [simp]: "store_wf start_statuses (db world_one_job)"
  unfolding world_one_job_def by (rule Store_Insert_wf) (simp_all add: sample_job_def)

lemma world_one_job_db: "db world_one_job = insert_job_row quiet_env sample_job empty_db"
  unfolding world_one_job_def
  using Store_Insert_succeeds(2) [of quiet_env empty_world sample_job]
  by (simp add: empty_world_def) (simp add: empty_db_def int64_bounds_values)

lemma world_one_job_status: "status_at (db world_one_job) 1 = Some StatusRunning"
proof -
  have "status_at (insert_job_row quiet_env sample_job empty_db) = (status_at empty_db)(jobs_seq empty_db + 1 \<mapsto> Status sample_job)"
    by (rule status_at_insert) (simp_all add: sample_job_def empty_db_def)
  then show ?thesis by (simp add: world_one_job_db) (simp add: empty_db_def sample_job_def)
qed

section \<open>Reading under a working database\<close>

lemma Store_Get_spec:
  assumes "sql_ok e" and "schema_ready (db w)"
  shows "fst (Store_Get e jid w) = (case parseID jid of
     Inl err \<Rightarrow> Inl err
   | Inr n \<Rightarrow> (case select_row row_id n (jobs_rows (db w)) of
        None \<Rightarrow> Inl (ScanJobRowError no_rows) | Some r \<Rightarrow> scanJob e r))"
  using assms unfolding Store_Get_def
  by (auto simp: sql_def sql_error_ready split: sum.splits option.splits)

lemma Store_Get_status:
  assumes "sql_ok e" and "store_wf S (db w)" and "parseID jid = Inr n"
  shows "(case fst (Store_Get e jid w) of Inl _ \<Rightarrow> None | Inr j \<Rightarrow> Some (Status j)) = status_at (db w) n"
proof (cases "select_row row_id n (jobs_rows (db w))")
  case (Some r)
  obtain j where "scanJob e r = Inr j"
    using scanJob_ok store_wfD(3) [OF assms(2)] select_row_SomeD(1) [OF Some] by blast
  with Some assms store_wfD(1) [OF assms(2)] show ?thesis
    by (simp add: Store_Get_spec status_at_def scanJob_InrD)
qed (use assms store_wfD(1) [OF assms(2)] in \<open>simp add: Store_Get_spec status_at_def\<close>)

section \<open>Transitions\<close>

lemma Store_UpdateStatus_spec:
  assumes "sql_ok e" and "store_wf S (db w)"
  shows "fst (Store_UpdateStatus e jid to_st why by_whom w) = (case parseID jid of
     Inl err \<Rightarrow> Some err
   | Inr n \<Rightarrow> (case status_at (db w) n of
        None \<Rightarrow> Some (ScanJobRowError no_rows)
      | Some a \<Rightarrow> if ValidTransition a to_st then None else Some (InvalidTransition jid a to_st)))"
proof (cases "parseID jid")
  case (Inr n)
  show ?thesis
  proof (cases "select_row row_id n (jobs_rows (db w))")
    case None
    then obtain w1 where "Store_Get e jid w = (Inl (ScanJobRowError no_rows), w1)"
      using Store_Get_spec [OF assms(1) store_wfD(1) [OF assms(2)], of jid] Inr by (cases "Store_Get e jid w") simp
    with Inr None show ?thesis by (simp add: Store_UpdateStatus_def status_at_def)
  next
    case (Some r)
    obtain j where j: "scanJob e r = Inr j"
      using scanJob_ok store_wfD(3) [OF assms(2)] select_row_SomeD(1) [OF Some] by blast
    obtain w1 where get: "Store_Get e jid w = (Inr j, w1)"
      using Store_Get_spec [OF assms(1) store_wfD(1) [OF assms(2)], of jid] Inr Some j by (cases "Store_Get e jid w") simp
    have "fst (update_tx e jid n st f a b by_whom w1) = None" for st f a b
      using update_tx_succeeds [OF assms(1), of w1] store_wfD(1) [OF assms(2)] Some
        Store_Get_eq_db [OF get] by simp
    with Inr Some get scanJob_InrD(2) [OF j] show ?thesis
      by (simp add: Store_UpdateStatus_def status_at_def)
  qed
qed (simp add: Store_UpdateStatus_def)

text \<open>The writes on a working database: what they commit.\<close>

lemma Store_UpdateStatus_commits:
  assumes "sql_ok e" and "store_wf S (db w)" and "parseID jid = Inr n"
    and "status_at (db w) n = Some a" and "ValidTransition a b"
  obtains now w' where "Store_UpdateStatus e jid b why by_whom w = (None, w')"
    and "db w' = committed n (set_status b why now) a b by_whom now (db w)"
proof -
  have "fst (Store_UpdateStatus e jid b why by_whom w) = None"
    using assms by (simp add: Store_UpdateStatus_spec)
  then obtain w' where w': "Store_UpdateStatus e jid b why by_whom w = (None, w')"
    by (cases "Store_UpdateStatus e jid b why by_whom w") simp
  then show thesis
    by (rule Store_UpdateStatus_None) (use that w' assms in \<open>auto simp: status_at_def\<close>)
qed

lemma Store_UpdatePID_commits:
  assumes "sql_ok e" and "store_wf S (db w)" and "parseID jid = Inr n"
    and "status_at (db w) n = Some StatusRestorePending"
  obtains now w' where "Store_UpdatePID e jid pid pgid by_whom w = (None, w')"
    and "db w' = committed n (set_pid pid pgid now) StatusRestorePending StatusRunning by_whom now (db w)"
proof -
  obtain r where r: "select_row row_id n (jobs_rows (db w)) = Some r"
      "status_of_text (row_status r) = StatusRestorePending"
    using assms(4) by (auto simp: status_at_def)
  obtain j where j: "scanJob e r = Inr j"
    using scanJob_ok store_wfD(3) [OF assms(2)] select_row_SomeD(1) [OF r(1)] by blast
  obtain w1 where get: "Store_Get e jid w = (Inr j, w1)"
    using Store_Get_spec [OF assms(1) store_wfD(1) [OF assms(2)], of jid] assms(3) r j
    by (cases "Store_Get e jid w") simp
  have "fst (update_tx e jid n st f a b by_whom w1) = None" for st f a b
    using update_tx_succeeds [OF assms(1), of w1] store_wfD(1) [OF assms(2)] r
      Store_Get_eq_db [OF get] by simp
  then have "fst (Store_UpdatePID e jid pid pgid by_whom w) = None"
    using assms(3) get r scanJob_InrD(2) [OF j] by (simp add: Store_UpdatePID_def)
  then obtain w' where w': "Store_UpdatePID e jid pid pgid by_whom w = (None, w')"
    by (cases "Store_UpdatePID e jid pid pgid by_whom w") simp
  then show thesis
    by (rule Store_UpdatePID_None) (use that w' assms r in auto)
qed

lemma Store_UpdateCheckpointDir_commits:
  assumes "sql_ok e" and "schema_ready (db w)" and "parseID jid = Inr n"
    and "select_row row_id n (jobs_rows (db w)) = Some r"
  obtains now w' where "Store_UpdateCheckpointDir e jid dir w = (None, w')"
    and "db w' = update_jobs n (\<lambda>r. r\<lparr>row_checkpoint_dir := dir, row_updated_at := now\<rparr>) (db w)"
  using that assms select_row_matching_pos [OF assms(4)] unfolding Store_UpdateCheckpointDir_def
  by (simp add: now_utc_def sql_def sql_error_ready)

text \<open>
  Claim C28. With a database that reports no errors, \<open>UpdateStatus\<close> accepts a transition exactly
  when the id parses, the job exists and the transition table allows the move from its
  stored status; otherwise it returns the error of the first check that fails.
\<close>

theorem update_status_exact:
  assumes "sql_ok e" and "store_wf S (db w)"
  shows "fst (Store_UpdateStatus e jid to_st why by_whom w) = (case parseID jid of
     Inl err \<Rightarrow> Some err
   | Inr n \<Rightarrow> (case status_at (db w) n of
        None \<Rightarrow> Some (ScanJobRowError no_rows)
      | Some a \<Rightarrow> if ValidTransition a to_st then None else Some (InvalidTransition jid a to_st)))"
  using assms by (rule Store_UpdateStatus_spec)

theorem update_status_exact_witness:
  "fst (Store_UpdateStatus quiet_env ''1'' StatusRestorePending [] ''bob'' world_one_job) =
     Some (InvalidTransition ''1'' StatusRunning StatusRestorePending)"
proof -
  have "parseID ''1'' = Inr 1" by (simp add: parseID_def ParseInt_eval)
  with update_status_exact [OF sql_ok_quiet world_one_job_wf, of "''1''" StatusRestorePending "[]" "''bob''"]
  show ?thesis by (simp add: world_one_job_status)
qed

text \<open>
  Claim C3. Whatever the database does (any statement may fail at any time), \<open>UpdateStatus\<close> is
  all or nothing: if it returns an error the whole database is unchanged, and if it
  returns none, the job's status, failure reason and update time are set, every other
  job is unchanged, and the history has grown by exactly the row of this transition,
  which the table allows.
\<close>

theorem update_status_atomic:
  "case Store_UpdateStatus e jid to_st why by_whom w of
     (Some err, w') \<Rightarrow> db w' = db w
   | (None, w') \<Rightarrow> \<exists>n r now. parseID jid = Inr n \<and>
       select_row row_id n (jobs_rows (db w)) = Some r \<and>
       ValidTransition (status_of_text (row_status r)) to_st \<and>
       jobs_rows (db w') = update_rows row_id n (set_status to_st why now) (jobs_rows (db w)) \<and>
       history_rows (db w') = history_rows (db w) @
         [\<lparr>hrow_id = history_seq (db w) + 1, hrow_job_id = n, hrow_from_status = row_status r,
           hrow_to_status = status_text to_st, hrow_changed_by = by_whom, hrow_changed_at = now\<rparr>]"
proof (cases "Store_UpdateStatus e jid to_st why by_whom w")
  case (Pair res w')
  show ?thesis
  proof (cases res)
    case None
    with Pair have "Store_UpdateStatus e jid to_st why by_whom w = (None, w')" by simp
    then obtain n r now where "parseID jid = Inr n" "select_row row_id n (jobs_rows (db w)) = Some r"
      "ValidTransition (status_of_text (row_status r)) to_st"
      "db w' = committed n (set_status to_st why now) (status_of_text (row_status r)) to_st by_whom now (db w)"
      by (rule Store_UpdateStatus_None)
    then show ?thesis using Pair None
      by (auto simp: committed_def insert_history_row_def update_jobs_def)
  next
    case (Some err)
    with Pair Store_UpdateStatus_Some show ?thesis by simp
  qed
qed

text \<open>
  The same for \<open>UpdatePID\<close>, the write that ends a resume: it either changes nothing
  or moves a job that was in RESTORE_PENDING to RUNNING under its new process ids,
  together with the history row.
\<close>

theorem update_pid_atomic:
  "case Store_UpdatePID e jid pid pgid by_whom w of
     (Some err, w') \<Rightarrow> db w' = db w
   | (None, w') \<Rightarrow> \<exists>n r now. parseID jid = Inr n \<and>
       select_row row_id n (jobs_rows (db w)) = Some r \<and>
       status_of_text (row_status r) = StatusRestorePending \<and>
       jobs_rows (db w') = update_rows row_id n (set_pid pid pgid now) (jobs_rows (db w)) \<and>
       history_rows (db w') = history_rows (db w) @
         [\<lparr>hrow_id = history_seq (db w) + 1, hrow_job_id = n, hrow_from_status = row_status r,
           hrow_to_status = status_text StatusRunning, hrow_changed_by = by_whom,
           hrow_changed_at = now\<rparr>]"
proof (cases "Store_UpdatePID e jid pid pgid by_whom w")
  case (Pair res w')
  show ?thesis
  proof (cases res)
    case None
    with Pair have "Store_UpdatePID e jid pid pgid by_whom w = (None, w')" by simp
    then obtain n r now where "parseID jid = Inr n" "select_row row_id n (jobs_rows (db w)) = Some r"
      "ValidTransition (status_of_text (row_status r)) StatusRunning"
      "db w' = committed n (set_pid pid pgid now) (status_of_text (row_status r)) StatusRunning by_whom now (db w)"
      by (rule Store_UpdatePID_None)
    moreover from this(3) have "status_of_text (row_status r) = StatusRestorePending"
      by (simp only: ValidTransition_to_running_iff)
    moreover from this have "status_text StatusRestorePending = row_status r"
      by (metis status_text_of_text)
    ultimately show ?thesis using Pair None
      by (auto simp: committed_def insert_history_row_def update_jobs_def simp del: status_text.simps)
  next
    case (Some err)
    with Pair Store_UpdatePID_Some show ?thesis by simp
  qed
qed

text \<open>
  A job in a terminal status stays in it through every sequence of store calls, with
  any arguments and any database failures.
\<close>

theorem terminal_forever:
  assumes "(store_step S e)\<^sup>*\<^sup>* w w'" and "store_wf S (db w)"
    and "status_at (db w) n = Some a" and "IsTerminal a"
  shows "status_at (db w') n = Some a"
  using assms by (rule store_life.terminal_stays)

definition world_canceled :: world where
  "world_canceled = snd (Store_UpdateStatus quiet_env ''1'' StatusCanceled [] ''bob'' world_one_job)"

lemma world_canceled_status: "status_at (db world_canceled) 1 = Some StatusCanceled"
proof -
  have id1: "parseID ''1'' = Inr 1" by (simp add: parseID_def ParseInt_eval)
  have "fst (Store_UpdateStatus quiet_env ''1'' StatusCanceled [] ''bob'' world_one_job) = None"
    using Store_UpdateStatus_spec [OF sql_ok_quiet world_one_job_wf, of "''1''" StatusCanceled "[]" "''bob''"]
    by (simp add: id1 world_one_job_status)
  then have "Store_UpdateStatus quiet_env ''1'' StatusCanceled [] ''bob'' world_one_job = (None, world_canceled)"
    by (simp add: world_canceled_def prod_eq_iff)
  then show ?thesis by (rule Store_UpdateStatus_status) (simp add: id1)
qed

theorem terminal_forever_witness:
  "status_at (db (snd (Store_UpdateStatus quiet_env ''1'' StatusRunning [] ''eve'' world_canceled))) 1
     = Some StatusCanceled"
proof -
  have wf: "store_wf start_statuses (db world_canceled)"
    unfolding world_canceled_def by (rule Store_UpdateStatus_wf) simp
  show ?thesis
    by (rule terminal_forever [OF r_into_rtranclp [of "store_step start_statuses quiet_env", OF update_status] wf
        world_canceled_status]) simp
qed


section \<open>Inserting\<close>

lemma jobs_seq_insert [simp]: "jobs_seq (insert_job_row e j d) = jobs_seq d + 1"
  by (simp add: insert_job_row_def)

lemma select_row_insert:
  assumes "jobs_seq d + 1 \<notin> row_id ` set (jobs_rows d)"
  shows "select_row row_id n (jobs_rows (insert_job_row e j d)) =
    (if n = jobs_seq d + 1 then Some (last (jobs_rows (insert_job_row e j d)))
     else select_row row_id n (jobs_rows d))"
  using assms select_row_None_iff [of row_id "jobs_seq d + 1" "jobs_rows d"]
  by (auto simp: insert_job_row_def select_row_append split: option.splits)

text \<open>
  What the database gives back of a job stored under the id \<open>jid\<close>: JSON makes the command
  well-formed UTF-8, and the column type decides how much of a time is kept.
\<close>

definition stored_job :: "env \<Rightarrow> string \<Rightarrow> Job \<Rightarrow> Job" where
  "stored_job e jid j = j\<lparr>ID := jid, Command := map_option (map sanitize) (Command j),
     RegisteredAt := column_time e (RegisteredAt j), UpdatedAt := column_time e (UpdatedAt j)\<rparr>"

lemma scanJob_inserted:
  assumes "is_named (Status j)"
  shows "scanJob e (last (jobs_rows (insert_job_row e j d))) = Inr (stored_job e (FormatInt (jobs_seq d + 1)) j)"
  unfolding stored_job_def using assms by (simp add: scanJob_def insert_job_row_def json_strings_round_trip)

text \<open>
  Claim C29. What \<open>Insert\<close> stores, \<open>Get\<close> returns, on a working database: under the id that \<open>Insert\<close>
  answers, every field but the command and the two times reads back as it was given; the
  command comes back as JSON carries it (each ill-formed byte replaced), and a time as the
  column keeps it (whole on SQLite, to the second in a MySQL \<open>DATETIME\<close>). No other job is affected.
\<close>

theorem insert_get_round_trip:
  assumes "sql_ok e" and "store_wf S (db w)" and "jobs_seq (db w) < int64_max" and "is_named (Status j)"
  shows "\<exists>jid w1. Store_Insert e j w = (Inr jid, w1) \<and>
    fst (Store_Get e jid w1) =
      Inr (j\<lparr>ID := jid, Command := map_option (map sanitize) (Command j),
        RegisteredAt := column_time e (RegisteredAt j), UpdatedAt := column_time e (UpdatedAt j)\<rparr>) \<and>
    (\<forall>other. parseID other \<noteq> parseID jid \<longrightarrow>
       fst (Store_Get e other w1) = fst (Store_Get e other w))"
proof -
  let ?n = "jobs_seq (db w) + 1" and ?w1 = "snd (Store_Insert e j w)"
  note ready = store_wfD(1) [OF assms(2)]
  note ins = Store_Insert_succeeds [OF assms(1) ready assms(3), of j]
  have "in_int64 ?n" using store_wfD(4) [OF assms(2)] assms(3) by (simp add: in_int64_def int64_bounds_values)
  then have id1: "parseID (FormatInt ?n) = Inr ?n" by (rule parseID_FormatInt)
  have ready1: "schema_ready (db ?w1)"
    using ready by (simp add: ins(2)) (simp add: insert_job_row_def schema_ready_def)
  note sel = select_row_insert [OF fresh_id [OF assms(2)], of _ e j]
  have "fst (Store_Get e (FormatInt ?n) ?w1) = Inr (stored_job e (FormatInt ?n) j)"
    by (simp add: Store_Get_spec [OF assms(1) ready1] id1 ins(2) sel scanJob_inserted [OF assms(4)])
  moreover have "fst (Store_Get e other ?w1) = fst (Store_Get e other w)"
    if "parseID other \<noteq> parseID (FormatInt ?n)" for other
    using that by (auto simp: Store_Get_spec [OF assms(1) ready1] Store_Get_spec [OF assms(1) ready]
        id1 ins(2) sel split: sum.splits)
  moreover have "Store_Insert e j w = (Inr (FormatInt ?n), ?w1)"
    using ins(1) by (simp add: prod_eq_iff)
  ultimately show ?thesis unfolding stored_job_def by blast
qed

theorem insert_get_round_trip_witness:
  "\<exists>jid w1. Store_Insert quiet_env sample_job world_one_job = (Inr jid, w1) \<and>
    fst (Store_Get quiet_env jid w1) = Inr (sample_job\<lparr>ID := jid,
      Command := map_option (map sanitize) (Command sample_job),
      RegisteredAt := column_time quiet_env 1000, UpdatedAt := column_time quiet_env 1000\<rparr>)"
proof -
  have "jobs_seq (db world_one_job) < int64_max"
    by (simp add: world_one_job_db int64_bounds_values) (simp add: empty_db_def)
  moreover have "is_named (Status sample_job)" by (simp add: sample_job_def)
  moreover have "RegisteredAt sample_job = 1000" "UpdatedAt sample_job = 1000" by (simp_all add: sample_job_def)
  ultimately show ?thesis
    using insert_get_round_trip [OF sql_ok_quiet world_one_job_wf, of sample_job] by auto
qed

lemma store_step_seq_mono: "store_step S e w w' \<Longrightarrow> jobs_seq (db w) \<le> jobs_seq (db w')"
proof (induction rule: store_step.induct)
  case (insert j w)
  then show ?case
    using Store_Insert_cases [of e j w "fst (Store_Insert e j w)" "snd (Store_Insert e j w)"] by auto
next
  case (update_status w jid to_st why by_whom)
  show ?case
    by (cases "fst (Store_UpdateStatus e jid to_st why by_whom w)"; cases "Store_UpdateStatus e jid to_st why by_whom w")
      (auto dest: Store_UpdateStatus_Some elim!: Store_UpdateStatus_None)
next
  case (update_pid w jid pid pgid by_whom)
  show ?case
    by (cases "fst (Store_UpdatePID e jid pid pgid by_whom w)"; cases "Store_UpdatePID e jid pid pgid by_whom w")
      (auto dest: Store_UpdatePID_Some elim!: Store_UpdatePID_None)
next
  case (update_checkpoint_dir w jid dir)
  show ?case
    using Store_UpdateCheckpointDir_cases [of e jid dir w "fst (Store_UpdateCheckpointDir e jid dir w)"
        "snd (Store_UpdateCheckpointDir e jid dir w)"]
    by (auto simp: update_jobs_def)
qed simp_all

lemma store_run_seq_mono: "(store_step S e)\<^sup>*\<^sup>* w w' \<Longrightarrow> jobs_seq (db w) \<le> jobs_seq (db w')"
  by (induction rule: rtranclp_induct) (auto dest: store_step_seq_mono)

text \<open>
  Ids are never reused: whatever store calls happen between two registrations, the
  second one gets a different id.
\<close>

theorem ids_never_reused:
  assumes "store_wf S (db w)" and "Store_Insert e j w = (Inr a, w1)"
    and "(store_step S e)\<^sup>*\<^sup>* w1 w2" and "Store_Insert e k w2 = (Inr b, w3)"
  shows "a \<noteq> b"
proof -
  from Store_Insert_cases [OF assms(2)]
  have a: "a = FormatInt (jobs_seq (db w) + 1)" "jobs_seq (db w1) = jobs_seq (db w) + 1"
      "jobs_seq (db w) < int64_max" by auto
  from Store_Insert_cases [OF assms(4)]
  have b: "b = FormatInt (jobs_seq (db w2) + 1)" "jobs_seq (db w2) < int64_max" by auto
  have "jobs_seq (db w) + 1 < jobs_seq (db w2) + 1" using store_run_seq_mono [OF assms(3)] a by simp
  moreover have "in_int64 (jobs_seq (db w) + 1)" "in_int64 (jobs_seq (db w2) + 1)"
    using a(3) b(2) calculation store_wfD(4) [OF assms(1)] by (simp_all add: in_int64_def int64_bounds_values)
  ultimately show ?thesis unfolding a(1) b(1) by (metis FormatInt_inject less_irrefl)
qed

theorem ids_never_reused_witness:
  "\<exists>a b w3. Store_Insert quiet_env sample_job empty_world = (Inr a, world_one_job) \<and>
     Store_Insert quiet_env sample_job world_one_job = (Inr b, w3) \<and> a \<noteq> b"
proof -
  have room: "jobs_seq (db empty_world) < int64_max" "jobs_seq (db world_one_job) < int64_max"
    by (simp_all add: world_one_job_db int64_bounds_values) (simp_all add: empty_world_def empty_db_def)
  obtain a where a: "Store_Insert quiet_env sample_job empty_world = (Inr a, world_one_job)"
    using Store_Insert_succeeds(1) [OF sql_ok_quiet store_wfD(1) [OF empty_world_wf] room(1), of sample_job]
    unfolding world_one_job_def by (cases "Store_Insert quiet_env sample_job empty_world") simp
  obtain b w3 where b: "Store_Insert quiet_env sample_job world_one_job = (Inr b, w3)"
    using Store_Insert_succeeds(1) [OF sql_ok_quiet store_wfD(1) [OF world_one_job_wf] room(2), of sample_job]
    by (cases "Store_Insert quiet_env sample_job world_one_job") simp
  from ids_never_reused [OF empty_world_wf a rtranclp.rtrancl_refl b] a b show ?thesis by blast
qed


section \<open>Listing\<close>

lemma scanned_map:
  assumes "list_all2 (\<lambda>r j. scanJob e r = Inr j) rs js"
    and "\<And>r j. scanJob e r = Inr j \<Longrightarrow> f j = g r"
  shows "map f js = map g rs"
  using assms(1) by (induction rule: list_all2_induct) (auto simp: assms(2))

lemma collect_jobs_ok:
  assumes "sql_ok e" and "store_wf S (db w)" and "set rs \<subseteq> set (jobs_rows (db w))"
  shows "\<exists>js. fst (collect_jobs e rs w) = Inr js \<and> list_all2 (\<lambda>r j. scanJob e r = Inr j) rs js"
  using assms(2,3)
proof (induction rs arbitrary: w)
  case (Cons r rs)
  let ?w = "record_call (SqlCall SqlScanRow) w"
  have "row_ok S (db w) r" using Cons.prems by (auto intro: store_wfD(3))
  then obtain j where j: "scanJob e r = Inr j" using scanJob_ok by fastforce
  obtain js where js: "fst (collect_jobs e rs ?w) = Inr js" "list_all2 (\<lambda>r j. scanJob e r = Inr j) rs js"
    using Cons.IH [of ?w] Cons.prems by auto
  obtain w' where "collect_jobs e rs ?w = (Inr js, w')" using js(1) by (cases "collect_jobs e rs ?w") simp
  with j js(2) assms(1) store_wfD(1) [OF Cons.prems(1)] show ?case
    by (simp add: sql_def sql_error_ready)
qed (use assms(1) store_wfD(1) in \<open>auto simp: sql_def sql_error_ready\<close>)

lemma collect_history_ok:
  assumes "sql_ok e" and "schema_ready (db w)"
  shows "fst (collect_history e hs w) = Inr (map history_entry hs)"
  using assms(2)
proof (induction hs arbitrary: w)
  case (Cons h hs)
  let ?w = "record_call (SqlCall SqlScanRow) w"
  have "fst (collect_history e hs ?w) = Inr (map history_entry hs)" using Cons by simp
  then obtain w' where "collect_history e hs ?w = (Inr (map history_entry hs), w')"
    by (cases "collect_history e hs ?w") simp
  with assms(1) Cons.prems show ?case by (simp add: sql_def sql_error_ready)
qed (use assms(1) in \<open>simp add: sql_def sql_error_ready\<close>)

lemma IsTerminal_named: "IsTerminal s \<Longrightarrow> is_named s"
  by (cases s) simp_all

lemma terminal_texts_iff: "t \<in> set terminal_texts \<longleftrightarrow> IsTerminal (status_of_text t)"
proof
  assume "t \<in> set terminal_texts"
  then obtain s where "IsTerminal s" "t = status_text s"
    unfolding terminal_texts_def using IsTerminal_simps(7-9) by (auto simp only: list.set insert_iff empty_iff)
  then show "IsTerminal (status_of_text t)" by (simp add: IsTerminal_named)
next
  assume "IsTerminal (status_of_text t)"
  then have "status_text (status_of_text t) \<in> set terminal_texts"
    by (cases "status_of_text t") (simp_all add: terminal_texts_def)
  then show "t \<in> set terminal_texts" by simp
qed

text \<open>What the two listings return for the rows \<open>rs\<close> they select.\<close>

lemma listed_jobs:
  assumes e: "sql_ok e" and wf: "store_wf S (db w)" and sub: "set rs \<subseteq> set (jobs_rows (db w))"
    and scan: "list_all2 (\<lambda>r j. scanJob e r = Inr j) rs js" and j: "j \<in> set js"
  shows "fst (Store_Get e (ID j) w) = Inr j"
    and "\<exists>r \<in> set rs. Status j = status_of_text (row_status r)"
proof -
  from scan j obtain r where r: "r \<in> set rs" "scanJob e r = Inr j"
    by (fastforce simp: list_all2_conv_all_nth in_set_conv_nth)
  with sub have row: "r \<in> set (jobs_rows (db w))" by blast
  have "parseID (ID j) = Inr (row_id r)"
    using scanJob_InrD(1) [OF r(2)] parseID_FormatInt [OF row_ok_in_int64 [OF wf row]] by simp
  moreover have "select_row row_id (row_id r) (jobs_rows (db w)) = Some r"
    using row store_wfD(2) [OF wf] by (simp add: select_row_Some_iff)
  ultimately show "fst (Store_Get e (ID j) w) = Inr j"
    using r(2) by (simp add: Store_Get_spec [OF e store_wfD(1) [OF wf]])
  show "\<exists>r \<in> set rs. Status j = status_of_text (row_status r)"
    using r scanJob_InrD(2) by blast
qed

text \<open>
  \<open>List\<close> and \<open>ListTerminal\<close> split the table: with a working database both succeed, the
  first returns only jobs that are not in a terminal status and the second only jobs
  that are, every job is in exactly one of them exactly once, both are ordered by
  registration time, and each listed job is the one \<open>Get\<close> returns for its id.
\<close>

theorem list_partition:
  assumes "sql_ok e" and "store_wf S (db w)"
  shows "\<exists>act trm. fst (Store_List e w) = Inr act \<and> fst (Store_ListTerminal e w) = Inr trm \<and>
    (\<forall>j \<in> set act. \<not> IsTerminal (Status j)) \<and> (\<forall>j \<in> set trm. IsTerminal (Status j)) \<and>
    mset (map ID (act @ trm)) = mset (map (\<lambda>r. FormatInt (row_id r)) (jobs_rows (db w))) \<and>
    sorted (map RegisteredAt act) \<and> sorted (map RegisteredAt trm) \<and>
    (\<forall>j \<in> set (act @ trm). fst (Store_Get e (ID j) w) = Inr j)"
proof -
  note ready = store_wfD(1) [OF assms(2)]
  let ?A = "active_rows (db w)" and ?T = "terminal_rows (db w)"
  have subA: "set ?A \<subseteq> set (jobs_rows (db w))" and subT: "set ?T \<subseteq> set (jobs_rows (db w))"
    by (auto simp: active_rows_def terminal_rows_def)
  have wf1: "store_wf S (db (record_call c w))" for c using assms(2) by simp
  obtain act where act: "fst (Store_List e w) = Inr act" "list_all2 (\<lambda>r j. scanJob e r = Inr j) ?A act"
    using collect_jobs_ok [OF assms(1) wf1, of ?A] subA assms(1) ready
    by (auto simp: Store_List_def sql_def sql_error_ready)
  obtain trm where trm: "fst (Store_ListTerminal e w) = Inr trm" "list_all2 (\<lambda>r j. scanJob e r = Inr j) ?T trm"
    using collect_jobs_ok [OF assms(1) wf1, of ?T] subT assms(1) ready
    by (auto simp: Store_ListTerminal_def sql_def sql_error_ready)
  note listA = listed_jobs [OF assms subA act(2)] and listT = listed_jobs [OF assms subT trm(2)]
  have "mset (map ID (act @ trm)) = mset (map (\<lambda>r. FormatInt (row_id r)) (?A @ ?T))"
    using scanned_map [OF act(2) scanJob_InrD(1)] scanned_map [OF trm(2) scanJob_InrD(1)] by simp
  also have "\<dots> = mset (map (\<lambda>r. FormatInt (row_id r)) (jobs_rows (db w)))"
    by (simp add: active_rows_def terminal_rows_def flip: image_mset_union)
  finally have ids: "mset (map ID (act @ trm)) = mset (map (\<lambda>r. FormatInt (row_id r)) (jobs_rows (db w)))" .
  have "sorted (map RegisteredAt act)" "sorted (map RegisteredAt trm)"
    using scanned_map [OF act(2) scanJob_InrD(6)] scanned_map [OF trm(2) scanJob_InrD(6)]
    by (simp_all add: active_rows_def terminal_rows_def)
  moreover have "\<not> IsTerminal (Status j)" if "j \<in> set act" for j
    using listA(2) [OF that] by (auto simp: active_rows_def terminal_texts_iff)
  moreover have "IsTerminal (Status j)" if "j \<in> set trm" for j
    using listT(2) [OF that] by (auto simp: terminal_rows_def terminal_texts_iff)
  ultimately show ?thesis using act(1) trm(1) ids listA(1) listT(1) by auto
qed

theorem list_partition_witness:
  "\<exists>act. fst (Store_List quiet_env world_one_job) = Inr act \<and> (\<forall>j \<in> set act. \<not> IsTerminal (Status j))"
  using list_partition [OF sql_ok_quiet world_one_job_wf] by blast

section \<open>History\<close>

lemma history_reads:
  assumes "sql_ok e" and "store_wf S (db w)" and "parseID jid = Inr n"
  shows "fst (Store_History e jid w) =
    Inr (map history_entry (filter (\<lambda>h. hrow_job_id h = n) (history_rows (db w))))"
proof -
  let ?h = "filter (\<lambda>h. hrow_job_id h = n) (history_rows (db w))"
  have "sorted_wrt (<) (map hrow_id ?h)"
    using store_wfD(6) [OF assms(2)] by (simp add: sorted_wrt_map sorted_wrt_filter)
  then have "sort_key hrow_id ?h = ?h"
    by (intro sort_key_id_if_sorted) (simp add: strict_sorted_imp_sorted)
  then show ?thesis
    using assms(1,3) store_wfD(1) [OF assms(2)]
    by (simp add: Store_History_def sql_def sql_error_ready collect_history_ok)
qed

lemma history_tells:
  assumes "store_wf S d" and "status_at d n = Some a"
  shows "\<exists>s0 \<in> set S. status_run s0 (job_history d n) a"
proof -
  from assms(2) obtain r where r: "select_row row_id n (jobs_rows d) = Some r"
    "a = status_of_text (row_status r)" by (auto simp: status_at_def)
  have "row_ok S d r" using select_row_SomeD(1) [OF r(1)] by (rule store_wfD(3) [OF assms(1)])
  with r select_row_SomeD(2) [OF r(1)] show ?thesis by (auto simp: row_ok_def)
qed

lemma store_wf_fresh:
  assumes "schema_ready d" and "jobs_rows d = []" and "history_rows d = []" and "jobs_seq d = 0"
  shows "store_wf S d"
  using assms by (simp add: store_wf_def int64_bounds_values)

text \<open>
  Claim C32. The history of a job is the story of its status. Take a database that starts without
  jobs and any sequence of store calls on it, each to its end before the next, with any arguments
  and any database failures: when the database then answers, \<open>History\<close> of a job that exists succeeds, and its entries, in order,
  form an unbroken walk along the transition table that starts in one of the statuses a job can
  be inserted with and ends in the status the job has.
\<close>

theorem history_is_run:
  assumes "schema_ready (db w0)" and "jobs_rows (db w0) = []" and "history_rows (db w0) = []"
    and "jobs_seq (db w0) = 0" and "(store_step S e)\<^sup>*\<^sup>* w0 w"
    and "sql_ok e'" and "parseID jid = Inr n" and "status_at (db w) n = Some a"
  shows "\<exists>hs s0. fst (Store_History e' jid w) = Inr hs \<and> s0 \<in> set S \<and>
    status_run s0 (map (\<lambda>h. (FromStatus h, ToStatus h)) hs) a \<and> (\<forall>h \<in> set hs. JobID h = FormatInt n)"
proof -
  let ?h = "filter (\<lambda>h. hrow_job_id h = n) (history_rows (db w))"
  have wf: "store_wf S (db w)"
    using store_wf_fresh [OF assms(1-4)] by (rule store_life.run_invar [OF assms(5)])
  from history_tells [OF wf assms(8)] obtain s0 where "s0 \<in> set S" "status_run s0 (job_history (db w) n) a" ..
  moreover have "map (\<lambda>h. (FromStatus h, ToStatus h)) (map history_entry ?h) = job_history (db w) n"
    by (simp add: job_history_def history_entry_def)
  moreover have "\<forall>h \<in> set (map history_entry ?h). JobID h = FormatInt n"
    by (simp add: history_entry_def)
  ultimately show ?thesis using history_reads [OF assms(6) wf assms(7)] by metis
qed

theorem history_is_run_witness:
  "\<exists>hs s0. fst (Store_History quiet_env ''1'' world_canceled) = Inr hs \<and> s0 \<in> set start_statuses \<and>
    status_run s0 (map (\<lambda>h. (FromStatus h, ToStatus h)) hs) StatusCanceled"
proof -
  have "store_step start_statuses quiet_env empty_world world_one_job"
    unfolding world_one_job_def by (rule store_step.insert) (simp_all add: sample_job_def)
  moreover have "store_step start_statuses quiet_env world_one_job world_canceled"
    unfolding world_canceled_def by (rule store_step.update_status)
  ultimately have run: "(store_step start_statuses quiet_env)\<^sup>*\<^sup>* empty_world world_canceled" by auto
  have id1: "parseID ''1'' = Inr 1" by (simp add: parseID_def ParseInt_eval)
  have ready: "schema_ready (db empty_world)" by (simp add: empty_world_def)
  have none: "jobs_rows (db empty_world) = []" "history_rows (db empty_world) = []" "jobs_seq (db empty_world) = 0"
    by (simp_all add: empty_world_def empty_db_def)
  from history_is_run [OF ready none run sql_ok_quiet id1 world_canceled_status] show ?thesis by blast
qed

text \<open>
  Claim C33. Every sequence of store calls keeps the database well-formed: unique ids that the
  counter has handed out, commands that decode, a history for each job that leads to its
  current status.
\<close>

theorem store_run_wf:
  assumes "(store_step S e)\<^sup>*\<^sup>* w w'" and "store_wf S (db w)"
  shows "store_wf S (db w')"
  using assms by (rule store_life.run_invar)

theorem store_run_wf_witness:
  "store_wf start_statuses (db (snd (Store_UpdateStatus quiet_env ''1'' StatusFailed ''oom'' ''bob'' world_one_job)))"
  by (rule store_run_wf [OF r_into_rtranclp [of "store_step start_statuses quiet_env", OF update_status] world_one_job_wf])

end
