(* ===== verification/Gostrings.thy ===== *)
theory Gostrings
  imports Utf8 Strconv Json
begin

text \<open>
  The string functions of the Go library that the program calls: \<open>strings.TrimSpace\<close>,
  \<open>ToUpper\<close>, \<open>ToLower\<close>, \<open>Cut\<close> and \<open>HasPrefix\<close>, the verb \<open>%q\<close> of package \<open>fmt\<close>
  (\<open>strconv.Quote\<close>), and \<open>filepath.Clean\<close>, \<open>Join\<close> and \<open>Dir\<close> on Unix. They work on bytes and
  runes as the Go functions do, ill-formed UTF-8 included.
\<close>

definition newline :: string where
  "newline = [CHR 0x0A]"

section \<open>Package strings\<close>

text \<open>\<open>unicode.IsSpace\<close>.\<close>

definition is_space :: "nat \<Rightarrow> bool" where
  "is_space r \<longleftrightarrow> r \<in> {9, 10, 11, 12, 13, 32, 133, 160, 5760, 8232, 8233, 8239, 8287, 12288}
     \<or> (8192 \<le> r \<and> r \<le> 8202)"

function trim_left :: "string \<Rightarrow> string" where
  "trim_left s = (if s \<noteq> [] \<and> is_space (fst (decode_rune s))
     then trim_left (drop (snd (decode_rune s)) s) else s)"
  by pat_completeness auto
termination
  by (relation "measure length") (auto simp: decode_rune_width_pos)

declare trim_left.simps [simp del]

text \<open>
  \<open>utf8.DecodeLastRuneInString\<close> on the reversed bytes: the sequence starts at the nearest
  rune start among the three bytes before the last one, and must reach the end exactly.
\<close>

definition rune_start :: "char \<Rightarrow> bool" where
  "rune_start c \<longleftrightarrow> \<not> byte_between 128 191 c"

definition decode_last_rune :: "string \<Rightarrow> nat \<times> nat" where
  "decode_last_rune rs = (case rs of
     [] \<Rightarrow> (RuneError, 0)
   | c # cs \<Rightarrow>
       if (of_char c :: nat) < 128 then (of_char c, 1)
       else (case find (\<lambda>k. k < length rs \<and> rune_start (rs ! k)) [1, 2, 3] of
          None \<Rightarrow> (RuneError, 1)
        | Some k \<Rightarrow> (case decode_rune (rev (take (Suc k) rs)) of (r, n) \<Rightarrow>
             if n = Suc k then (r, n) else (RuneError, 1))))"

lemma decode_last_rune_pos: "rs \<noteq> [] \<Longrightarrow> 0 < snd (decode_last_rune rs)"
  by (auto simp: decode_last_rune_def split: list.splits option.splits prod.splits)

function trim_right_rev :: "string \<Rightarrow> string" where
  "trim_right_rev rs = (if rs \<noteq> [] \<and> is_space (fst (decode_last_rune rs))
     then trim_right_rev (drop (snd (decode_last_rune rs)) rs) else rs)"
  by pat_completeness auto
termination
  by (relation "measure length") (auto simp: decode_last_rune_pos)

declare trim_right_rev.simps [simp del]

definition TrimSpace :: "string \<Rightarrow> string" where
  "TrimSpace s = rev (trim_right_rev (rev (trim_left s)))"

definition upper_rune :: "unicode_tables \<Rightarrow> nat \<Rightarrow> nat" where
  "upper_rune u r = (if r < 128 then (if 97 \<le> r \<and> r \<le> 122 then r - 32 else r) else rune_upper u r)"

definition lower_rune :: "unicode_tables \<Rightarrow> nat \<Rightarrow> nat" where
  "lower_rune u r = (if r < 128 then (if 65 \<le> r \<and> r \<le> 90 then r + 32 else r) else rune_lower u r)"

definition ToUpper :: "unicode_tables \<Rightarrow> string \<Rightarrow> string" where
  "ToUpper u s = concat (map (\<lambda>p. encode_rune (upper_rune u (fst p))) (runes s))"

definition ToLower :: "unicode_tables \<Rightarrow> string \<Rightarrow> string" where
  "ToLower u s = concat (map (\<lambda>p. encode_rune (lower_rune u (fst p))) (runes s))"

text \<open>\<open>strings.Cut\<close> at a one-byte separator.\<close>

fun Cut :: "char \<Rightarrow> string \<Rightarrow> (string \<times> string) option" where
  "Cut sep [] = None"
| "Cut sep (c # cs) = (if c = sep then Some ([], cs)
     else map_option (\<lambda>(a, b). (c # a, b)) (Cut sep cs))"

definition HasPrefix :: "string \<Rightarrow> string \<Rightarrow> bool" where
  "HasPrefix s p \<longleftrightarrow> take (length p) s = p"

section \<open>The verb %q\<close>

text \<open>\<open>strconv.IsPrint\<close>: Latin-1 is spelled out in the library, the rest is the table.\<close>

definition IsPrint :: "unicode_tables \<Rightarrow> nat \<Rightarrow> bool" where
  "IsPrint u r \<longleftrightarrow>
     (if r \<le> 255 then (32 \<le> r \<and> r < 127) \<or> (161 \<le> r \<and> r \<noteq> 173) else is_print u r)"

definition hex_digits :: "nat \<Rightarrow> nat \<Rightarrow> string" where
  "hex_digits k n = map (\<lambda>i. hex_char (n div 16 ^ i mod 16)) (rev [0..<k])"

definition quote_rune :: "unicode_tables \<Rightarrow> nat \<times> string \<Rightarrow> string" where
  "quote_rune u p = (case p of (r, bs) \<Rightarrow>
     if ill_formed p then backslash # CHR ''x'' # hex_digits 2 (of_char (hd bs))
     else if r = 34 \<or> r = 92 then [backslash, char_of r]
     else if IsPrint u r then encode_rune r
     else if r = 7 then [backslash, CHR ''a'']
     else if r = 8 then [backslash, CHR ''b'']
     else if r = 12 then [backslash, CHR ''f'']
     else if r = 10 then [backslash, CHR ''n'']
     else if r = 13 then [backslash, CHR ''r'']
     else if r = 9 then [backslash, CHR ''t'']
     else if r = 11 then [backslash, CHR ''v'']
     else if r < 32 \<or> r = 127 then backslash # CHR ''x'' # hex_digits 2 r
     else if r < 65536 then backslash # CHR ''u'' # hex_digits 4 r
     else backslash # CHR ''U'' # hex_digits 8 r)"

definition quote :: "unicode_tables \<Rightarrow> string \<Rightarrow> string" where
  "quote u s = dquote # concat (map (quote_rune u) (runes s)) @ [dquote]"

section \<open>Package filepath\<close>

definition slash :: char where
  "slash = CHR ''/''"

fun split_slash :: "string \<Rightarrow> string list" where
  "split_slash [] = [[]]"
| "split_slash (c # cs) = (if c = slash then [] # split_slash cs
     else (case split_slash cs of x # xs \<Rightarrow> (c # x) # xs | [] \<Rightarrow> [[c]]))"

fun join_slash :: "string list \<Rightarrow> string" where
  "join_slash [] = []"
| "join_slash [x] = x"
| "join_slash (x # xs) = x @ slash # join_slash xs"

definition clean_step :: "bool \<Rightarrow> string list \<Rightarrow> string \<Rightarrow> string list" where
  "clean_step rooted out c =
     (if c = [] \<or> c = ''.'' then out
      else if c = ''..'' then
        (if out \<noteq> [] \<and> last out \<noteq> ''..'' then butlast out
         else if rooted then out else out @ [''..''])
      else out @ [c])"

definition Clean :: "string \<Rightarrow> string" where
  "Clean path = (if path = [] then ''.''
     else (let rooted = (hd path = slash);
               body = join_slash (foldl (clean_step rooted) [] (split_slash path))
           in if rooted then slash # body else if body = [] then ''.'' else body))"

definition Join :: "string list \<Rightarrow> string" where
  "Join elems = (case dropWhile (\<lambda>e. e = []) elems of [] \<Rightarrow> [] | es \<Rightarrow> Clean (join_slash es))"

definition Dir :: "string \<Rightarrow> string" where
  "Dir path = Clean (rev (dropWhile (\<lambda>c. c \<noteq> slash) (rev path)))"

section \<open>Facts about paths\<close>

lemma split_slash_nonempty [simp]: "split_slash s \<noteq> []"
  by (induction s) (auto split: list.splits)

lemma split_slash_append:
  "split_slash (s @ slash # t) = split_slash s @ split_slash t"
proof (induction s)
  case (Cons c cs)
  then show ?case
    by (cases "split_slash cs") (simp_all split: list.splits)
qed simp

lemma split_slash_plain: "slash \<notin> set s \<Longrightarrow> split_slash s = [s]"
  by (induction s) auto

lemma split_slash_no_slash: "x \<in> set (split_slash s) \<Longrightarrow> slash \<notin> set x"
proof (induction s arbitrary: x)
  case (Cons c cs)
  then show ?case
    by (cases "split_slash cs") (auto split: if_splits)
qed simp

lemma join_slash_snoc: "xs \<noteq> [] \<Longrightarrow> join_slash (xs @ [y]) = join_slash xs @ slash # y"
  by (induction xs rule: join_slash.induct) auto

lemma join_slash_snoc_nonempty: "y \<noteq> [] \<Longrightarrow> join_slash (xs @ [y]) \<noteq> []"
  by (cases "xs = []") (simp_all add: join_slash_snoc)

lemma join_slash_snoc_tail: "\<exists>q. join_slash (xs @ [y]) = q @ y \<and> (q = [] \<or> last q = slash)"
proof (cases "xs = []")
  case False
  then have "join_slash (xs @ [y]) = (join_slash xs @ [slash]) @ y" by (simp add: join_slash_snoc)
  then show ?thesis by (metis last_snoc)
qed simp

text \<open>A name that \<open>Clean\<close> keeps as it is: one component, no dots-only name.\<close>

definition plain_name :: "string \<Rightarrow> bool" where
  "plain_name x \<longleftrightarrow> x \<noteq> [] \<and> slash \<notin> set x \<and> x \<noteq> ''.'' \<and> x \<noteq> ''..''"

lemma clean_step_plain: "plain_name x \<Longrightarrow> clean_step rooted out x = out @ [x]"
  by (simp add: clean_step_def plain_name_def)

lemma Join_plain_base_empty: "plain_name x \<Longrightarrow> Join [[], x] = x"
  by (auto simp: Join_def Clean_def clean_step_plain split_slash_plain plain_name_def Let_def
      neq_Nil_conv)

text \<open>Joining a plain name to a directory appends it as the last path component.\<close>

lemma Join_plain:
  assumes "base \<noteq> []" and "plain_name x"
  shows "\<exists>p. Join [base, x] = p @ x \<and> (p = [] \<or> last p = slash)"
proof -
  let ?r = "hd base = slash"
  let ?out = "foldl (clean_step ?r) [] (split_slash base)"
  have "x \<noteq> []" "slash \<notin> set x" using assms(2) by (simp_all add: plain_name_def)
  then have "split_slash (base @ slash # x) = split_slash base @ [x]"
    by (simp add: split_slash_append split_slash_plain)
  then have "Join [base, x] = (if ?r then slash # join_slash (?out @ [x]) else join_slash (?out @ [x]))"
    using assms \<open>x \<noteq> []\<close>
    by (auto simp: Join_def Clean_def Let_def clean_step_plain join_slash_snoc_nonempty)
  moreover note join_slash_snoc_tail [of ?out x]
  ultimately show ?thesis
    by (metis (no_types, lifting) append_Cons last_ConsL last_ConsR)
qed

lemma last_component_inject:
  assumes "p @ x = q @ y" and "p = [] \<or> last p = slash" and "q = [] \<or> last q = slash"
    and "slash \<notin> set x" and "slash \<notin> set y"
  shows "x = y"
proof -
  have tail: "rev (takeWhile (\<lambda>c. c \<noteq> slash) (rev (p @ x))) = x"
    if "p = [] \<or> last p = slash" "slash \<notin> set x" for p x
    using that by (cases p rule: rev_cases) (auto simp: takeWhile_append rev_swap takeWhile_eq_all_conv)
  from tail [OF assms(2,4)] tail [OF assms(3,5)] assms(1) show ?thesis by simp
qed

text \<open>Different names under one directory are different paths.\<close>

lemma Join_inject:
  assumes "Join [base, x] = Join [base, y]" and "plain_name x" and "plain_name y"
  shows "x = y"
proof (cases "base = []")
  case True
  with assms show ?thesis by (simp add: Join_plain_base_empty)
next
  case False
  then show ?thesis
    using Join_plain [OF False assms(2)] Join_plain [OF False assms(3)] assms last_component_inject
    by (metis plain_name_def)
qed

text \<open>A formatted non-negative number is a plain name.\<close>

lemma digits_of_plain: "plain_name (digits_of n)"
proof -
  have "c \<noteq> slash \<and> c \<noteq> CHR ''.''" if "c \<in> set (digits_of n)" for c
    using digits_of_all_digits [of n] that
    by (auto simp: all_digits_def list_all_iff digit_value_def slash_def)
  then show ?thesis
    using FormatInt_nonempty [of "int n"] by (auto simp: plain_name_def FormatInt_def)
qed

lemma FormatInt_plain: "0 \<le> n \<Longrightarrow> plain_name (FormatInt n)"
  by (simp add: FormatInt_def digits_of_plain)

section \<open>Facts about trimming and cutting\<close>

lemma Cut_Some_append: "Cut sep s = Some (a, b) \<Longrightarrow> s = a @ sep # b \<and> sep \<notin> set a"
  by (induction s arbitrary: a) (auto split: if_splits)

lemma Cut_None_iff: "Cut sep s = None \<longleftrightarrow> sep \<notin> set s"
  by (induction s) auto

lemma Cut_append: "sep \<notin> set a \<Longrightarrow> Cut sep (a @ sep # b) = Some (a, b)"
  by (induction a) auto

lemma trim_left_Nil [simp]: "trim_left [] = []"
  by (simp add: trim_left.simps)

lemma trim_right_rev_Nil [simp]: "trim_right_rev [] = []"
  by (simp add: trim_right_rev.simps)

lemma TrimSpace_Nil [simp]: "TrimSpace [] = []"
  by (simp add: TrimSpace_def)

text \<open>A string that starts and ends with a byte that is no space and no part of one stays.\<close>

lemma TrimSpace_id:
  assumes "s \<noteq> []" and "(of_char (hd s) :: nat) < 128" and "\<not> is_space (of_char (hd s))"
    and "(of_char (last s) :: nat) < 128" and "\<not> is_space (of_char (last s))"
  shows "TrimSpace s = s"
proof -
  have "trim_left s = s"
    using assms by (cases s) (simp_all add: trim_left.simps decode_rune_ascii)
  moreover have "trim_right_rev (rev s) = rev s"
    using assms by (cases s rule: rev_cases) (simp_all add: trim_right_rev.simps decode_last_rune_def)
  ultimately show ?thesis by (simp add: TrimSpace_def)
qed

lemma trim_right_rev_space:
  "(of_char c :: nat) < 128 \<Longrightarrow> is_space (of_char c) \<Longrightarrow> trim_right_rev (c # rs) = trim_right_rev rs"
  by (subst trim_right_rev.simps) (simp add: decode_last_rune_def)

text \<open>A number printed on a line of its own, with or without its newline, trims to the number.\<close>

definition no_space :: "char \<Rightarrow> bool" where
  "no_space c \<longleftrightarrow> 33 \<le> (of_char c :: nat) \<and> (of_char c :: nat) < 127"

lemma no_spaceD: "no_space c \<Longrightarrow> (of_char c :: nat) < 128 \<and> \<not> is_space (of_char c)"
  by (auto simp: no_space_def is_space_def)

lemma TrimSpace_line:
  assumes "s \<noteq> []" and "list_all no_space s"
  shows "TrimSpace s = s" and "TrimSpace (s @ [CHR 0x0A]) = s"
proof -
  have ends: "no_space (hd s)" "no_space (last s)"
    using assms by (simp_all add: list_all_iff)
  then show "TrimSpace s = s" using assms(1) by (simp add: TrimSpace_id no_spaceD)
  have "trim_left (s @ [CHR 0x0A]) = s @ [CHR 0x0A]"
    using ends assms(1) by (cases s) (simp_all add: trim_left.simps decode_rune_ascii no_spaceD)
  moreover have "trim_right_rev (rev s) = rev s"
    using ends assms(1)
    by (cases s rule: rev_cases) (simp_all add: trim_right_rev.simps decode_last_rune_def no_spaceD)
  ultimately show "TrimSpace (s @ [CHR 0x0A]) = s"
    by (simp add: TrimSpace_def trim_right_rev_space is_space_def)
qed

lemma FormatInt_no_space: "list_all no_space (FormatInt n)"
proof -
  have "list_all no_space (digits_of m)" for m
    using digits_of_all_digits [of m]
    by (auto simp: all_digits_def list_all_iff digit_value_def no_space_def split: if_splits)
  then show ?thesis by (simp add: FormatInt_def no_space_def)
qed

lemma Atoi_printed_line:
  assumes "in_int64 n"
  shows "Atoi (TrimSpace (FormatInt n @ [CHR 0x0A])) = Inr n"
  using assms by (simp add: Atoi_def TrimSpace_line FormatInt_no_space ParseInt_FormatInt)

end
