(* ===== verification/StoreOpen.thy ===== *)
theory StoreOpen
  imports StoreInv Gostrings
begin

text \<open>
  Opening the store: \<open>Open\<close>, \<open>addColumnIfMissing\<close> and \<open>hasColumn\<close> of
  \<open>internal/store/store.go\<close>, which create the tables and migrate a database written before
  the columns \<open>owner\<close> and \<open>tag\<close> existed; and the texts of the store's errors.

  A DDL statement takes effect at once; one that reports an error has had none. The two
  \<open>CREATE TABLE IF NOT EXISTS\<close> go to the driver in one \<open>Exec\<close> but may fail separately. A
  column added by \<open>ALTER TABLE\<close> holds its default, the empty string, in every old row.
\<close>

record Options =
  opt_Driver :: string
  opt_Path :: string
  opt_Host :: string
  opt_Port :: int
  opt_User :: string
  opt_Password :: string
  opt_DBName :: string

definition create_jobs :: "database \<Rightarrow> database" where
  "create_jobs d = (case jobs_columns d of
     None \<Rightarrow> d\<lparr>jobs_columns := Some jobs_column_names\<rparr> | Some _ \<Rightarrow> d)"

definition create_history :: "database \<Rightarrow> database" where
  "create_history d = d\<lparr>history_exists := True\<rparr>"

definition add_column :: "string \<Rightarrow> database \<Rightarrow> database" where
  "add_column c d = d\<lparr>jobs_columns := map_option (\<lambda>cs. cs @ [c]) (jobs_columns d),
     jobs_rows := map (\<lambda>r. if c = ''owner'' then r\<lparr>row_owner := []\<rparr>
                           else if c = ''tag'' then r\<lparr>row_tag := []\<rparr> else r) (jobs_rows d)\<rparr>"

definition table_columns :: "database \<Rightarrow> string list" where
  "table_columns d = (case jobs_columns d of None \<Rightarrow> [] | Some cs \<Rightarrow> cs)"

text \<open>The loop over the rows of \<open>PRAGMA table_info\<close>, one column name each.\<close>

fun scan_columns :: "env \<Rightarrow> string \<Rightarrow> string list \<Rightarrow> world \<Rightarrow> (string + bool) \<times> world" where
  "scan_columns e column [] w = (case sql e SqlTableInfoEnd w of
     (Some t, w) \<Rightarrow> (Inl t, w)
   | (None, w) \<Rightarrow> (Inr False, w))"
| "scan_columns e column (name # names) w = (case sql e SqlTableInfoRow w of
     (Some t, w) \<Rightarrow> (Inl t, w)
   | (None, w) \<Rightarrow> if equal_fold name column then (Inr True, w) else scan_columns e column names w)"

definition hasColumn :: "env \<Rightarrow> string \<Rightarrow> string \<Rightarrow> world \<Rightarrow> (string + bool) \<times> world" where
  "hasColumn e driver column w =
     (if driver = ''sqlite'' then
        (case sql e SqlTableInfo w of
           (Some t, w) \<Rightarrow> (Inl t, w)
         | (None, w) \<Rightarrow> scan_columns e column (table_columns (db w)) w)
      else if driver = ''mysql'' then
        (case sql e SqlTableInfo w of
           (Some t, w) \<Rightarrow> (Inl t, w)
         | (None, w) \<Rightarrow> (Inr (has_column (table_columns (db w)) column), w))
      else (Inl (''unsupported driver '' @ quote (unicode e) driver), w))"

definition addColumnIfMissing :: "env \<Rightarrow> string \<Rightarrow> string \<Rightarrow> string \<Rightarrow> world \<Rightarrow> store_error option \<times> world" where
  "addColumnIfMissing e driver table column w = (case hasColumn e driver column w of
     (Inl t, w) \<Rightarrow> (Some (CheckColumnError table column t), w)
   | (Inr True, w) \<Rightarrow> (None, w)
   | (Inr False, w) \<Rightarrow> (case sql e (SqlAlterTable column) w of
        (Some t, w) \<Rightarrow> (Some (AddColumnError table column t), w)
      | (None, w) \<Rightarrow> (None, w\<lparr>db := add_column column (db w)\<rparr>)))"

text \<open>Everything after the driver has been chosen.\<close>

definition open_db :: "env \<Rightarrow> string \<Rightarrow> world \<Rightarrow> store_error option \<times> world" where
  "open_db e driver w = (case sql e SqlOpen w of
     (Some t, w) \<Rightarrow> (Some (OpenDBError driver t), w)
   | (None, w) \<Rightarrow> (case sql e SqlPing w of
        (Some t, w) \<Rightarrow> (Some (ConnectDBError driver t), w)
      | (None, w) \<Rightarrow> (case sql e SqlCreateJobs w of
           (Some t, w) \<Rightarrow> (Some (ApplySchemaError t), w)
         | (None, w) \<Rightarrow> (let w = w\<lparr>db := create_jobs (db w)\<rparr> in
             case sql e SqlCreateHistory w of
               (Some t, w) \<Rightarrow> (Some (ApplySchemaError t), w)
             | (None, w) \<Rightarrow> (let w = w\<lparr>db := create_history (db w)\<rparr> in
                 case addColumnIfMissing e driver ''jobs'' ''owner'' w of
                   (Some err, w) \<Rightarrow> (Some (MigrateSchemaError err), w)
                 | (None, w) \<Rightarrow> (case addColumnIfMissing e driver ''jobs'' ''tag'' w of
                      (Some err, w) \<Rightarrow> (Some (MigrateSchemaError err), w)
                    | (None, w) \<Rightarrow> (None, w)))))))"

definition Store_Open :: "env \<Rightarrow> Options \<Rightarrow> world \<Rightarrow> store_error option \<times> world" where
  "Store_Open e opts w =
     (let driver = (if opt_Driver opts = [] then ''sqlite'' else opt_Driver opts) in
      if driver = ''sqlite'' then
        (case os_MkdirAll e (Dir (opt_Path opts)) w of
           (Some t, w) \<Rightarrow> (Some (CreateDBDirError t), w)
         | (None, w) \<Rightarrow> open_db e driver w)
      else if driver = ''mysql'' then open_db e driver w
      else (Some (UnsupportedDBDriver driver), w))"

text \<open>\<open>err.Error()\<close> of the store's errors.\<close>

fun store_error_text :: "unicode_tables \<Rightarrow> store_error \<Rightarrow> string" where
  "store_error_text u (InvalidJobID jid) = ''invalid job id '' @ quote u jid"
| "store_error_text u (InsertJobError t) = ''insert job: '' @ t"
| "store_error_text u (InsertedIDError t) = ''get inserted job id: '' @ t"
| "store_error_text u (ScanJobRowError t) = ''scan job row: '' @ t"
| "store_error_text u (UnmarshalCommandError t) = ''unmarshal command: '' @ t"
| "store_error_text u (ListJobsError t) = ''list jobs: '' @ t"
| "store_error_text u (ListTerminalJobsError t) = ''list terminal jobs: '' @ t"
| "store_error_text u (RowsError t) = t"
| "store_error_text u (ScanHistoryRowError t) = ''scan history row: '' @ t"
| "store_error_text u (InvalidTransition jid a b) =
     ''invalid transition for job '' @ jid @ '': '' @ status_text a @ '' -> '' @ status_text b"
| "store_error_text u (UpdateJobError jid t) = ''update job '' @ jid @ '': '' @ t"
| "store_error_text u (JobNotFound jid) = ''job '' @ jid @ '' not found''"
| "store_error_text u (RecordHistoryError n t) = ''record history for job '' @ FormatInt n @ '': '' @ t"
| "store_error_text u (CommitError t) = t"
| "store_error_text u (ListHistoryError jid t) = ''list history for job '' @ jid @ '': '' @ t"
| "store_error_text u (CreateDBDirError t) = ''create db dir: '' @ t"
| "store_error_text u (UnsupportedDBDriver d) =
     ''unsupported db driver '' @ quote u d @ '' (must be sqlite or mysql)''"
| "store_error_text u (OpenDBError d t) = ''open '' @ d @ '' db: '' @ t"
| "store_error_text u (ConnectDBError d t) = ''connect to '' @ d @ '' db: '' @ t"
| "store_error_text u (ApplySchemaError t) = ''apply schema: '' @ t"
| "store_error_text u (CheckColumnError tab c t) = ''check column '' @ tab @ ''.'' @ c @ '': '' @ t"
| "store_error_text u (AddColumnError tab c t) = ''add column '' @ tab @ ''.'' @ c @ '': '' @ t"
| "store_error_text u (MigrateSchemaError err) = ''migrate schema: '' @ store_error_text u err"

section \<open>What opening does to the database\<close>

lemma has_column_append [simp]: "has_column (xs @ ys) c \<longleftrightarrow> has_column xs c \<or> has_column ys c"
  by (simp add: has_column_def)

lemma scan_columns_db [simp]: "db (snd (scan_columns e column names w)) = db w"
  by (induction names arbitrary: w) (auto split: store_splits)

lemma scan_columns_Inr: "scan_columns e column names w = (Inr b, w') \<Longrightarrow> b = has_column names column"
  by (induction names arbitrary: w) (auto simp: has_column_def split: store_splits)

lemma scan_columns_ok: "sql_ok e \<Longrightarrow> \<exists>b w'. scan_columns e column names w = (Inr b, w')"
  by (induction names arbitrary: w) (auto simp: sql_def sql_error_def schema_covers_def stmt_columns_def)

lemma scan_columns_eq_db: "scan_columns e column names w = (res, w') \<Longrightarrow> db w' = db w"
  using scan_columns_db [of e column names w] by simp

lemma hasColumn_db [simp]: "db (snd (hasColumn e driver column w)) = db w"
  by (auto simp: hasColumn_def split: store_splits)

lemma hasColumn_Inr:
  assumes "hasColumn e driver column w = (Inr b, w')"
  shows "b \<longleftrightarrow> has_column (table_columns (db w)) column" and "db w' = db w"
  using assms by (auto simp: hasColumn_def split: store_splits dest: scan_columns_Inr scan_columns_eq_db)

lemma hasColumn_Inl: "hasColumn e driver column w = (Inl t, w') \<Longrightarrow> db w' = db w"
  using hasColumn_db [of e driver column w] by simp

text \<open>The database after a successful migration of one column.\<close>

definition migrated :: "string \<Rightarrow> database \<Rightarrow> database" where
  "migrated c d = (if has_column (table_columns d) c then d else add_column c d)"

lemma addColumnIfMissing_cases:
  assumes "addColumnIfMissing e driver table column w = (res, w')"
  shows "res = None \<and> db w' = migrated column (db w) \<or> res \<noteq> None \<and> db w' = db w"
  using assms unfolding addColumnIfMissing_def migrated_def
  by (auto split: store_splits bool.splits dest: hasColumn_Inr hasColumn_Inl)

definition opened :: "database \<Rightarrow> database" where
  "opened d = migrated ''tag'' (migrated ''owner'' (create_history (create_jobs d)))"

text \<open>On every failure path the database is at one of the stages of the migration.\<close>

lemma open_db_cases:
  assumes "open_db e driver w = (res, w')"
  shows "res = None \<and> db w' = opened (db w) \<or>
    res \<noteq> None \<and> db w' \<in> {db w, create_jobs (db w), create_history (create_jobs (db w)),
      migrated ''owner'' (create_history (create_jobs (db w)))}"
proof -
  have A: "addColumnIfMissing e driver ''jobs'' c v = (r, v') \<Longrightarrow>
      r = None \<and> db v' = migrated c (db v) \<or> r \<noteq> None \<and> db v' = db v" for c v r v'
    by (rule addColumnIfMissing_cases)
  show ?thesis using assms unfolding open_db_def opened_def
    by (auto simp: Let_def split: store_splits dest!: A)
qed

text \<open>
  A database this program can upgrade: none yet, or one whose \<open>jobs\<close> table has every
  column but possibly \<open>owner\<close> and \<open>tag\<close>.
\<close>

definition upgradable :: "database \<Rightarrow> bool" where
  "upgradable d \<longleftrightarrow> (case jobs_columns d of
     None \<Rightarrow> jobs_rows d = []
   | Some cs \<Rightarrow> list_all (\<lambda>c. c \<in> {''owner'', ''tag''} \<or> has_column cs c) jobs_column_names)"

lemma table_columns_add [simp]:
  "jobs_columns d = Some cs \<Longrightarrow> table_columns (add_column c d) = cs @ [c]"
  by (simp add: table_columns_def add_column_def)

definition with_column :: "string list \<Rightarrow> string \<Rightarrow> string list" where
  "with_column cs c = (if has_column cs c then cs else cs @ [c])"

lemma with_column_has [simp]:
  "has_column (with_column cs c) c" "has_column cs x \<Longrightarrow> has_column (with_column cs c) x"
  using has_column_member [of c "[c]"] by (simp_all add: with_column_def)

lemma jobs_columns_migrated:
  "jobs_columns d = Some cs \<Longrightarrow> jobs_columns (migrated c d) = Some (with_column cs c)"
  by (simp add: migrated_def table_columns_def add_column_def with_column_def)

lemma list_allD: "list_all Q xs \<Longrightarrow> x \<in> set xs \<Longrightarrow> Q x"
  by (simp add: list_all_iff)

lemma opened_ready: "upgradable d \<Longrightarrow> schema_ready (opened d)"
proof -
  assume up: "upgradable d"
  let ?d = "create_history (create_jobs d)"
  obtain cs where cs: "jobs_columns ?d = Some cs"
      "list_all (\<lambda>c. c \<in> {''owner'', ''tag''} \<or> has_column cs c) jobs_column_names"
    using up by (cases "jobs_columns d")
      (auto simp: upgradable_def create_jobs_def create_history_def list_all_iff intro: has_column_member)
  let ?t = "with_column (with_column cs ''owner'') ''tag''"
  have "jobs_columns (opened d) = Some ?t"
    using jobs_columns_migrated [OF jobs_columns_migrated [OF cs(1)], of "''tag''" "''owner''"]
    by (simp add: opened_def)
  moreover have "has_column ?t c" if "c \<in> set jobs_column_names" for c
  proof -
    from list_allD [OF cs(2) that] have "c = ''owner'' \<or> c = ''tag'' \<or> has_column cs c"
      by (simp only: insert_iff empty_iff simp_thms disj_assoc)
    then show ?thesis by (elim disjE) simp_all
  qed
  moreover have "history_exists (opened d)"
    by (simp add: opened_def migrated_def add_column_def create_history_def)
  ultimately show ?thesis by (simp add: schema_ready_def list_all_iff)
qed

lemma opened_id: "schema_ready d \<Longrightarrow> opened d = d"
proof -
  assume r: "schema_ready d"
  then obtain cs where cs: "jobs_columns d = Some cs" "list_all (has_column cs) jobs_column_names"
    by (auto simp: schema_ready_def split: option.splits)
  then have "has_column (table_columns d) ''owner''" "has_column (table_columns d) ''tag''"
    by (simp_all add: table_columns_def jobs_column_names_def)
  moreover have "create_history (create_jobs d) = d"
    using cs(1) r by (simp add: create_history_def create_jobs_def schema_ready_def)
  ultimately show "opened d = d" by (simp add: opened_def migrated_def)
qed

text \<open>The fields of a row that a migration leaves alone: all but a column just added.\<close>

definition same_but_new :: "database \<Rightarrow> job_row \<Rightarrow> job_row \<Rightarrow> bool" where
  "same_but_new d r r' \<longleftrightarrow>
     r' = r\<lparr>row_owner := (if has_column (table_columns d) ''owner'' then row_owner r else []),
            row_tag := (if has_column (table_columns d) ''tag'' then row_tag r else [])\<rparr>"

lemma equal_fold_owner_tag [simp]: "\<not> equal_fold ''owner'' ''tag''"
  by (simp add: equal_fold_def)

lemma opened_rows:
  assumes "jobs_columns d = Some cs"
  shows "list_all2 (same_but_new d) (jobs_rows d) (jobs_rows (opened d))"
    and "history_rows (opened d) = history_rows d" and "jobs_seq (opened d) = jobs_seq d"
proof -
  have "has_column (cs @ [''owner'']) ''tag'' \<longleftrightarrow> has_column cs ''tag''"
    by (simp add: has_column_def)
  then show "list_all2 (same_but_new d) (jobs_rows d) (jobs_rows (opened d))"
    using assms by (auto simp: opened_def migrated_def create_jobs_def create_history_def
        add_column_def table_columns_def same_but_new_def list_all2_map2 intro!: list.rel_refl_strong)
  show "history_rows (opened d) = history_rows d" and "jobs_seq (opened d) = jobs_seq d"
    using assms by (simp_all add: opened_def migrated_def create_jobs_def create_history_def add_column_def)
qed

section \<open>Properties\<close>

lemma Store_Open_cases:
  assumes "Store_Open e opts w = (res, w')"
  shows "res = None \<and> db w' = opened (db w) \<or>
    res \<noteq> None \<and> db w' \<in> {db w, create_jobs (db w), create_history (create_jobs (db w)),
      migrated ''owner'' (create_history (create_jobs (db w)))}"
  using assms unfolding Store_Open_def
  by (auto simp: Let_def os_MkdirAll_def split: store_splits dest!: open_db_cases)

lemma opened_no_table: "jobs_columns d = None \<Longrightarrow> jobs_rows d = [] \<Longrightarrow> jobs_rows (opened d) = []"
  by (simp add: opened_def migrated_def create_jobs_def create_history_def add_column_def)

text \<open>
  Claim C34. A successful \<open>Open\<close> leaves a database every statement of the store can work on, whether
  the file was new, current, or written before the columns \<open>owner\<close> and \<open>tag\<close> existed; every
  old job and the whole history survive, and a column that was just added is empty.
\<close>

theorem open_migrates:
  assumes "upgradable (db w)" and "Store_Open e opts w = (None, w')"
  shows "schema_ready (db w') \<and>
    list_all2 (same_but_new (db w)) (jobs_rows (db w)) (jobs_rows (db w')) \<and>
    history_rows (db w') = history_rows (db w)"
proof -
  have db: "db w' = opened (db w)" using Store_Open_cases [OF assms(2)] by simp
  show ?thesis
  proof (cases "jobs_columns (db w)")
    case None
    then have "jobs_rows (db w) = []" using assms(1) by (simp add: upgradable_def)
    with None assms(1) show ?thesis
      by (simp add: db opened_ready opened_no_table)
        (simp add: opened_def migrated_def create_jobs_def create_history_def add_column_def)
  next
    case (Some cs)
    with assms(1) show ?thesis by (simp add: db opened_ready opened_rows)
  qed
qed

text \<open>A database from before the \<open>owner\<close> and \<open>tag\<close> columns, holding one job.\<close>

definition old_db :: database where
  "old_db = empty_db\<lparr>jobs_columns := Some (filter (\<lambda>c. c \<noteq> ''owner'' \<and> c \<noteq> ''tag'') jobs_column_names),
     jobs_rows := [\<lparr>row_id = 1, row_pid = 7, row_pgid = 7, row_checkpoint_dir = ''/c'', row_command = ''null'',
       row_work_dir = [], row_hook_checkpoint = [], row_hook_resume = [], row_status = ''RUNNING'',
       row_failure_reason = [], row_owner = ''junk'', row_tag = [], row_registered_at = 5, row_updated_at = 5\<rparr>],
     jobs_seq := 1\<rparr>"

definition sqlite_options :: Options where
  "sqlite_options = \<lparr>opt_Driver = [], opt_Path = ''/var/lib/surviva/jobs.db'', opt_Host = [],
     opt_Port = 0, opt_User = [], opt_Password = [], opt_DBName = []\<rparr>"

lemma hasColumn_ok:
  assumes "sql_ok e" and "driver \<in> {''sqlite'', ''mysql''}"
  shows "\<exists>b w'. hasColumn e driver column w = (Inr b, w')"
  using assms scan_columns_ok [OF assms(1)]
  by (auto simp: hasColumn_def sql_def sql_error_def schema_covers_def stmt_columns_def)

lemma addColumnIfMissing_ok:
  assumes "sql_ok e" and "driver \<in> {''sqlite'', ''mysql''}"
  shows "fst (addColumnIfMissing e driver table column w) = None"
  using hasColumn_ok [OF assms, of column w] assms(1)
  by (auto simp: addColumnIfMissing_def sql_def sql_error_def schema_covers_def stmt_columns_def
      split: bool.splits)

lemma open_db_ok:
  assumes "sql_ok e" and "driver \<in> {''sqlite'', ''mysql''}"
  shows "fst (open_db e driver w) = None"
  using assms(1) addColumnIfMissing_ok [OF assms]
  by (auto simp: open_db_def sql_def sql_error_def schema_covers_def stmt_columns_def Let_def
      split: prod.splits option.splits) (metis fst_conv option.distinct(1))+

text \<open>
  With a working database and file system, \<open>Open\<close> succeeds exactly for the drivers
  \<open>sqlite\<close> (also the default of an empty name) and \<open>mysql\<close>, and reports every other driver as
  unsupported.
\<close>

theorem open_drivers:
  assumes "sql_ok e" and "\<forall>h p. mkdir_all e h p = None"
  shows "fst (Store_Open e opts w) =
      (if opt_Driver opts \<in> {[], ''sqlite'', ''mysql''} then None
       else Some (UnsupportedDBDriver (opt_Driver opts)))"
proof -
  have "fst (open_db e ''sqlite'' v) = None" "fst (open_db e ''mysql'' v) = None" for v
    using open_db_ok [OF assms(1)] by simp_all
  with assms(2) show ?thesis by (simp add: Store_Open_def Let_def os_MkdirAll_def)
qed

theorem open_drivers_witness:
  "fst (Store_Open quiet_env (sqlite_options\<lparr>opt_Driver := ''oracle''\<rparr>) empty_world) =
     Some (UnsupportedDBDriver ''oracle'')"
  using open_drivers [OF sql_ok_quiet, of "sqlite_options\<lparr>opt_Driver := ''oracle''\<rparr>" empty_world]
  by (simp add: quiet_env_def)

lemma upgradable_old_db: "upgradable old_db"
  by (simp add: upgradable_def old_db_def jobs_column_names_def has_column_def)

lemma new_owner_empty:
  assumes "list_all2 (same_but_new d) rs rs'" and "\<not> has_column (table_columns d) ''owner''"
  shows "map row_owner rs' = map (\<lambda>_. []) rs"
  using assms by (induction rule: list_all2_induct) (simp_all add: same_but_new_def)

theorem open_migrates_witness:
  "\<exists>w'. Store_Open quiet_env sqlite_options (empty_world\<lparr>db := old_db\<rparr>) = (None, w') \<and>
     schema_ready (db w') \<and> map row_owner (jobs_rows (db w')) = [[]]"
proof -
  let ?w = "empty_world\<lparr>db := old_db\<rparr>"
  have "upgradable (db ?w)" by (simp add: upgradable_old_db)
  moreover obtain w' where open_ok: "Store_Open quiet_env sqlite_options ?w = (None, w')"
  proof -
    have "fst (open_db quiet_env ''sqlite'' v) = None" for v
      using open_db_ok [OF sql_ok_quiet] by simp
    then have "fst (Store_Open quiet_env sqlite_options ?w) = None"
      by (simp add: Store_Open_def Let_def os_MkdirAll_def sqlite_options_def) (simp add: quiet_env_def)
    then show thesis using that by (cases "Store_Open quiet_env sqlite_options ?w") simp
  qed
  ultimately have *: "schema_ready (db w')"
      "list_all2 (same_but_new (db ?w)) (jobs_rows (db ?w)) (jobs_rows (db w'))"
    using open_migrates [of ?w quiet_env sqlite_options w'] by simp_all
  have "\<not> has_column (table_columns old_db) ''owner''"
    by (simp add: old_db_def table_columns_def jobs_column_names_def has_column_def equal_fold_def)
  moreover have "db ?w = old_db" by simp
  ultimately have "map row_owner (jobs_rows (db w')) = map (\<lambda>_. []) (jobs_rows old_db)"
    using new_owner_empty *(2) by metis
  then have "map row_owner (jobs_rows (db w')) = [[]]" by (simp add: old_db_def)
  then show ?thesis by (intro exI [of _ w'] conjI open_ok *(1))
qed

text \<open>
  Opening a database that is already in order changes nothing, on success and on every
  failure: a restart of the daemon never costs a job.
\<close>

theorem open_idempotent:
  assumes "schema_ready (db w)"
  shows "db (snd (Store_Open e opts w)) = db w"
proof -
  obtain cs where cs: "jobs_columns (db w) = Some cs" "list_all (has_column cs) jobs_column_names"
    using assms by (auto simp: schema_ready_def split: option.splits)
  then have "has_column (table_columns (db w)) ''owner''"
    by (simp add: table_columns_def jobs_column_names_def)
  moreover have "create_jobs (db w) = db w" "create_history (db w) = db w"
    using cs(1) assms by (simp_all add: create_history_def create_jobs_def schema_ready_def)
  ultimately have "db w' \<in> {opened (db w), db w}" if "Store_Open e opts w = (res, w')" for res w'
    using Store_Open_cases [OF that] by (auto simp: migrated_def)
  then show ?thesis
    using opened_id [OF assms] by (cases "Store_Open e opts w") fastforce
qed

theorem open_idempotent_witness:
  "db (snd (Store_Open quiet_env sqlite_options empty_world)) = empty_db"
  using open_idempotent [of empty_world quiet_env sqlite_options]
  by (simp add: empty_world_def)

end
