(* ===== verification/Runner.thy ===== *)
theory Runner
  imports StoreInv Gostrings
begin

text \<open>
  The packages that act on the processes themselves: \<open>internal/checkpoint\<close>,
  \<open>internal/resume\<close>, \<open>internal/criu\<close> and \<open>internal/procsignal\<close>. They talk to the operating
  system only; an error is its text, which is all the daemon uses of it. The context they
  pass to \<open>exec\<close> is \<open>context.Background()\<close> in every call of the program and never ends.
\<close>

section \<open>Package criu\<close>

definition BinaryName :: string where
  "BinaryName = ''criu''"

definition criu_Available :: "env \<Rightarrow> world \<Rightarrow> bool \<times> world" where
  "criu_Available e w = exec_LookPath e BinaryName w"

definition criu_Dump :: "env \<Rightarrow> int \<Rightarrow> string \<Rightarrow> world \<Rightarrow> string option \<times> world" where
  "criu_Dump e pid imagesDir w = (case os_MkdirAll e imagesDir w of
     (Some t, w) \<Rightarrow> (Some (''create images dir '' @ imagesDir @ '': '' @ t), w)
   | (None, w) \<Rightarrow>
       (let logFile = Join [imagesDir, ''dump.log''] in
        case exec_Run e BinaryName
               [''dump'', ''--tree'', FormatInt pid, ''--images-dir'', imagesDir,
                ''--log-file'', logFile, ''-v4''] w of
          (out, w) \<Rightarrow> (case ex_error out of
             Some t \<Rightarrow> (Some (''criu dump pid '' @ FormatInt pid @ '': '' @ t @ newline @ ex_output out
                          @ newline @ ''(see '' @ logFile @ '')''), w)
           | None \<Rightarrow> (None, w))))"

text \<open>The text of the error \<open>strconv.Atoi\<close> returns.\<close>

definition atoi_error_text :: "unicode_tables \<Rightarrow> string \<Rightarrow> num_error \<Rightarrow> string" where
  "atoi_error_text u s err = ''strconv.Atoi: parsing '' @ quote u s @ '': '' @
     (case err of ErrSyntax \<Rightarrow> ''invalid syntax'' | ErrRange \<Rightarrow> ''value out of range'')"

definition criu_Restore :: "env \<Rightarrow> string \<Rightarrow> world \<Rightarrow> (string + int) \<times> world" where
  "criu_Restore e imagesDir w =
     (let logFile = Join [imagesDir, ''restore.log''];
          pidFile = Join [imagesDir, ''restore.pid'']
      in case exec_Run e BinaryName
               [''restore'', ''--images-dir'', imagesDir, ''--restore-detached'', ''--pidfile'',
                pidFile, ''--log-file'', logFile, ''-v4''] w of
        (out, w) \<Rightarrow> (case ex_error out of
           Some t \<Rightarrow> (Inl (''criu restore from '' @ imagesDir @ '': '' @ t @ newline @ ex_output out
                        @ newline @ ''(see '' @ logFile @ '')''), w)
         | None \<Rightarrow> (case os_ReadFile e pidFile w of
             (Inl t, w) \<Rightarrow> (Inl (''criu restore from '' @ imagesDir
                @ '': succeeded but couldn'' @ [CHR 0x27] @ ''t read '' @ pidFile @ '': '' @ t), w)
           | (Inr raw, w) \<Rightarrow> (case Atoi (TrimSpace raw) of
                Inl err \<Rightarrow> (Inl (''criu restore from '' @ imagesDir @ '': invalid pid in '' @ pidFile
                              @ '': '' @ atoi_error_text (unicode e) (TrimSpace raw) err), w)
              | Inr pid \<Rightarrow> (Inr pid, w)))))"

section \<open>Packages checkpoint, resume and procsignal\<close>

definition checkpoint_Run :: "env \<Rightarrow> string \<Rightarrow> Job \<Rightarrow> world \<Rightarrow> string option \<times> world" where
  "checkpoint_Run e dir j w =
     (if HookCheckpoint j \<noteq> [] then
        (case exec_Run e (HookCheckpoint j) [ID j, dir] w of
           (out, w) \<Rightarrow> (case ex_error out of
              Some t \<Rightarrow> (Some (''checkpoint hook '' @ HookCheckpoint j @ '': '' @ t @ newline
                           @ ex_output out), w)
            | None \<Rightarrow> (None, w)))
      else (case criu_Available e w of
         (False, w) \<Rightarrow> (Some (''criu not found on PATH and job '' @ ID j
                          @ '' registered no --hook-checkpoint''), w)
       | (True, w) \<Rightarrow> criu_Dump e (PID j) dir w))"

definition resume_Run :: "env \<Rightarrow> string \<Rightarrow> string \<Rightarrow> string \<Rightarrow> world \<Rightarrow> (string + int) \<times> world" where
  "resume_Run e checkpointDir hookResume jobID w =
     (if hookResume \<noteq> [] then
        (case exec_Run e hookResume [jobID, checkpointDir] w of
           (out, w) \<Rightarrow> (case ex_error out of
              Some t \<Rightarrow> (Inl (''resume hook '' @ hookResume @ '': '' @ t), w)
            | None \<Rightarrow> (case Atoi (TrimSpace (ex_output out)) of
                 Inl err \<Rightarrow> (Inl (''resume hook '' @ hookResume @ '': must print the resumed pid, got ''
                     @ quote (unicode e) (ex_output out) @ '': ''
                     @ atoi_error_text (unicode e) (TrimSpace (ex_output out)) err), w)
               | Inr pid \<Rightarrow> (Inr pid, w))))
      else (case criu_Available e w of
         (False, w) \<Rightarrow> (Inl (''criu not found on PATH and job '' @ jobID
                          @ '' registered no --hook-resume''), w)
       | (True, w) \<Rightarrow> criu_Restore e checkpointDir w))"

definition KillGroup :: "env \<Rightarrow> int \<Rightarrow> int \<Rightarrow> world \<Rightarrow> string option \<times> world" where
  "KillGroup e pid sig w = (case syscall_Kill e pid sig w of
     (KillOk, w) \<Rightarrow> (None, w)
   | (KillESRCH, w) \<Rightarrow> (None, w)
   | (KillError t, w) \<Rightarrow> (Some t, w))"

section \<open>The contract of the functions a daemon checkpoints and resumes with\<close>

text \<open>
  The daemon calls its two job functions through fields (\<open>checkpointFunc\<close>, \<open>resumeFunc\<close>). It
  relies on this much of them: they work on processes and files, and leave the database,
  the audit file and the interruption latch alone.
\<close>

fun is_run_call :: "call \<Rightarrow> bool" where
  "is_run_call (ExecCall _ _) = True"
| "is_run_call (LookPathCall _) = True"
| "is_run_call (MkdirAllCall _) = True"
| "is_run_call (ReadFileCall _) = True"
| "is_run_call _ = False"

type_synonym checkpoint_func = "env \<Rightarrow> string \<Rightarrow> Job \<Rightarrow> world \<Rightarrow> string option \<times> world"
type_synonym resume_func = "env \<Rightarrow> string \<Rightarrow> string \<Rightarrow> string \<Rightarrow> world \<Rightarrow> (string + int) \<times> world"

locale job_runner =
  fixes checkpointFunc :: checkpoint_func and resumeFunc :: resume_func
  assumes checkpoint_db: "db (snd (checkpointFunc e dir j w)) = db w"
    and checkpoint_frame: "frame is_run_call w (snd (checkpointFunc e dir j w))"
    and resume_db: "db (snd (resumeFunc e dir hook jid w)) = db w"
    and resume_frame: "frame is_run_call w (snd (resumeFunc e dir hook jid w))"
begin

lemma checkpoint_eq: "checkpointFunc e dir j w = (res, w') \<Longrightarrow> db w' = db w"
  using checkpoint_db [of e dir j w] by simp

lemma resume_eq: "resumeFunc e dir hook jid w = (res, w') \<Longrightarrow> db w' = db w"
  using resume_db [of e dir hook jid w] by simp

end

lemma criu_Dump_frame: "frame is_run_call w (snd (criu_Dump e pid dir w))"
  by (auto simp: criu_Dump_def os_defs Let_def intro!: frame_intros split: store_splits)

lemma criu_Dump_db: "db (snd (criu_Dump e pid dir w)) = db w"
  by (auto simp: criu_Dump_def os_defs Let_def split: store_splits)

lemma criu_Restore_frame: "frame is_run_call w (snd (criu_Restore e dir w))"
  by (auto simp: criu_Restore_def os_defs Let_def intro!: frame_intros split: store_splits)

lemma criu_Restore_db: "db (snd (criu_Restore e dir w)) = db w"
  by (auto simp: criu_Restore_def os_defs Let_def split: store_splits)

lemma frame_after_call: "P c \<Longrightarrow> frame P (record_call c w) w' \<Longrightarrow> frame P w w'"
  by (blast intro: frame_trans frame_record_call)

interpretation real_runner: job_runner checkpoint_Run resume_Run
proof
  show "db (snd (checkpoint_Run e dir j w)) = db w" for e dir j w
    by (auto simp: checkpoint_Run_def criu_Available_def os_defs criu_Dump_db split: store_splits bool.splits)
  show "frame is_run_call w (snd (checkpoint_Run e dir j w))" for e dir j w
    using frame_after_call [of is_run_call "LookPathCall BinaryName" w] criu_Dump_frame
    by (auto simp: checkpoint_Run_def criu_Available_def os_defs intro!: frame_intros
        split: store_splits bool.splits)
  show "db (snd (resume_Run e dir hook jid w)) = db w" for e dir hook jid w
    by (auto simp: resume_Run_def criu_Available_def os_defs criu_Restore_db split: store_splits bool.splits)
  show "frame is_run_call w (snd (resume_Run e dir hook jid w))" for e dir hook jid w
    using frame_after_call [of is_run_call "LookPathCall BinaryName" w] criu_Restore_frame
    by (auto simp: resume_Run_def criu_Available_def os_defs intro!: frame_intros
        split: store_splits bool.splits)
qed

lemma KillGroup_db [simp]: "db (snd (KillGroup e pid sig w)) = db w"
  by (auto simp: KillGroup_def os_defs split: prod.splits kill_outcome.splits)

lemma KillGroup_frame: "frame (\<lambda>c. c = KillCall pid sig) w (snd (KillGroup e pid sig w))"
  by (auto simp: KillGroup_def os_defs intro!: frame_intros split: prod.splits kill_outcome.splits)

section \<open>Properties\<close>

text \<open>
  A job with a checkpoint hook is checkpointed by that hook and nothing else: the hook
  runs once, with the job's id and directory as its arguments, CRIU is not consulted, and
  the checkpoint fails exactly when the hook does.
\<close>

theorem checkpoint_hook_only:
  assumes "HookCheckpoint j \<noteq> []"
  shows "calls (snd (checkpoint_Run e dir j w)) = ExecCall (HookCheckpoint j) [ID j, dir] # calls w \<and>
    (fst (checkpoint_Run e dir j w) = None \<longleftrightarrow>
       ex_error (exec_cmd e (calls w) (HookCheckpoint j) [ID j, dir]) = None)"
  using assms by (auto simp: checkpoint_Run_def exec_Run_def split: option.splits)

definition hook_job :: Job where
  "hook_job = \<lparr>ID = ''4'', PID = 9, PGID = 9, CheckpointDir = ''/c/4'', Command = None, WorkDir = [],
     HookCheckpoint = ''/opt/ck'', HookResume = ''/opt/rs'', Status = StatusRunning, FailureReason = [],
     Owner = [], Tag = [], RegisteredAt = 0, UpdatedAt = 0\<rparr>"

theorem checkpoint_hook_only_witness:
  "calls (snd (checkpoint_Run quiet_env ''/c/4'' hook_job empty_world)) =
     [ExecCall ''/opt/ck'' [''4'', ''/c/4'']]"
  using checkpoint_hook_only [of hook_job quiet_env "''/c/4''" empty_world]
  by (simp add: hook_job_def empty_world_def)

text \<open>
  A resume hook that exits without error and prints a process id, with or without a
  final newline, resumes the job under that id; whatever else it prints is an error, so a
  resume never succeeds with a process id the hook did not print.
\<close>

theorem resume_hook_pid:
  assumes "hookResume \<noteq> []"
    and "exec_cmd e (calls w) hookResume [jid, dir] = \<lparr>ex_output = out, ex_error = None\<rparr>"
  shows "(in_int64 pid \<and> out \<in> {FormatInt pid, FormatInt pid @ newline} \<longrightarrow>
      fst (resume_Run e dir hookResume jid w) = Inr pid) \<and>
    (fst (resume_Run e dir hookResume jid w) = Inr pid \<longrightarrow> Atoi (TrimSpace out) = Inr pid)"
  using assms Atoi_printed_line [of pid]
  by (auto simp: resume_Run_def exec_Run_def newline_def Atoi_def TrimSpace_line FormatInt_no_space
      ParseInt_FormatInt split: sum.splits)

theorem resume_hook_pid_witness:
  "fst (resume_Run (quiet_env\<lparr>exec_cmd := (\<lambda>_ _ _. \<lparr>ex_output = FormatInt 4821 @ newline, ex_error = None\<rparr>)\<rparr>)
     ''/c/4'' ''/opt/rs'' ''4'' empty_world) = Inr 4821"
  using resume_hook_pid [of "''/opt/rs''"
      "quiet_env\<lparr>exec_cmd := (\<lambda>_ _ _. \<lparr>ex_output = FormatInt 4821 @ newline, ex_error = None\<rparr>)\<rparr>"
      empty_world "''4''" "''/c/4''" "FormatInt 4821 @ newline" 4821]
  by (simp add: in_int64_def int64_bounds_values)

end
