(* ===== verification/AuditLog.thy ===== *)
theory AuditLog
  imports StoreInv Json Strconv Gostrings
begin

text \<open>
  The audit log, \<open>internal/auditlog/auditlog.go\<close>: one JSON object per line, appended to a file
  with a single write. The JSON form of a \<open>time.Time\<close> is RFC 3339 with the fraction's
  trailing zeros dropped; it exists for the years 0 to 9999 only.

  The model has one logger on one file. A write that reports an error may have written
  part of the line. Other processes' lines are not modelled.
\<close>

record Entry =
  en_Time :: time
  en_Component :: string
  en_Action :: string
  en_JobID :: string
  en_Outcome :: string
  en_Detail :: string

section \<open>Times as JSON\<close>

text \<open>Year (from 1) and day of the year (from 0) of a day number; day 0 is 1 January of year 1.\<close>

definition year_and_yday :: "int \<Rightarrow> int \<times> int" where
  "year_and_yday d =
     (let n400 = d div 146097; d = d mod 146097;
          n100 = min 3 (d div 36524); d = d - 36524 * n100;
          n4 = d div 1461; d = d mod 1461;
          n1 = min 3 (d div 365); d = d - 365 * n1
      in (400 * n400 + 100 * n100 + 4 * n4 + n1 + 1, d))"

definition is_leap :: "int \<Rightarrow> bool" where
  "is_leap y \<longleftrightarrow> y mod 4 = 0 \<and> (y mod 100 \<noteq> 0 \<or> y mod 400 = 0)"

definition month_lengths :: "int \<Rightarrow> int list" where
  "month_lengths y = [31, if is_leap y then 29 else 28, 31, 30, 31, 30, 31, 31, 30, 31, 30, 31]"

fun month_and_day :: "int \<Rightarrow> int list \<Rightarrow> int \<Rightarrow> int \<times> int" where
  "month_and_day m (l # ls) d = (if d < l \<or> ls = [] then (m, d + 1) else month_and_day (m + 1) ls (d - l))"
| "month_and_day m [] d = (m, d + 1)"

definition pad_int :: "nat \<Rightarrow> int \<Rightarrow> string" where
  "pad_int k n = (let s = FormatInt n in replicate (k - length s) (CHR ''0'') @ s)"

definition drop_trailing_zeros :: "string \<Rightarrow> string" where
  "drop_trailing_zeros s = rev (dropWhile (\<lambda>c. c = CHR ''0'') (rev s))"

definition fraction :: "int \<Rightarrow> string" where
  "fraction ns = (if ns = 0 then [] else CHR ''.'' # drop_trailing_zeros (pad_int 9 ns))"

definition rfc3339_nano :: "time \<Rightarrow> string option" where
  "rfc3339_nano t =
     (let secs = t div 1000000000; ns = t mod 1000000000;
          (y, yday) = year_and_yday (secs div 86400); s = secs mod 86400;
          (m, day) = month_and_day 1 (month_lengths y) yday
      in if y < 0 \<or> y > 9999 then None
         else Some (pad_int 4 y @ ''-'' @ pad_int 2 m @ ''-'' @ pad_int 2 day @ ''T'' @
                    pad_int 2 (s div 3600) @ '':'' @ pad_int 2 (s div 60 mod 60) @ '':'' @
                    pad_int 2 (s mod 60) @ fraction ns @ ''Z''))"

lemma rfc3339_defined:
  assumes "0 \<le> fst (year_and_yday (t div 1000000000 div 86400))"
    and "fst (year_and_yday (t div 1000000000 div 86400)) \<le> 9999"
  shows "rfc3339_nano t \<noteq> None"
  using assms by (auto simp: rfc3339_nano_def Let_def split_beta)

section \<open>Writing an entry\<close>

definition json_field :: "string \<Rightarrow> string \<Rightarrow> string" where
  "json_field name val = json_string name @ CHR '':'' # json_string val"

text \<open>\<open>omitempty\<close>: an empty string is left out.\<close>

definition json_optional :: "string \<Rightarrow> string \<Rightarrow> string" where
  "json_optional name val = (if val = [] then [] else CHR '','' # json_field name val)"

definition marshal_entry :: "Entry \<Rightarrow> string option" where
  "marshal_entry en = (case rfc3339_nano (en_Time en) of
     None \<Rightarrow> None
   | Some t \<Rightarrow> Some (CHR ''{'' # json_string ''time'' @ CHR '':'' # dquote # t @ dquote # CHR '','' #
       json_field ''component'' (en_Component en) @ CHR '','' #
       json_field ''action'' (en_Action en) @
       json_optional ''job_id'' (en_JobID en) @ CHR '','' #
       json_field ''outcome'' (en_Outcome en) @
       json_optional ''detail'' (en_Detail en) @ ''}''))"

text \<open>The text of the error \<open>Time.MarshalJSON\<close> returns for a year out of range.\<close>

definition marshal_time_error :: string where
  "marshal_time_error = ''json: error calling MarshalJSON for type time.Time: Time.MarshalJSON: year outside of range [0,9999]''"

definition file_append :: "env \<Rightarrow> string \<Rightarrow> world \<Rightarrow> string option \<times> world" where
  "file_append e bytes w = (case append_fault e (calls w) bytes of
     None \<Rightarrow> (None, record_call (AppendCall bytes) w\<lparr>audit_file := audit_file w @ bytes\<rparr>)
   | Some (n, t) \<Rightarrow> (Some t, record_call (AppendCall bytes) w\<lparr>audit_file := audit_file w @ take n bytes\<rparr>))"

definition Logger_Log :: "env \<Rightarrow> Entry \<Rightarrow> world \<Rightarrow> string option \<times> world" where
  "Logger_Log e en w =
     (case (if en_Time en = 0 then (case now_utc e w of (now, w) \<Rightarrow> (en\<lparr>en_Time := now\<rparr>, w)) else (en, w)) of
        (en, w) \<Rightarrow> (case marshal_entry en of
           None \<Rightarrow> (Some (''marshal audit entry: '' @ marshal_time_error), w)
         | Some line \<Rightarrow> (case file_append e (line @ newline) w of
              (Some t, w) \<Rightarrow> (Some (''write audit entry: '' @ t), w)
            | (None, w) \<Rightarrow> (None, w))))"

section \<open>Frame\<close>

lemma Logger_Log_db [simp]: "db (snd (Logger_Log e en w)) = db w"
  by (auto simp: Logger_Log_def now_utc_def file_append_def split: store_splits)

lemma Logger_Log_interrupted [simp]: "interrupted (snd (Logger_Log e en w)) = interrupted w"
  by (auto simp: Logger_Log_def now_utc_def file_append_def split: store_splits)

fun is_audit_call :: "call \<Rightarrow> bool" where
  "is_audit_call NowCall = True"
| "is_audit_call (AppendCall _) = True"
| "is_audit_call _ = False"

lemma Logger_Log_calls:
  "\<exists>cs. calls (snd (Logger_Log e en w)) = cs @ calls w \<and> list_all is_audit_call cs"
  by (auto simp: Logger_Log_def now_utc_def file_append_def split: store_splits)

section \<open>A JSON string is one line\<close>

definition visible :: "char \<Rightarrow> bool" where
  "visible c \<longleftrightarrow> 32 \<le> (of_char c :: nat)"

lemma decode_multi_bytes:
  assumes "decode_rune s = (r, k)" and "k \<noteq> 1" and "c \<in> set (take k s)"
  shows "128 \<le> (of_char c :: nat)"
proof (cases s)
  case (Cons a as)
  have range: "128 \<le> fst (second_range b)" for b by (simp add: second_range_def)
  from assms Cons show ?thesis
    using range by (auto simp: decode_rune_def Let_def second_ok_def byte_between_def
        split: list.splits if_splits intro: order_trans)
qed (use assms in simp)

lemma rune_piece_visible:
  assumes "rune_piece (r, bs)" and "32 \<le> r" and "c \<in> set bs" and "\<not> ill_formed (r, bs)"
  shows "visible c"
proof -
  from assms(1) obtain s k where s: "s \<noteq> []" "decode_rune s = (r, k)" "bs = take k s"
    by (auto simp: rune_piece_def)
  show ?thesis
  proof (cases "k = 1")
    case True
    obtain a as where a: "s = a # as" using s(1) by (cases s) auto
    with True s decode_rune_one [of a as r] assms show ?thesis
      by (auto simp: visible_def ill_formed_def)
  next
    case False
    from decode_multi_bytes [OF s(2) False] assms(3) s(3) show ?thesis by (force simp: visible_def)
  qed
qed

lemma hex_char_visible: "n < 16 \<Longrightarrow> visible (hex_char n)"
  by (auto simp: hex_char_def visible_def of_char_of)

lemma json_escape_visible:
  assumes "rune_piece p" and "c \<in> set (json_escape p)"
  shows "visible c"
proof (cases p)
  case (Pair r bs)
  have lit: "visible backslash" "visible (CHR ''b'')" "visible (CHR ''f'')" "visible (CHR ''n'')"
    "visible (CHR ''r'')" "visible (CHR ''t'')" "visible (CHR ''u'')" "visible (CHR ''0'')"
    "visible (CHR ''2'')" "visible (CHR ''d'')"
    by (simp_all add: visible_def backslash_def)
  have hex: "visible (hex_char (r div 16))" if "r < 32 \<or> r = 60 \<or> r = 62 \<or> r = 38"
    using that by (intro hex_char_visible) auto
  have hex': "visible (hex_char (r mod 16))" by (intro hex_char_visible) simp
  from assms(1) Pair have piece: "rune_piece (r, bs)" by simp
  have one: "visible c" if "r = 34 \<or> r = 92" "c \<in> set bs"
    using rune_piece_visible [OF piece _ that(2)] that(1) by (auto simp: ill_formed_def RuneError_def)
  show ?thesis
    using assms(2) lit hex hex' one rune_piece_visible [OF piece]
    by (auto simp: Pair json_escape_def split: if_splits)
qed

lemma json_string_visible: "c \<in> set (json_string s) \<Longrightarrow> visible c"
  by (auto simp: json_string_def visible_def [of "CHR 0x22"] dquote_def
      dest: runes_rune_piece intro: json_escape_visible)

lemma pad_int_visible: "c \<in> set (pad_int k n) \<Longrightarrow> visible c"
proof -
  have "list_all no_space (pad_int k n)"
    using FormatInt_no_space [of n] by (auto simp: pad_int_def Let_def list_all_iff no_space_def)
  then show "c \<in> set (pad_int k n) \<Longrightarrow> visible c"
    by (auto simp: list_all_iff no_space_def visible_def)
qed

lemma fraction_visible: "c \<in> set (fraction ns) \<Longrightarrow> visible c"
  unfolding fraction_def drop_trailing_zeros_def
  by (auto simp: visible_def [of "CHR ''.''"] split: if_splits dest!: set_dropWhileD intro: pad_int_visible)

lemma rfc3339_visible: "rfc3339_nano t = Some s \<Longrightarrow> c \<in> set s \<Longrightarrow> visible c"
  by (auto simp: rfc3339_nano_def Let_def visible_def [of "CHR ''-''"] visible_def [of "CHR ''T''"]
      visible_def [of "CHR '':''"] visible_def [of "CHR ''Z''"]
      split: prod.splits if_splits intro: pad_int_visible fraction_visible)

lemma json_field_visible: "c \<in> set (json_field name val) \<Longrightarrow> visible c"
  by (auto simp: json_field_def visible_def [of "CHR '':''"] intro: json_string_visible)

lemma json_optional_visible: "c \<in> set (json_optional name val) \<Longrightarrow> visible c"
  by (auto simp: json_optional_def visible_def [of "CHR '',''"] split: if_splits intro: json_field_visible)

lemma marshal_entry_visible:
  assumes "marshal_entry en = Some line" and "c \<in> set line"
  shows "visible c"
proof -
  have lit: "visible (CHR ''{'')" "visible (CHR ''}'')" "visible (CHR '':'')" "visible (CHR '','')" "visible dquote"
    by (simp_all add: visible_def dquote_def)
  then show ?thesis using assms unfolding marshal_entry_def
    by (auto split: option.splits intro: rfc3339_visible json_string_visible json_field_visible
        json_optional_visible)
qed

section \<open>Properties\<close>

text \<open>
  Logging never loses what the file holds: whatever happens, the file keeps its content
  and may only grow at its end.
\<close>

theorem audit_append_only: "prefix (audit_file w) (audit_file (snd (Logger_Log e en w)))"
  by (auto simp: Logger_Log_def now_utc_def file_append_def split: store_splits)

text \<open>
  Claim C35. A successful \<open>Log\<close> appends exactly one line: the JSON object of the entry, stamped with
  the current time if it had none, without a line break inside whatever the action, job id
  or detail contain, and one line break at its end, all in one write.
\<close>

theorem audit_one_line:
  assumes "Logger_Log e en w = (None, w')"
  shows "\<exists>t line. (if en_Time en = 0 then t = clock e (calls w) else t = en_Time en) \<and>
    marshal_entry (en\<lparr>en_Time := t\<rparr>) = Some line \<and> CHR 0x0A \<notin> set line \<and>
    audit_file w' = audit_file w @ line @ newline \<and> hd (calls w') = AppendCall (line @ newline)"
proof -
  let ?t = "if en_Time en = 0 then clock e (calls w) else en_Time en"
  obtain line where line: "marshal_entry (en\<lparr>en_Time := ?t\<rparr>) = Some line"
      "audit_file w' = audit_file w @ line @ newline" "hd (calls w') = AppendCall (line @ newline)"
    using assms by (auto simp: Logger_Log_def now_utc_def file_append_def split: store_splits)
  have "CHR 0x0A \<notin> set line"
    using marshal_entry_visible [OF line(1), of "CHR 0x0A"] by (auto simp: visible_def)
  with line show ?thesis by (intro exI [of _ ?t] exI [of _ line]) simp
qed

definition sample_entry :: Entry where
  "sample_entry = \<lparr>en_Time = 0, en_Component = ''daemon'', en_Action = ''checkpoint_failed'', en_JobID = ''7'',
     en_Outcome = ''error'', en_Detail = ''line one'' @ newline @ ''line two''\<rparr>"

theorem audit_one_line_witness:
  "\<exists>w' line. Logger_Log quiet_env sample_entry empty_world = (None, w') \<and> CHR 0x0A \<notin> set line \<and>
     audit_file w' = line @ newline"
proof -
  have "rfc3339_nano 1000 \<noteq> None"
    by (rule rfc3339_defined) (simp_all add: year_and_yday_def)
  then have "fst (Logger_Log quiet_env sample_entry empty_world) = None"
    by (auto simp: Logger_Log_def now_utc_def file_append_def marshal_entry_def sample_entry_def
        quiet_env_def empty_world_def split: option.splits)
  then obtain w' where w': "Logger_Log quiet_env sample_entry empty_world = (None, w')"
    by (cases "Logger_Log quiet_env sample_entry empty_world") simp
  then show ?thesis using audit_one_line [OF w'] by (auto simp: empty_world_def)
qed

end
