(* ===== verification/Daemon.thy ===== *)
theory Daemon
  imports StoreOpen Runner AuditLog
begin

text \<open>
  The daemon's request handlers and job operations, \<open>internal/daemon/daemon.go\<close>, and the
  messages of \<open>internal/ipc/protocol.go\<close> they answer. Each handler is a function of the
  daemon, the environment, the request and the world; it returns the response and the
  world it leaves. What the daemon only prints to its log (\<open>log.Printf\<close>) is not modelled.

  Here each handler is a function that runs without interference. The daemon runs every
  connection in a goroutine: theory \<open>Concurrent\<close> cuts the same handlers into atomic actions and
  interleaves them, and theory \<open>Fanout\<close> has the checkpoints of an interruption with their
  semaphore.
\<close>

unbundle bit_operations_syntax

section \<open>Messages\<close>

record RegisterJob =
  rj_PID :: int
  rj_PGID :: int
  rj_Command :: "string list option"
  rj_WorkDir :: string
  rj_CheckpointDir :: string
  rj_HookCheckpoint :: string
  rj_HookResume :: string
  rj_Tag :: string

record AdoptCheckpoint =
  ac_CheckpointDir :: string
  ac_HookResume :: string
  ac_HookCheckpoint :: string
  ac_Tag :: string

record Request =
  rq_Action :: string
  rq_Job :: "RegisterJob option"
  rq_Adopt :: "AdoptCheckpoint option"
  rq_JobID :: string
  rq_RequestedBy :: string
  rq_IncludeHistory :: bool
  rq_ExitCode :: int
  rq_ErrMsg :: string

record Response =
  rs_OK :: bool
  rs_Error :: string
  rs_JobID :: string
  rs_Job :: "Job option"
  rs_Jobs :: "Job list"
  rs_History :: "HistoryEntry list"
  rs_Message :: string
  rs_Failures :: "string list"

definition response0 :: Response where
  "response0 = \<lparr>rs_OK = False, rs_Error = [], rs_JobID = [], rs_Job = None, rs_Jobs = [],
     rs_History = [], rs_Message = [], rs_Failures = []\<rparr>"

definition resp_error :: "string \<Rightarrow> Response" where
  "resp_error t = response0\<lparr>rs_Error := t\<rparr>"

definition resp_ok :: Response where
  "resp_ok = response0\<lparr>rs_OK := True\<rparr>"

section \<open>The daemon\<close>

record DaemonConfig =
  cfg_HasAudit :: bool \<comment> \<open>\<open>Audit != nil\<close>\<close>
  cfg_HasNotifier :: bool \<comment> \<open>\<open>Notifier != nil\<close>\<close>
  cfg_CheckpointBaseDir :: string
  cfg_MaxConcurrentCheckpoints :: int
  cfg_SocketGroup :: string

record Daemon =
  d_has_audit :: bool
  d_has_notifier :: bool
  d_checkpointBaseDir :: string
  d_maxConcurrentCheckpoints :: int
  d_socketGroup :: string
  d_checkpointFunc :: checkpoint_func
  d_resumeFunc :: resume_func

definition daemon_New :: "int \<Rightarrow> DaemonConfig \<Rightarrow> Daemon" where
  "daemon_New numCPU cfg =
     \<lparr>d_has_audit = cfg_HasAudit cfg, d_has_notifier = cfg_HasNotifier cfg,
      d_checkpointBaseDir = cfg_CheckpointBaseDir cfg,
      d_maxConcurrentCheckpoints =
        (if cfg_MaxConcurrentCheckpoints cfg \<le> 0 then numCPU else cfg_MaxConcurrentCheckpoints cfg),
      d_socketGroup = cfg_SocketGroup cfg,
      d_checkpointFunc = checkpoint_Run, d_resumeFunc = resume_Run\<rparr>"

definition logDaemon ::
  "Daemon \<Rightarrow> env \<Rightarrow> string \<Rightarrow> string \<Rightarrow> string \<Rightarrow> string \<Rightarrow> world \<Rightarrow> world" where
  "logDaemon d e action jobID outcome detail w =
     (if \<not> d_has_audit d then w
      else snd (Logger_Log e \<lparr>en_Time = 0, en_Component = ''daemon'', en_Action = action,
             en_JobID = jobID, en_Outcome = outcome, en_Detail = detail\<rparr> w))"

section \<open>Validation\<close>

definition validateCheckpointDir :: "env \<Rightarrow> string \<Rightarrow> string \<Rightarrow> world \<Rightarrow> string option \<times> world" where
  "validateCheckpointDir e dir hookResume w = (case os_Stat e dir w of
     (Inl t, w) \<Rightarrow> (Some (''checkpoint-dir '' @ quote (unicode e) dir @ '': '' @ t), w)
   | (Inr info, w) \<Rightarrow>
       if \<not> fi_is_dir info then
         (Some (''checkpoint-dir '' @ quote (unicode e) dir @ '': not a directory''), w)
       else if hookResume \<noteq> [] then (None, w)
       else (case os_Stat e (Join [dir, ''inventory.img'']) w of
          (Inl _, w) \<Rightarrow> (Some (''checkpoint-dir '' @ quote (unicode e) dir @
             '': does not look like a criu images directory (missing inventory.img); pass -hook-resume if this was produced by a custom checkpoint hook''), w)
        | (Inr _, w) \<Rightarrow> (None, w)))"

definition validateHookPath :: "env \<Rightarrow> string \<Rightarrow> string \<Rightarrow> world \<Rightarrow> string option \<times> world" where
  "validateHookPath e flagName path w =
     (if path = [] then (None, w)
      else (case os_Stat e path w of
         (Inl t, w) \<Rightarrow> (Some (flagName @ '' '' @ quote (unicode e) path @ '': '' @ t), w)
       | (Inr info, w) \<Rightarrow>
           if fi_is_dir info then
             (Some (flagName @ '' '' @ quote (unicode e) path @ '': is a directory, not an executable file''), w)
           else if fi_mode info AND 0x49 = 0 then
             (Some (flagName @ '' '' @ quote (unicode e) path @ '': not executable''), w)
           else (None, w)))"

section \<open>Registration\<close>

definition refusing_new :: string where
  "refusing_new = ''daemon has already received an interruption signal; refusing new registrations''"

definition registered_job :: "Request \<Rightarrow> RegisterJob \<Rightarrow> time \<Rightarrow> Job" where
  "registered_job req r now =
     \<lparr>ID = [], PID = rj_PID r, PGID = rj_PGID r, CheckpointDir = rj_CheckpointDir r,
      Command = rj_Command r, WorkDir = rj_WorkDir r, HookCheckpoint = rj_HookCheckpoint r,
      HookResume = rj_HookResume r, Status = StatusRunning, FailureReason = [],
      Owner = rq_RequestedBy req, Tag = rj_Tag r, RegisteredAt = now, UpdatedAt = now\<rparr>"

definition handleRegister :: "Daemon \<Rightarrow> env \<Rightarrow> Request \<Rightarrow> world \<Rightarrow> Response \<times> world" where
  "handleRegister d e req w = (case rq_Job req of
     None \<Rightarrow> (resp_error ''missing job payload'', w)
   | Some r \<Rightarrow>
       if interrupted w then (resp_error refusing_new, w)
       else (case validateHookPath e ''hook-checkpoint'' (rj_HookCheckpoint r) w of
          (Some t, w) \<Rightarrow> (resp_error t, w)
        | (None, w) \<Rightarrow> (case validateHookPath e ''hook-resume'' (rj_HookResume r) w of
             (Some t, w) \<Rightarrow> (resp_error t, w)
           | (None, w) \<Rightarrow> (case now_utc e w of (now, w) \<Rightarrow>
               (case Store_Insert e (registered_job req r now) w of
                  (Inl err, w) \<Rightarrow> (resp_error (store_error_text (unicode e) err), w)
                | (Inr jid, w) \<Rightarrow>
                    (resp_ok\<lparr>rs_JobID := jid\<rparr>,
                     if rj_CheckpointDir r = []
                     then snd (Store_UpdateCheckpointDir e jid (Join [d_checkpointBaseDir d, jid]) w)
                     else w))))))"

definition adopted_job :: "Request \<Rightarrow> AdoptCheckpoint \<Rightarrow> time \<Rightarrow> Job" where
  "adopted_job req a now =
     \<lparr>ID = [], PID = 0, PGID = 0, CheckpointDir = ac_CheckpointDir a, Command = None, WorkDir = [],
      HookCheckpoint = ac_HookCheckpoint a, HookResume = ac_HookResume a,
      Status = StatusCheckpointCreated, FailureReason = [], Owner = rq_RequestedBy req,
      Tag = ac_Tag a, RegisteredAt = now, UpdatedAt = now\<rparr>"

definition already_tracked :: "unicode_tables \<Rightarrow> string \<Rightarrow> Job \<Rightarrow> string" where
  "already_tracked u dir ej = ''checkpoint-dir '' @ quote u dir @ '' is already tracked by active job '' @
     ID ej @ '' (status '' @ status_text (Status ej) @ ''); refusing duplicate adopt''"

definition handleAdopt :: "Daemon \<Rightarrow> env \<Rightarrow> Request \<Rightarrow> world \<Rightarrow> Response \<times> world" where
  "handleAdopt d e req w = (case rq_Adopt req of
     None \<Rightarrow> (resp_error ''missing adopt payload'', w)
   | Some a \<Rightarrow>
       if interrupted w then (resp_error refusing_new, w)
       else if ac_CheckpointDir a = [] then (resp_error ''checkpoint-dir is required for adopt'', w)
       else (case validateCheckpointDir e (ac_CheckpointDir a) (ac_HookResume a) w of
          (Some t, w) \<Rightarrow> (resp_error t, w)
        | (None, w) \<Rightarrow> (case validateHookPath e ''hook-checkpoint'' (ac_HookCheckpoint a) w of
             (Some t, w) \<Rightarrow> (resp_error t, w)
           | (None, w) \<Rightarrow> (case validateHookPath e ''hook-resume'' (ac_HookResume a) w of
                (Some t, w) \<Rightarrow> (resp_error t, w)
              | (None, w) \<Rightarrow> (case Store_List e w of
                   (Inl err, w) \<Rightarrow> (resp_error (store_error_text (unicode e) err), w)
                 | (Inr active, w) \<Rightarrow>
                     (case find (\<lambda>ej. CheckpointDir ej = ac_CheckpointDir a) active of
                        Some ej \<Rightarrow> (resp_error (already_tracked (unicode e) (ac_CheckpointDir a) ej), w)
                      | None \<Rightarrow> (case now_utc e w of (now, w) \<Rightarrow>
                          (case Store_Insert e (adopted_job req a now) w of
                             (Inl err, w) \<Rightarrow> (resp_error (store_error_text (unicode e) err), w)
                           | (Inr jid, w) \<Rightarrow> (resp_ok\<lparr>rs_JobID := jid\<rparr>, w)))))))))"

section \<open>Reading\<close>

definition no_such_job :: "string \<Rightarrow> string" where
  "no_such_job jid = ''no such job: '' @ jid"

definition handleList :: "env \<Rightarrow> world \<Rightarrow> Response \<times> world" where
  "handleList e w = (case Store_List e w of
     (Inl err, w) \<Rightarrow> (resp_error (store_error_text (unicode e) err), w)
   | (Inr jobs, w) \<Rightarrow> (resp_ok\<lparr>rs_Jobs := jobs\<rparr>, w))"

definition handleShow :: "env \<Rightarrow> Request \<Rightarrow> world \<Rightarrow> Response \<times> world" where
  "handleShow e req w =
     (if rq_JobID req = [] then (resp_error ''missing job_id'', w)
      else (case Store_Get e (rq_JobID req) w of
         (Inl _, w) \<Rightarrow> (resp_error (no_such_job (rq_JobID req)), w)
       | (Inr j, w) \<Rightarrow>
           if rq_IncludeHistory req then
             (case Store_History e (rq_JobID req) w of
                (Inl err, w) \<Rightarrow> (resp_error (store_error_text (unicode e) err), w)
              | (Inr hs, w) \<Rightarrow> (resp_ok\<lparr>rs_Job := Some j, rs_History := hs\<rparr>, w))
           else (resp_ok\<lparr>rs_Job := Some j\<rparr>, w)))"

section \<open>Checkpoint and resume\<close>

definition daemonActor :: string where
  "daemonActor = ''daemon''"

definition checkpointJob :: "Daemon \<Rightarrow> env \<Rightarrow> Job \<Rightarrow> string \<Rightarrow> world \<Rightarrow> string option \<times> world" where
  "checkpointJob d e j requestedBy w =
     (let w = snd (Store_UpdateStatus e (ID j) StatusCheckpointInProgress [] requestedBy w);
          w = logDaemon d e ''checkpoint_started'' (ID j) ''ok'' [] w
      in case d_checkpointFunc d e (CheckpointDir j) j w of
           (Some t, w) \<Rightarrow>
             (let w = snd (Store_UpdateStatus e (ID j) StatusCheckpointCreationFailed t requestedBy w);
                  w = logDaemon d e ''checkpoint_failed'' (ID j) ''error'' t w
              in (Some t, w))
         | (None, w) \<Rightarrow>
             (let w = snd (Store_UpdateStatus e (ID j) StatusCheckpointCreated [] requestedBy w);
                  w = logDaemon d e ''checkpoint_succeeded'' (ID j) ''ok'' [] w
              in (None, w)))"

definition resumeJob :: "Daemon \<Rightarrow> env \<Rightarrow> Job \<Rightarrow> string \<Rightarrow> world \<Rightarrow> string option \<times> world" where
  "resumeJob d e j requestedBy w =
     (let w = snd (Store_UpdateStatus e (ID j) StatusRestorePending [] requestedBy w);
          w = logDaemon d e ''restore_started'' (ID j) ''ok'' [] w
      in case d_resumeFunc d e (CheckpointDir j) (HookResume j) (ID j) w of
           (Inl t, w) \<Rightarrow>
             (let w = snd (Store_UpdateStatus e (ID j) StatusRestoreFailed t requestedBy w);
                  w = logDaemon d e ''restore_failed'' (ID j) ''error'' t w
              in (Some t, w))
         | (Inr pid, w) \<Rightarrow>
             (let w = snd (Store_UpdatePID e (ID j) pid pid requestedBy w);
                  w = logDaemon d e ''restore_succeeded'' (ID j) ''ok'' (''pid='' @ FormatInt pid) w
              in (None, w)))"

definition handlePause :: "Daemon \<Rightarrow> env \<Rightarrow> Request \<Rightarrow> world \<Rightarrow> Response \<times> world" where
  "handlePause d e req w =
     (if rq_JobID req = [] then (resp_error ''missing job_id'', w)
      else if interrupted w then
        (resp_error ''daemon has already received an interruption signal; automatic checkpointing is in progress, refusing manual pause'', w)
      else (case Store_Get e (rq_JobID req) w of
         (Inl _, w) \<Rightarrow> (resp_error (no_such_job (rq_JobID req)), w)
       | (Inr j, w) \<Rightarrow>
           if Status j \<noteq> StatusRunning then
             (resp_error (''refusing to pause job '' @ rq_JobID req @ '': status is '' @
                status_text (Status j) @ '', not '' @ status_text StatusRunning), w)
           else (case checkpointJob d e j (rq_RequestedBy req) w of
              (Some t, w) \<Rightarrow> (resp_error (''pause job '' @ rq_JobID req @ '': '' @ t), w)
            | (None, w) \<Rightarrow> (resp_ok\<lparr>rs_JobID := rq_JobID req, rs_Message := ''checkpoint created''\<rparr>, w))))"

definition handleResume :: "Daemon \<Rightarrow> env \<Rightarrow> Request \<Rightarrow> world \<Rightarrow> Response \<times> world" where
  "handleResume d e req w =
     (if rq_JobID req = [] then (resp_error ''missing job_id'', w)
      else (case Store_Get e (rq_JobID req) w of
         (Inl _, w) \<Rightarrow> (resp_error (no_such_job (rq_JobID req)), w)
       | (Inr j, w) \<Rightarrow>
           if Status j \<noteq> StatusCheckpointCreated \<and> Status j \<noteq> StatusRestoreFailed then
             (resp_error (''refusing to resume job '' @ rq_JobID req @ '': status is '' @
                status_text (Status j) @ '', not '' @ status_text StatusCheckpointCreated @ '' or '' @
                status_text StatusRestoreFailed), w)
           else (case resumeJob d e j (rq_RequestedBy req) w of
              (Some t, w) \<Rightarrow> (resp_error (''resume job '' @ rq_JobID req @ '': '' @ t), w)
            | (None, w) \<Rightarrow> (case Store_Get e (rq_JobID req) w of
                 (Inl err, w) \<Rightarrow> (resp_error (store_error_text (unicode e) err), w)
               | (Inr updated, w) \<Rightarrow>
                   (resp_ok\<lparr>rs_JobID := rq_JobID req,
                      rs_Message := ''resumed as pid '' @ FormatInt (PID updated)\<rparr>, w)))))"

section \<open>Ending a job\<close>

definition SIGTERM :: int where
  "SIGTERM = 15"

definition handleCancel :: "env \<Rightarrow> Request \<Rightarrow> world \<Rightarrow> Response \<times> world" where
  "handleCancel e req w =
     (if rq_JobID req = [] then (resp_error ''missing job_id'', w)
      else (case Store_Get e (rq_JobID req) w of
         (Inl _, w) \<Rightarrow> (resp_error (no_such_job (rq_JobID req)), w)
       | (Inr j, w) \<Rightarrow>
           (case (if Status j = StatusRunning then KillGroup e (PGID j) SIGTERM w else (None, w)) of
              (Some t, w) \<Rightarrow> (resp_error (''signal job '' @ rq_JobID req @ '': '' @ t), w)
            | (None, w) \<Rightarrow>
                (case Store_UpdateStatus e (rq_JobID req) StatusCanceled [] (rq_RequestedBy req) w of
                   (Some err, w) \<Rightarrow> (resp_error (store_error_text (unicode e) err), w)
                 | (None, w) \<Rightarrow> (resp_ok\<lparr>rs_JobID := rq_JobID req\<rparr>, w)))))"

definition handleComplete :: "env \<Rightarrow> Request \<Rightarrow> world \<Rightarrow> Response \<times> world" where
  "handleComplete e req w =
     (if rq_JobID req = [] then (resp_error ''missing job_id'', w)
      else (case Store_Get e (rq_JobID req) w of
         (Inl _, w) \<Rightarrow> (resp_error (no_such_job (rq_JobID req)), w)
       | (Inr j, w) \<Rightarrow>
           if Status j \<noteq> StatusRunning then
             (resp_ok\<lparr>rs_JobID := rq_JobID req,
                rs_Message := ''job already past RUNNING, ignoring stale completion report''\<rparr>, w)
           else if rq_ExitCode req = 0 then
             (case Store_UpdateStatus e (rq_JobID req) StatusCompleted [] (rq_RequestedBy req) w of
                (Some err, w) \<Rightarrow> (resp_error (store_error_text (unicode e) err), w)
              | (None, w) \<Rightarrow> (resp_ok\<lparr>rs_JobID := rq_JobID req\<rparr>, w))
           else (let reason = (if rq_ErrMsg req = [] then ''exited with code '' @ FormatInt (rq_ExitCode req)
                               else rq_ErrMsg req) in
             case Store_UpdateStatus e (rq_JobID req) StatusFailed reason (rq_RequestedBy req) w of
                (Some err, w) \<Rightarrow> (resp_error (store_error_text (unicode e) err), w)
              | (None, w) \<Rightarrow> (resp_ok\<lparr>rs_JobID := rq_JobID req\<rparr>, w))))"

section \<open>Pruning\<close>

text \<open>The loop over the terminal jobs: how many directories went, and the failures.\<close>

fun prune_jobs :: "env \<Rightarrow> Job list \<Rightarrow> world \<Rightarrow> nat \<times> string list \<times> world" where
  "prune_jobs e [] w = (0, [], w)"
| "prune_jobs e (j # js) w = (case os_RemoveAll e (CheckpointDir j) w of
     (Some t, w) \<Rightarrow> (case prune_jobs e js w of
        (n, fs, w) \<Rightarrow> (n, (ID j @ '': '' @ t) # fs, w))
   | (None, w) \<Rightarrow> (case prune_jobs e js w of (n, fs, w) \<Rightarrow> (Suc n, fs, w)))"

definition handlePrune :: "env \<Rightarrow> Request \<Rightarrow> world \<Rightarrow> Response \<times> world" where
  "handlePrune e req w =
     (if rq_JobID req \<noteq> [] then
        (case Store_Get e (rq_JobID req) w of
           (Inl _, w) \<Rightarrow> (resp_error (no_such_job (rq_JobID req)), w)
         | (Inr j, w) \<Rightarrow>
             if \<not> IsTerminal (Status j) then
               (resp_error (''job '' @ rq_JobID req @ '' is not terminal (status '' @
                  status_text (Status j) @ ''), refusing to prune''), w)
             else (case os_RemoveAll e (CheckpointDir j) w of
                (Some t, w) \<Rightarrow> (resp_error (''prune job '' @ rq_JobID req @ '': '' @ t), w)
              | (None, w) \<Rightarrow> (resp_ok\<lparr>rs_JobID := rq_JobID req, rs_Message := ''pruned''\<rparr>, w)))
      else (case Store_ListTerminal e w of
         (Inl err, w) \<Rightarrow> (resp_error (store_error_text (unicode e) err), w)
       | (Inr jobs, w) \<Rightarrow> (case prune_jobs e jobs w of
            (pruned, failures, w) \<Rightarrow>
              (resp_ok\<lparr>rs_Message := ''pruned '' @ FormatInt (int pruned) @ '' job(s)'',
                 rs_Failures := failures\<rparr>, w))))"

section \<open>Dispatch\<close>

definition dispatch :: "Daemon \<Rightarrow> env \<Rightarrow> Request \<Rightarrow> world \<Rightarrow> Response \<times> world" where
  "dispatch d e req w =
     (if rq_Action req = ''ping'' then (resp_ok, w)
      else if rq_Action req = ''register'' then handleRegister d e req w
      else if rq_Action req = ''list'' then handleList e w
      else if rq_Action req = ''show'' then handleShow e req w
      else if rq_Action req = ''pause'' then handlePause d e req w
      else if rq_Action req = ''resume'' then handleResume d e req w
      else if rq_Action req = ''cancel'' then handleCancel e req w
      else if rq_Action req = ''complete'' then handleComplete e req w
      else if rq_Action req = ''prune'' then handlePrune e req w
      else if rq_Action req = ''adopt'' then handleAdopt d e req w
      else (resp_error (''unknown action '' @ quote (unicode e) (rq_Action req)), w))"

section \<open>Interruption\<close>

record Signal =
  sig_Trigger :: string
  sig_Detail :: "string \<rightharpoonup> string"

text \<open>
  \<open>notify\<close> builds the payload at once and delivers it in a goroutine of its own:
  \<open>notify_build\<close> is the first part, \<open>notify_deliver\<close> the goroutine. A clock outside the years
  JSON can express makes the payload fail.
\<close>

definition notify_build :: "Daemon \<Rightarrow> env \<Rightarrow> Signal \<Rightarrow> Job list \<Rightarrow> world \<Rightarrow> notify_payload option \<times> world" where
  "notify_build d e sig runnable w =
     (if \<not> d_has_notifier d then (None, w)
      else (case now_utc e w of (now, w) \<Rightarrow>
         (if rfc3339_nano now = None then None
          else Some \<lparr>np_Trigger = sig_Trigger sig, np_DetectedAt = now, np_Detail = sig_Detail sig,
             np_Jobs = map (\<lambda>j. \<lparr>js_ID = ID j, js_Status = Status j, js_PID = PID j\<rparr>) runnable\<rparr>, w)))"

definition notify_deliver :: "Daemon \<Rightarrow> env \<Rightarrow> notify_payload \<Rightarrow> world \<Rightarrow> world" where
  "notify_deliver d e payload w =
     (let w = logDaemon d e ''notify_started'' [] ''ok'' (np_Trigger payload) w;
          res = notify_target e (calls w) payload;
          w = record_call (NotifyCall payload) w
      in case res of
           Some t \<Rightarrow> logDaemon d e ''notify_failed'' [] ''error'' t w
         | None \<Rightarrow> logDaemon d e ''notify_succeeded'' [] ''ok'' [] w)"

text \<open>
  \<open>handleInterruption\<close> up to its fan-out: the latch, the audit entry, the jobs to checkpoint
  and the notification to deliver.
\<close>

definition interruption_start ::
  "Daemon \<Rightarrow> env \<Rightarrow> Signal \<Rightarrow> world \<Rightarrow> (Job list \<times> notify_payload option) \<times> world" where
  "interruption_start d e sig w =
     (let w = w\<lparr>interrupted := True\<rparr>;
          w = logDaemon d e ''interruption_detected'' [] ''ok'' (sig_Trigger sig) w
      in case Store_List e w of
           (Inl _, w) \<Rightarrow> (([], None), w)
         | (Inr jobs, w) \<Rightarrow>
             (let runnable = filter (\<lambda>j. Status j = StatusRunning) jobs in
              case notify_build d e sig runnable w of (payload, w) \<Rightarrow> ((runnable, payload), w)))"

text \<open>
  \<open>handleInterruption\<close> as one function: the notification goes out at once, and the jobs are
  checkpointed one after the other, which is what a maximum of one does.
\<close>

definition handleInterruption :: "Daemon \<Rightarrow> env \<Rightarrow> Signal \<Rightarrow> world \<Rightarrow> world" where
  "handleInterruption d e sig w = (case interruption_start d e sig w of ((runnable, payload), w) \<Rightarrow>
     (let w = (case payload of None \<Rightarrow> w | Some p \<Rightarrow> notify_deliver d e p w)
      in fold (\<lambda>j w. snd (checkpointJob d e j daemonActor w)) runnable w))"

end
