(* ===== verification/DaemonInv.thy ===== *)
theory DaemonInv
  imports Daemon StoreProps
begin

text \<open>
  What the handlers do to the database, as a whole: every handler makes it evolve by
  inserts, legal transitions and directory updates only (\<open>evolves\<close>), so the daemon as a
  state machine satisfies the lifecycle contract of the store. Also the frames: what each
  handler leaves alone.
\<close>

section \<open>Evolution of the database\<close>

inductive db_step :: "Status list \<Rightarrow> database \<Rightarrow> database \<Rightarrow> bool" for S where
  insert: "Status j \<in> set S \<Longrightarrow> is_named (Status j) \<Longrightarrow> jobs_seq d < int64_max \<Longrightarrow>
    db_step S d (insert_job_row e j d)"
| transition: "select_row row_id n (jobs_rows d) = Some r \<Longrightarrow> a = status_of_text (row_status r) \<Longrightarrow>
    ValidTransition a b \<Longrightarrow> (\<And>r. row_id (f r) = row_id r) \<Longrightarrow>
    (\<And>r. row_command (f r) = row_command r) \<Longrightarrow> (\<And>r. row_status (f r) = status_text b) \<Longrightarrow>
    db_step S d (committed n f a b by_whom now d)"
| directory: "db_step S d (update_jobs n (\<lambda>r. r\<lparr>row_checkpoint_dir := dir, row_updated_at := now\<rparr>) d)"

lemma db_step_wf: "db_step S d d' \<Longrightarrow> store_wf S d \<Longrightarrow> store_wf S d'"
  by (induction rule: db_step.induct) (simp_all add: insert_job_row_wf committed_wf update_jobs_wf)

lemma db_step_status:
  assumes "db_step S d d'" and "store_wf S d"
  shows "status_moved (status_at d) (status_at d')"
  using assms
proof (induction rule: db_step.induct)
  case (insert j d)
  have "status_at d (jobs_seq d + 1) = None"
    using fresh_id [OF insert.prems] by (simp add: status_at_def select_row_None_iff)
  then show ?case
    using status_at_insert [OF insert.hyps(2) fresh_id [OF insert.prems]] status_moved_new
    by (simp del: fun_upd_apply)
next
  case (transition n d r a b f by_whom now)
  have "status_at (committed n f a b by_whom now d) = (status_at d)(n \<mapsto> b)"
    using transition ValidTransition_named(2) by (intro status_at_committed) auto
  moreover have "status_at d n = Some a" using transition by (simp add: status_at_def)
  ultimately show ?case using transition.hyps(3) status_moved_step by (simp del: fun_upd_apply)
next
  case (directory d n dir now)
  show ?case by (simp add: status_at_update_jobs)
qed

abbreviation evolves :: "Status list \<Rightarrow> database \<Rightarrow> database \<Rightarrow> bool" where
  "evolves S \<equiv> (db_step S)\<^sup>*\<^sup>*"

interpretation db_life: lifecycle "db_step S" status_at "store_wf S" for S
proof
  show "store_wf S t" if "db_step S s t" "store_wf S s" for s t using that by (rule db_step_wf)
  show "\<exists>b. status_at t n = Some b \<and> status_step\<^sup>*\<^sup>* a b"
    if "db_step S s t" "store_wf S s" "status_at s n = Some a" for s t n a
    using status_moved_at [OF db_step_status [OF that(1,2)] that(3)]
    by (auto simp: ValidTransition_iff_step)
qed

section \<open>The store's methods evolve the database\<close>

lemma Store_Insert_evolves:
  assumes "Status j \<in> set S" and "is_named (Status j)"
  shows "evolves S (db w) (db (snd (Store_Insert e j w)))"
  using Store_Insert_cases [of e j w "fst (Store_Insert e j w)" "snd (Store_Insert e j w)"]
    db_step.insert [OF assms, of "db w"] by auto

lemma Store_UpdateStatus_evolves:
  "evolves S (db w) (db (snd (Store_UpdateStatus e jid to_st why by_whom w)))"
proof (cases "Store_UpdateStatus e jid to_st why by_whom w")
  case (Pair res w')
  show ?thesis
  proof (cases res)
    case None
    with Pair have "Store_UpdateStatus e jid to_st why by_whom w = (None, w')" by simp
    then show ?thesis
      by (rule Store_UpdateStatus_None) (auto simp: Pair intro!: r_into_rtranclp db_step.transition)
  next
    case (Some err)
    with Pair Store_UpdateStatus_Some show ?thesis by simp
  qed
qed

lemma Store_UpdatePID_evolves:
  "evolves S (db w) (db (snd (Store_UpdatePID e jid pid pgid by_whom w)))"
proof (cases "Store_UpdatePID e jid pid pgid by_whom w")
  case (Pair res w')
  show ?thesis
  proof (cases res)
    case None
    with Pair have "Store_UpdatePID e jid pid pgid by_whom w = (None, w')" by simp
    then show ?thesis
      by (rule Store_UpdatePID_None) (auto simp: Pair intro!: r_into_rtranclp db_step.transition)
  next
    case (Some err)
    with Pair Store_UpdatePID_Some show ?thesis by simp
  qed
qed

lemma Store_UpdateCheckpointDir_evolves:
  "evolves S (db w) (db (snd (Store_UpdateCheckpointDir e jid dir w)))"
proof (cases "Store_UpdateCheckpointDir e jid dir w")
  case (Pair res w')
  have "evolves S (db w) (update_jobs n (\<lambda>r. r\<lparr>row_checkpoint_dir := dir, row_updated_at := now\<rparr>) (db w))"
    for n now by (rule r_into_rtranclp) (rule db_step.directory)
  with Store_UpdateCheckpointDir_cases [OF Pair] Pair show ?thesis by auto
qed

section \<open>Frames of the daemon's helpers\<close>

lemma logDaemon_frame [simp]:
  "db (logDaemon d e a j out det w) = db w" "interrupted (logDaemon d e a j out det w) = interrupted w"
  by (simp_all add: logDaemon_def)

lemma logDaemon_calls:
  "\<exists>cs. calls (logDaemon d e a j out det w) = cs @ calls w \<and> list_all is_audit_call cs"
  using Logger_Log_calls by (simp add: logDaemon_def)

lemma validateHookPath_db [simp]:
  "db (snd (validateHookPath e f p w)) = db w" "interrupted (snd (validateHookPath e f p w)) = interrupted w"
  by (auto simp: validateHookPath_def os_Stat_def split: store_splits)

lemma validateCheckpointDir_db [simp]:
  "db (snd (validateCheckpointDir e p h w)) = db w"
  "interrupted (snd (validateCheckpointDir e p h w)) = interrupted w"
  by (auto simp: validateCheckpointDir_def os_Stat_def split: store_splits)

lemma os_RemoveAll_db [simp]:
  "db (snd (os_RemoveAll e p w)) = db w" "interrupted (snd (os_RemoveAll e p w)) = interrupted w"
  by (auto simp: os_RemoveAll_def)

lemma prune_jobs_eq:
  "prune_jobs e js w = (n, fs, w') \<Longrightarrow> db w' = db w \<and> interrupted w' = interrupted w"
proof (induction js arbitrary: w n fs)
  case (Cons j js)
  obtain r w1 where w1: "os_RemoveAll e (CheckpointDir j) w = (r, w1)" by (cases "os_RemoveAll e (CheckpointDir j) w")
  obtain m gs w2 where "prune_jobs e js w1 = (m, gs, w2)" by (cases "prune_jobs e js w1")
  with Cons w1 os_RemoveAll_db [of e "CheckpointDir j" w] show ?case by (auto split: option.splits)
qed simp

section \<open>The daemon's job functions meet their contract\<close>

definition runner_ok :: "Daemon \<Rightarrow> bool" where
  "runner_ok d \<longleftrightarrow> job_runner (d_checkpointFunc d) (d_resumeFunc d)"

lemma New_runner_ok [simp]: "runner_ok (daemon_New numCPU cfg)"
  by (simp add: runner_ok_def daemon_New_def real_runner.job_runner_axioms)

lemma runner_db:
  assumes "runner_ok d"
  shows "d_checkpointFunc d e dir j w = (r, w') \<Longrightarrow> db w' = db w \<and> interrupted w' = interrupted w"
    and "d_resumeFunc d e dir hook jid w = (q, w') \<Longrightarrow> db w' = db w \<and> interrupted w' = interrupted w"
proof -
  have run: "job_runner (d_checkpointFunc d) (d_resumeFunc d)" using assms by (simp add: runner_ok_def)
  show "d_checkpointFunc d e dir j w = (r, w') \<Longrightarrow> db w' = db w \<and> interrupted w' = interrupted w"
    using job_runner.checkpoint_db [OF run, of e dir j w]
      frameD(2) [OF job_runner.checkpoint_frame [OF run, of w e dir j]] by simp
  show "d_resumeFunc d e dir hook jid w = (q, w') \<Longrightarrow> db w' = db w \<and> interrupted w' = interrupted w"
    using job_runner.resume_db [OF run, of e dir hook jid w]
      frameD(2) [OF job_runner.resume_frame [OF run, of w e dir hook jid]] by simp
qed

section \<open>Every handler evolves the database and keeps the latch\<close>

text \<open>
  \<open>safe S w w'\<close>: from \<open>w\<close> to \<open>w'\<close> the database has evolved and the latch is as it was.
\<close>

definition safe :: "Status list \<Rightarrow> world \<Rightarrow> world \<Rightarrow> bool" where
  "safe S w w' \<longleftrightarrow> evolves S (db w) (db w') \<and> interrupted w' = interrupted w"

lemma safe_refl [simp]: "safe S w w"
  by (simp add: safe_def)

lemma safe_trans: "safe S w w' \<Longrightarrow> safe S w' w'' \<Longrightarrow> safe S w w''"
  unfolding safe_def by auto

lemma safe_quiet: "db w' = db w \<Longrightarrow> interrupted w' = interrupted w \<Longrightarrow> safe S w w'"
  by (simp add: safe_def)

lemma safe_record [simp]:
  "safe S w (record_call c w') \<longleftrightarrow> safe S w w'" "safe S (record_call c w) w' \<longleftrightarrow> safe S w w'"
  by (simp_all add: safe_def)

lemma safe_log [simp]: "safe S w (logDaemon d e a j out det w') \<longleftrightarrow> safe S w w'"
  by (simp add: safe_def)

lemma safe_store:
  "safe S w (snd (Store_Get e jid w))" "safe S w (snd (Store_List e w))"
  "safe S w (snd (Store_ListTerminal e w))" "safe S w (snd (Store_History e jid w))"
  "safe S w (snd (Store_UpdateStatus e jid to_st why by_whom w))"
  "safe S w (snd (Store_UpdatePID e jid pid pgid by_whom w))"
  "safe S w (snd (Store_UpdateCheckpointDir e jid dir w))"
  "Status j \<in> set S \<Longrightarrow> is_named (Status j) \<Longrightarrow> safe S w (snd (Store_Insert e j w))"
  by (simp_all add: safe_def Store_UpdateStatus_evolves Store_UpdatePID_evolves
      Store_UpdateCheckpointDir_evolves Store_Insert_evolves
      frameD(2) [OF Store_Get_frame] frameD(2) [OF Store_List_frame] frameD(2) [OF Store_ListTerminal_frame]
      frameD(2) [OF Store_History_frame] frameD(2) [OF Store_UpdateStatus_frame]
      frameD(2) [OF Store_UpdatePID_frame] frameD(2) [OF Store_UpdateCheckpointDir_frame]
      frameD(2) [OF Store_Insert_frame])

lemma safe_helpers:
  "safe S w (snd (validateHookPath e f p w))" "safe S w (snd (validateCheckpointDir e p h w))"
  "safe S w (snd (os_RemoveAll e p w))" "safe S w (snd (KillGroup e pid sig w))"
  by (simp_all add: safe_def frameD(2) [OF KillGroup_frame])

lemma safe_runner:
  "runner_ok d \<Longrightarrow> safe S w (snd (d_checkpointFunc d e dir j w))"
  "runner_ok d \<Longrightarrow> safe S w (snd (d_resumeFunc d e dir hook jid w))"
  by (metis prod.collapse runner_db(1) safe_quiet, metis prod.collapse runner_db(2) safe_quiet)

text \<open>For a call whose result is named.\<close>

lemma safe_eq: "safe S w (snd m) \<Longrightarrow> m = (r, w') \<Longrightarrow> safe S w w'"
  by simp

lemma checkpointJob_safe:
  assumes "runner_ok d" shows "safe S w (snd (checkpointJob d e j by_whom w))"
proof -
  let ?w1 = "logDaemon d e ''checkpoint_started'' (ID j) ''ok'' []
    (snd (Store_UpdateStatus e (ID j) StatusCheckpointInProgress [] by_whom w))"
  obtain r w2 where w2: "d_checkpointFunc d e (CheckpointDir j) j ?w1 = (r, w2)" by fastforce
  have "safe S w ?w1" by (simp add: safe_store)
  also have "safe S ?w1 w2" using safe_runner(1) [OF assms, of S ?w1 e "CheckpointDir j" j] w2 by simp
  finally (safe_trans) have 1: "safe S w w2" .
  have "safe S w (snd (Store_UpdateStatus e (ID j) b t by_whom w2))" for b t
    using 1 safe_store(5) by (rule safe_trans)
  then show ?thesis by (cases r) (simp_all add: checkpointJob_def Let_def w2)
qed

lemma resumeJob_safe:
  assumes "runner_ok d" shows "safe S w (snd (resumeJob d e j by_whom w))"
proof -
  let ?w1 = "logDaemon d e ''restore_started'' (ID j) ''ok'' []
    (snd (Store_UpdateStatus e (ID j) StatusRestorePending [] by_whom w))"
  obtain r w2 where w2: "d_resumeFunc d e (CheckpointDir j) (HookResume j) (ID j) ?w1 = (r, w2)" by fastforce
  have "safe S w ?w1" by (simp add: safe_store)
  also have "safe S ?w1 w2"
    using safe_runner(2) [OF assms, of S ?w1 e "CheckpointDir j" "HookResume j" "ID j"] w2 by simp
  finally (safe_trans) have 1: "safe S w w2" .
  have "safe S w (snd (Store_UpdateStatus e (ID j) b t by_whom w2))"
      "safe S w (snd (Store_UpdatePID e (ID j) p q by_whom w2))" for b t p q
    using 1 safe_store(5,6) by (blast intro: safe_trans)+
  then show ?thesis by (cases r) (simp_all add: resumeJob_def Let_def w2)
qed

lemmas safe_eqs = safe_store [THEN safe_eq] safe_helpers [THEN safe_eq]
  checkpointJob_safe [THEN safe_eq] resumeJob_safe [THEN safe_eq]

lemma handleRegister_safe: "safe start_statuses w (snd (handleRegister d e req w))"
proof (cases "rq_Job req")
  case (Some r)
  obtain v1 w1 where 1: "validateHookPath e ''hook-checkpoint'' (rj_HookCheckpoint r) w = (v1, w1)" by fastforce
  obtain v2 w2 where 2: "validateHookPath e ''hook-resume'' (rj_HookResume r) w1 = (v2, w2)" by fastforce
  let ?j = "registered_job req r (clock e (calls w2))" and ?w2 = "record_call NowCall w2"
  obtain i w3 where 3: "Store_Insert e ?j ?w2 = (i, w3)" by fastforce
  have s1: "safe start_statuses w w1" using 1 by (rule safe_eqs)
  moreover have "safe start_statuses w1 w2" using 2 by (rule safe_eqs)
  ultimately have s2: "safe start_statuses w w2" by (rule safe_trans)
  moreover have "safe start_statuses ?w2 w3"
    using safe_store(8) [of ?j start_statuses ?w2 e] 3 by (simp add: registered_job_def)
  ultimately have s3: "safe start_statuses w w3" by (simp add: safe_trans [of _ w w2])
  then have "safe start_statuses w (snd (Store_UpdateCheckpointDir e jid dir w3))" for jid dir
    using safe_store(7) by (blast intro: safe_trans)
  with s1 s2 s3 show ?thesis
    by (auto simp: handleRegister_def Some 1 2 3 now_utc_def split: option.splits sum.splits)
qed (simp add: handleRegister_def)

lemma handleAdopt_safe: "safe start_statuses w (snd (handleAdopt d e req w))"
proof (cases "rq_Adopt req")
  case (Some a)
  obtain v0 w0 where 0: "validateCheckpointDir e (ac_CheckpointDir a) (ac_HookResume a) w = (v0, w0)" by fastforce
  obtain v1 w1 where 1: "validateHookPath e ''hook-checkpoint'' (ac_HookCheckpoint a) w0 = (v1, w1)" by fastforce
  obtain v2 w2 where 2: "validateHookPath e ''hook-resume'' (ac_HookResume a) w1 = (v2, w2)" by fastforce
  obtain l w3 where 3: "Store_List e w2 = (l, w3)" by fastforce
  let ?j = "adopted_job req a (clock e (calls w3))" and ?w3 = "record_call NowCall w3"
  obtain i w4 where 4: "Store_Insert e ?j ?w3 = (i, w4)" by fastforce
  have s0: "safe start_statuses w w0" using 0 by (rule safe_eqs)
  moreover have "safe start_statuses w0 w1" using 1 by (rule safe_eqs)
  ultimately have s1: "safe start_statuses w w1" by (rule safe_trans)
  moreover have "safe start_statuses w1 w2" using 2 by (rule safe_eqs)
  ultimately have s2: "safe start_statuses w w2" by (rule safe_trans)
  moreover have "safe start_statuses w2 w3" using 3 by (rule safe_eqs)
  ultimately have s3: "safe start_statuses w w3" by (rule safe_trans)
  moreover have "safe start_statuses ?w3 w4"
    using safe_store(8) [of ?j start_statuses ?w3 e] 4 by (simp add: adopted_job_def)
  ultimately have s4: "safe start_statuses w w4" by (simp add: safe_trans [of _ w w3])
  from s0 s1 s2 s3 s4 show ?thesis
    by (auto simp: handleAdopt_def Some 0 1 2 3 4 now_utc_def split: option.splits sum.splits)
qed (simp add: handleAdopt_def)

lemma handleList_safe: "safe S w (snd (handleList e w))"
  by (auto simp: handleList_def split: prod.splits sum.splits intro: safe_eqs)

lemma handleShow_safe: "safe S w (snd (handleShow e req w))"
  by (auto simp: handleShow_def split: prod.splits sum.splits intro: safe_eqs
      safe_trans [OF safe_eqs(1) safe_eqs(4)])

lemma handlePause_safe: "runner_ok d \<Longrightarrow> safe S w (snd (handlePause d e req w))"
  by (auto simp: handlePause_def split: prod.splits sum.splits option.splits intro: safe_eqs
      safe_trans [OF safe_eqs(1) checkpointJob_safe [THEN safe_eq]])

lemma handleResume_safe:
  assumes "runner_ok d" shows "safe S w (snd (handleResume d e req w))"
proof -
  obtain g w1 where 1: "Store_Get e (rq_JobID req) w = (g, w1)" by fastforce
  show ?thesis
  proof (cases g)
    case (Inr j)
    obtain r w2 where 2: "resumeJob d e j (rq_RequestedBy req) w1 = (r, w2)" by fastforce
    obtain g' w3 where 3: "Store_Get e (rq_JobID req) w2 = (g', w3)" by fastforce
    have s1: "safe S w w1" using 1 by (rule safe_eqs)
    moreover have "safe S w1 w2" using assms 2 by (rule safe_eqs)
    ultimately have s2: "safe S w w2" by (rule safe_trans)
    moreover have "safe S w2 w3" using 3 by (rule safe_eqs)
    ultimately have s3: "safe S w w3" by (rule safe_trans)
    from s1 s2 s3 show ?thesis
      by (auto simp: handleResume_def 1 2 3 Inr split: option.splits sum.splits)
  qed (auto simp: handleResume_def 1 intro: safe_eqs 1)
qed

lemma handleCancel_safe: "safe S w (snd (handleCancel e req w))"
proof -
  obtain g w1 where 1: "Store_Get e (rq_JobID req) w = (g, w1)" by fastforce
  have s1: "safe S w w1" using 1 by (rule safe_eqs)
  show ?thesis
  proof (cases g)
    case (Inr j)
    obtain r w2 where 2: "(if Status j = StatusRunning then KillGroup e (PGID j) SIGTERM w1 else (None, w1)) = (r, w2)"
      by fastforce
    obtain u w3 where 3: "Store_UpdateStatus e (rq_JobID req) StatusCanceled [] (rq_RequestedBy req) w2 = (u, w3)"
      by fastforce
    have "safe S w1 w2" using 2 safe_helpers(4) [of S w1] by (auto split: if_splits dest: safe_eq [rotated])
    with s1 have s2: "safe S w w2" by (rule safe_trans)
    moreover have "safe S w2 w3" using 3 by (rule safe_eqs)
    ultimately have "safe S w w3" by (rule safe_trans)
    with s1 s2 show ?thesis
      by (auto simp: handleCancel_def 1 2 3 Inr split: option.splits)
  qed (use s1 in \<open>auto simp: handleCancel_def 1\<close>)
qed

lemma handleComplete_safe: "safe S w (snd (handleComplete e req w))"
proof -
  obtain g w1 where 1: "Store_Get e (rq_JobID req) w = (g, w1)" by fastforce
  have s1: "safe S w w1" using 1 by (rule safe_eqs)
  have up: "safe S w (snd (Store_UpdateStatus e jid b t by_whom w1))" for jid b t by_whom
    using s1 safe_store(5) by (rule safe_trans)
  have "safe S w w2" if "Store_UpdateStatus e jid b t by_whom w1 = (r, w2)" for jid b t by_whom r w2
    using up that by (metis snd_conv)
  with s1 show ?thesis
    by (auto simp: handleComplete_def 1 Let_def split: prod.splits option.splits sum.splits)
qed

lemma handlePrune_db: "db (snd (handlePrune e req w)) = db w"
  and handlePrune_interrupted: "interrupted (snd (handlePrune e req w)) = interrupted w"
proof -
  have get: "db w' = db v \<and> interrupted w' = interrupted v" if "Store_Get e jid v = (g, w')" for jid g v w'
    using that Store_Get_db [of e jid v] frameD(2) [OF Store_Get_frame [of v e jid]] by simp
  have lst: "db w' = db v \<and> interrupted w' = interrupted v" if "Store_ListTerminal e v = (g, w')" for g v w'
    using that Store_ListTerminal_db [of e v] frameD(2) [OF Store_ListTerminal_frame [of v e]] by simp
  have rem: "db w' = db v \<and> interrupted w' = interrupted v" if "os_RemoveAll e p v = (g, w')" for p g v w'
    using that os_RemoveAll_db [of e p v] by simp
  have "db (snd (handlePrune e req w)) = db w \<and> interrupted (snd (handlePrune e req w)) = interrupted w"
    unfolding handlePrune_def
    by (auto split: prod.splits sum.splits option.splits dest!: get lst rem prune_jobs_eq)
  then show "db (snd (handlePrune e req w)) = db w" "interrupted (snd (handlePrune e req w)) = interrupted w"
    by simp_all
qed

lemma dispatch_safe:
  assumes "runner_ok d" shows "safe start_statuses w (snd (dispatch d e req w))"
  using assms
  by (simp add: dispatch_def handleRegister_safe handleAdopt_safe handleList_safe handleShow_safe
      handlePause_safe handleResume_safe handleCancel_safe handleComplete_safe
      safe_quiet [OF handlePrune_db handlePrune_interrupted])

end
