(* ===== verification/DaemonProps.thy ===== *)
theory DaemonProps
  imports DaemonInv
begin

text \<open>
  The daemon that serves one request or signal after the other, each to its end: the lifecycle
  contract, and the interruption latch. What holds when they overlap is in theory
  \<open>ConcurrentProps\<close>.
\<close>

section \<open>The daemon as a state machine\<close>

text \<open>
  One step: a request is served, a signal is taken in, a job is checkpointed on behalf of
  a signal, or a notification goes out. Each step runs to its end before the next.
\<close>

inductive daemon_step :: "Daemon \<Rightarrow> env \<Rightarrow> world \<Rightarrow> world \<Rightarrow> bool" for d e where
  request: "daemon_step d e w (snd (dispatch d e req w))"
| signal: "daemon_step d e w (snd (interruption_start d e sig w))"
| auto_checkpoint: "daemon_step d e w (snd (checkpointJob d e j daemonActor w))"
| delivery: "daemon_step d e w (notify_deliver d e payload w)"

lemma notify_build_frame [simp]:
  "db (snd (notify_build d e sig js w)) = db w"
  "interrupted (snd (notify_build d e sig js w)) = interrupted w"
  by (simp_all add: notify_build_def now_utc_def)

lemma notify_deliver_frame [simp]:
  "db (notify_deliver d e payload w) = db w"
  "interrupted (notify_deliver d e payload w) = interrupted w"
  by (simp_all add: notify_deliver_def Let_def split: option.splits)

lemma interruption_start_frame [simp]:
  "db (snd (interruption_start d e sig w)) = db w"
  "interrupted (snd (interruption_start d e sig w))"
proof -
  let ?w = "logDaemon d e ''interruption_detected'' [] ''ok'' (sig_Trigger sig) (w\<lparr>interrupted := True\<rparr>)"
  obtain l w1 where l: "Store_List e ?w = (l, w1)" by fastforce
  have "db w1 = db w" "interrupted w1"
    using Store_List_db [of e ?w] frameD(2) [OF Store_List_frame [of ?w e]] l by simp_all
  moreover have "db w2 = db w1 \<and> interrupted w2 = interrupted w1"
    if "notify_build d e sig js w1 = (p, w2)" for js p w2
    using that notify_build_frame [of d e sig js w1] by simp
  ultimately show "db (snd (interruption_start d e sig w)) = db w"
      "interrupted (snd (interruption_start d e sig w))"
    by (auto simp: interruption_start_def Let_def l split: sum.splits prod.splits)
qed

lemma daemon_step_evolves:
  assumes "daemon_step d e w w'" and "runner_ok d"
  shows "evolves start_statuses (db w) (db w')"
  using assms
  by (induction rule: daemon_step.induct)
    (use dispatch_safe checkpointJob_safe in \<open>auto simp: safe_def\<close>)

interpretation daemon_life: lifecycle "daemon_step (daemon_New numCPU cfg) e" "\<lambda>w. status_at (db w)"
  "\<lambda>w. store_wf start_statuses (db w)" for numCPU cfg e
proof
  show "store_wf start_statuses (db t)"
    if "daemon_step (daemon_New numCPU cfg) e s t" "store_wf start_statuses (db s)" for s t
    using db_life.run_invar [OF daemon_step_evolves [OF that(1)]] that(2) by simp
  show "\<exists>b. status_at (db t) n = Some b \<and> status_step\<^sup>*\<^sup>* a b"
    if "daemon_step (daemon_New numCPU cfg) e s t" "store_wf start_statuses (db s)"
      "status_at (db s) n = Some a" for s t n a
    using db_life.run_status [OF daemon_step_evolves [OF that(1)]] that(2,3) by simp
qed

definition sample_daemon_config :: DaemonConfig where
  "sample_daemon_config = \<lparr>cfg_HasAudit = True, cfg_HasNotifier = False, cfg_CheckpointBaseDir = ''/ckpt'',
     cfg_MaxConcurrentCheckpoints = 0, cfg_SocketGroup = []\<rparr>"

abbreviation sample_daemon :: Daemon where
  "sample_daemon \<equiv> daemon_New 4 sample_daemon_config"

definition request0 :: Request where
  "request0 = \<lparr>rq_Action = [], rq_Job = None, rq_Adopt = None, rq_JobID = [], rq_RequestedBy = ''bob'',
     rq_IncludeHistory = False, rq_ExitCode = 0, rq_ErrMsg = []\<rparr>"

text \<open>
  A job that has failed, completed or been canceled stays that way, as long as the daemon serves
  one request at a time.
\<close>

theorem daemon_terminal_forever:
  assumes "(daemon_step (daemon_New numCPU cfg) e)\<^sup>*\<^sup>* w w'" and "store_wf start_statuses (db w)"
    and "status_at (db w) n = Some a" and "IsTerminal a"
  shows "status_at (db w') n = Some a"
  using assms by (rule daemon_life.terminal_stays)

lemma world_canceled_facts:
  "status_at (db world_canceled) 1 = Some StatusCanceled" "store_wf start_statuses (db world_canceled)"
proof -
  have id1: "parseID ''1'' = Inr 1" by (simp add: parseID_def ParseInt_eval)
  have "ValidTransition StatusRunning StatusCanceled" by simp
  from Store_UpdateStatus_commits [OF sql_ok_quiet world_one_job_wf id1 world_one_job_status this]
  obtain w' where w': "Store_UpdateStatus quiet_env ''1'' StatusCanceled [] ''bob'' world_one_job = (None, w')" .
  then show "status_at (db world_canceled) 1 = Some StatusCanceled"
    by (rule Store_UpdateStatus_status) (simp add: id1 world_canceled_def w')
  show "store_wf start_statuses (db world_canceled)"
    unfolding world_canceled_def by (rule Store_UpdateStatus_wf) simp
qed

theorem daemon_terminal_forever_witness:
  "status_at (db (snd (dispatch sample_daemon quiet_env
     (request0\<lparr>rq_Action := ''resume'', rq_JobID := ''1''\<rparr>) world_canceled))) 1 = Some StatusCanceled"
  by (rule daemon_terminal_forever [OF r_into_rtranclp [of "daemon_step sample_daemon quiet_env", OF request]
        world_canceled_facts(2,1)]) simp

section \<open>The interruption latch\<close>

text \<open>What the three handlers that check the latch do once it is set.\<close>

lemma handlers_refuse:
  assumes "interrupted w"
  shows "\<not> rs_OK (fst (handleRegister d e req w)) \<and> snd (handleRegister d e req w) = w"
    and "\<not> rs_OK (fst (handleAdopt d e req w)) \<and> snd (handleAdopt d e req w) = w"
    and "\<not> rs_OK (fst (handlePause d e req w)) \<and> snd (handlePause d e req w) = w"
  using assms by (simp_all add: handleRegister_def handleAdopt_def handlePause_def resp_error_def
      response0_def split: option.splits)

end
