(* ===== verification/DaemonHandlers.thy ===== *)
theory DaemonHandlers
  imports DaemonProps
begin

text \<open>
  What each handler does on each branch. Statements about success assume a database that
  works; statements about refusals and about what is never touched hold for every
  environment.
\<close>

section \<open>Reading and moving one job\<close>

lemma parseID_nonempty: "parseID jid = Inr n \<Longrightarrow> jid \<noteq> []"
  by (auto simp: parseID_def ParseInt_empty)

lemma get_job:
  assumes "sql_ok e" and "store_wf S (db w)" and "parseID jid = Inr n" and "status_at (db w) n = Some a"
  obtains j r where "Store_Get e jid w = (Inr j, record_call (SqlCall SqlSelectJob) w)"
    and "select_row row_id n (jobs_rows (db w)) = Some r" and "scanJob e r = Inr j"
    and "Status j = a" and "parseID (ID j) = Inr n"
proof -
  obtain r where r: "select_row row_id n (jobs_rows (db w)) = Some r" "status_of_text (row_status r) = a"
    using assms(4) by (auto simp: status_at_def)
  note row = select_row_SomeD [OF r(1)]
  obtain j where j: "scanJob e r = Inr j" using scanJob_ok store_wfD(3) [OF assms(2) row(1)] by blast
  have "Store_Get e jid w = (Inr j, record_call (SqlCall SqlSelectJob) w)"
    using Store_Get_found [OF assms(3) r(1)] assms(1) store_wfD(1) [OF assms(2)] j
    by (simp add: sql_error_ready)
  moreover have "parseID (ID j) = Inr n"
    using scanJob_InrD(1) [OF j] parseID_FormatInt row_ok_in_int64 [OF assms(2) row(1)] row(2) by simp
  ultimately show thesis using that r j scanJob_InrD(2) [OF j] by blast
qed

definition reason_at :: "database \<Rightarrow> int \<Rightarrow> string option" where
  "reason_at d n = map_option row_failure_reason (select_row row_id n (jobs_rows d))"

definition pid_at :: "database \<Rightarrow> int \<Rightarrow> (int \<times> int) option" where
  "pid_at d n = map_option (\<lambda>r. (row_pid r, row_pgid r)) (select_row row_id n (jobs_rows d))"

text \<open>\<open>moved d n es b d'\<close>: job \<open>n\<close> went through the transitions \<open>es\<close> to \<open>b\<close>, and no other job changed.\<close>

definition moved :: "database \<Rightarrow> int \<Rightarrow> (Status \<times> Status) list \<Rightarrow> Status \<Rightarrow> database \<Rightarrow> bool" where
  "moved d n es b d' \<longleftrightarrow> status_at d' = (status_at d)(n \<mapsto> b) \<and>
     job_history d' n = job_history d n @ es \<and>
     (\<forall>m. m \<noteq> n \<longrightarrow> select_row row_id m (jobs_rows d') = select_row row_id m (jobs_rows d) \<and>
        job_history d' m = job_history d m)"

lemma moved_trans: "moved d n es b d' \<Longrightarrow> moved d' n fs c d'' \<Longrightarrow> moved d n (es @ fs) c d''"
  by (simp add: moved_def)

lemma committed_moved:
  assumes "status_at d n = Some a" and "ValidTransition a b"
    and "\<And>r. row_id (f r) = row_id r" and "\<And>r. row_status (f r) = status_text b"
  shows "moved d n [(a, b)] b (committed n f a b by_whom now d)"
proof -
  have "select_row row_id n (jobs_rows d) \<noteq> None" using assms(1) by (auto simp: status_at_def)
  then have "status_at (committed n f a b by_whom now d) = (status_at d)(n \<mapsto> b)"
    using assms ValidTransition_named(2) [OF assms(2)] by (intro status_at_committed) auto
  moreover have "status_of_text (status_text a) = a" "status_of_text (status_text b) = b"
    using ValidTransition_named [OF assms(2)] by simp_all
  ultimately show ?thesis using assms(3)
    by (simp add: moved_def select_row_update) (simp add: committed_def)
qed

lemma committed_fields:
  assumes "select_row row_id n (jobs_rows d) = Some r" and "\<And>r. row_id (f r) = row_id r"
  shows "select_row row_id n (jobs_rows (committed n f a b by_whom now d)) = Some (f r)"
  using assms by (simp add: select_row_update)

lemma status_at_row: "status_at d n = Some a \<Longrightarrow> \<exists>r. select_row row_id n (jobs_rows d) = Some r"
  by (auto simp: status_at_def)

lemma UpdateStatus_moves:
  assumes "sql_ok e" and "store_wf S (db w)" and "parseID jid = Inr n"
    and "status_at (db w) n = Some a" and "ValidTransition a b"
  obtains w' where "Store_UpdateStatus e jid b why by_whom w = (None, w')"
    and "moved (db w) n [(a, b)] b (db w')" and "reason_at (db w') n = Some why"
    and "store_wf S (db w')" and "interrupted w' = interrupted w"
proof -
  obtain now w' where w': "Store_UpdateStatus e jid b why by_whom w = (None, w')"
    "db w' = committed n (set_status b why now) a b by_whom now (db w)"
    by (rule Store_UpdateStatus_commits [OF assms])
  moreover have "moved (db w) n [(a, b)] b (db w')"
    unfolding w'(2) by (rule committed_moved) (use assms in simp_all)
  moreover obtain r where r: "select_row row_id n (jobs_rows (db w)) = Some r"
    using status_at_row [OF assms(4)] by blast
  then have "reason_at (db w') n = Some why"
    using committed_fields [OF r, of "set_status b why now"]
    by (simp add: w'(2) reason_at_def set_status_def)
  moreover have "store_wf S (db w')" using Store_UpdateStatus_wf [OF assms(2)] w'(1) by (metis snd_conv)
  moreover have "interrupted w' = interrupted w"
    using frameD(2) [OF Store_UpdateStatus_frame [of w e jid b why by_whom]] w'(1) by simp
  ultimately show thesis using that by blast
qed

section \<open>Checkpointing\<close>

text \<open>
  \<open>books_only w w'\<close>: from \<open>w\<close> to \<open>w'\<close> the program has asked the clock, the database and the
  audit file only; in particular it has started no command.
\<close>

definition books_only :: "world \<Rightarrow> world \<Rightarrow> bool" where
  "books_only w w' \<longleftrightarrow> (\<exists>cs. calls w' = cs @ calls w \<and> list_all (\<lambda>c. is_store_call c \<or> is_audit_call c) cs)"

lemma books_only_trans: "books_only w w' \<Longrightarrow> books_only w' w'' \<Longrightarrow> books_only w w''"
  unfolding books_only_def by (metis append.assoc list_all_append)

lemma books_only_frame: "store_frame w w' \<Longrightarrow> books_only w w'"
  unfolding frame_def books_only_def by (metis (mono_tags, lifting) list.pred_mono_strong)

lemma books_only_log: "books_only w (logDaemon d e a j out det w)"
  using logDaemon_calls [of d e a j out det w] unfolding books_only_def
  by (metis (mono_tags, lifting) list.pred_mono_strong)

lemma books_only_logged: "store_frame w w' \<Longrightarrow> books_only w (logDaemon d e a j out det w')"
  using books_only_trans [OF books_only_frame books_only_log] .

lemma update_status_frame_eq: "Store_UpdateStatus e jid b why by_whom w = (r, w') \<Longrightarrow> store_frame w w'"
  using Store_UpdateStatus_frame [of w e jid b why by_whom] by simp

lemma update_pid_frame_eq: "Store_UpdatePID e jid pid pgid by_whom w = (r, w') \<Longrightarrow> store_frame w w'"
  using Store_UpdatePID_frame [of w e jid pid pgid by_whom] by simp

abbreviation checkpoint_status :: "string option \<Rightarrow> Status" where
  "checkpoint_status res \<equiv> (case res of None \<Rightarrow> StatusCheckpointCreated | Some _ \<Rightarrow> StatusCheckpointCreationFailed)"

abbreviation error_text :: "string option \<Rightarrow> string" where
  "error_text res \<equiv> (case res of None \<Rightarrow> [] | Some t \<Rightarrow> t)"

text \<open>The three parts of \<open>checkpointJob\<close>: the mark, the checkpoint itself, and its record.\<close>

lemma checkpointJob_parts:
  assumes "sql_ok e" and "store_wf S (db w)" and "runner_ok d" and "parseID (ID j) = Inr n"
    and "status_at (db w) n = Some StatusRunning" and "checkpointJob d e j by_whom w = (res, w')"
  obtains w1 w2 where "books_only w w1"
    and "moved (db w) n [(StatusRunning, StatusCheckpointInProgress)] StatusCheckpointInProgress (db w1)"
    and "d_checkpointFunc d e (CheckpointDir j) j w1 = (res, w2)" and "db w2 = db w1"
    and "moved (db w2) n [(StatusCheckpointInProgress, checkpoint_status res)] (checkpoint_status res) (db w')"
    and "reason_at (db w') n = Some (error_text res)" and "books_only w2 w'"
proof -
  have "ValidTransition StatusRunning StatusCheckpointInProgress" by simp
  then obtain w0 where w0: "Store_UpdateStatus e (ID j) StatusCheckpointInProgress [] by_whom w = (None, w0)"
    "moved (db w) n [(StatusRunning, StatusCheckpointInProgress)] StatusCheckpointInProgress (db w0)"
    "store_wf S (db w0)"
    by (rule UpdateStatus_moves [OF assms(1,2,4,5)])
  let ?w1 = "logDaemon d e ''checkpoint_started'' (ID j) ''ok'' [] w0"
  obtain r w2 where w2: "d_checkpointFunc d e (CheckpointDir j) j ?w1 = (r, w2)" by fastforce
  have db2: "db w2 = db w0" using runner_db(1) [OF assms(3) w2] by simp
  have st: "status_at (db w2) n = Some StatusCheckpointInProgress" using w0(2) by (simp add: db2 moved_def)
  have wf2: "store_wf S (db w2)" using w0(3) by (simp add: db2)
  have "ValidTransition StatusCheckpointInProgress (checkpoint_status r)" by (cases r) simp_all
  then obtain w3 where w3: "Store_UpdateStatus e (ID j) (checkpoint_status r) (error_text r) by_whom w2 = (None, w3)"
    "moved (db w2) n [(StatusCheckpointInProgress, checkpoint_status r)] (checkpoint_status r) (db w3)"
    "reason_at (db w3) n = Some (error_text r)"
    by (rule UpdateStatus_moves [OF assms(1) wf2 assms(4) st])
  note books = books_only_logged [OF update_status_frame_eq [OF w3(1)], of d e]
  have "res = r \<and> db w' = db w3 \<and> books_only w2 w'"
    using assms(6) w3(1) books by (cases r) (auto simp: checkpointJob_def Let_def w0(1) w2)
  moreover have "books_only w ?w1" by (rule books_only_logged [OF update_status_frame_eq [OF w0(1)]])
  ultimately show thesis using that [of ?w1 w2] w0(2) w2 db2 w3(2,3) by simp
qed

lemma checkpointJob_moves:
  assumes "sql_ok e" and "store_wf S (db w)" and "runner_ok d" and "parseID (ID j) = Inr n"
    and "status_at (db w) n = Some StatusRunning" and "checkpointJob d e j by_whom w = (res, w')"
  shows "moved (db w) n [(StatusRunning, StatusCheckpointInProgress),
      (StatusCheckpointInProgress, checkpoint_status res)] (checkpoint_status res) (db w') \<and>
    reason_at (db w') n = Some (error_text res)"
proof -
  obtain w1 w2 :: world where
    "moved (db w) n [(StatusRunning, StatusCheckpointInProgress)] StatusCheckpointInProgress (db w1)"
    "db w2 = db w1"
    "moved (db w2) n [(StatusCheckpointInProgress, checkpoint_status res)] (checkpoint_status res) (db w')"
    "reason_at (db w') n = Some (error_text res)"
    by (rule checkpointJob_parts [OF assms])
  with moved_trans [of "db w" n _ _ "db w1"] show ?thesis by fastforce
qed

text \<open>
  Claim C16. Pausing a running job, on a working database and while no other request acts on the
  job: the job is first marked CHECKPOINT_IN_PROGRESS, then its checkpoint is taken once, by
  its hook or by CRIU, and the outcome is what that call reported. If it succeeded the answer
  is OK and the job is in CHECKPOINT_CREATED; if it failed the answer carries the error, which is
  also stored as the failure reason of the job in CHECKPOINT_CREATION_FAILED. The history
  gains the two transitions, no other job is touched, and no other command is run.
\<close>

theorem pause_outcome:
  assumes "sql_ok e" and "store_wf start_statuses (db w)" and "\<not> interrupted w"
    and "parseID (rq_JobID req) = Inr n" and "status_at (db w) n = Some StatusRunning"
    and "handlePause (daemon_New numCPU cfg) e req w = (rs, w')"
  shows "\<exists>j w1 res w2. fst (Store_Get e (rq_JobID req) w) = Inr j \<and> books_only w w1 \<and>
    status_at (db w1) n = Some StatusCheckpointInProgress \<and>
    checkpoint_Run e (CheckpointDir j) j w1 = (res, w2) \<and> books_only w2 w' \<and>
    (let b = (case res of None \<Rightarrow> StatusCheckpointCreated | Some _ \<Rightarrow> StatusCheckpointCreationFailed)
     in moved (db w) n [(StatusRunning, StatusCheckpointInProgress), (StatusCheckpointInProgress, b)] b (db w')) \<and>
    reason_at (db w') n = Some (case res of None \<Rightarrow> [] | Some t \<Rightarrow> t) \<and>
    (case res of
       None \<Rightarrow> rs_OK rs \<and> rs_JobID rs = rq_JobID req
     | Some t \<Rightarrow> \<not> rs_OK rs \<and> rs_Error rs = ''pause job '' @ rq_JobID req @ '': '' @ t)"
proof -
  obtain j r where j: "Store_Get e (rq_JobID req) w = (Inr j, record_call (SqlCall SqlSelectJob) w)"
      "Status j = StatusRunning" "parseID (ID j) = Inr n"
    by (rule get_job [OF assms(1,2,4,5)])
  let ?w = "record_call (SqlCall SqlSelectJob) w" and ?d = "daemon_New numCPU cfg"
  obtain res w3 where ck: "checkpointJob ?d e j (rq_RequestedBy req) ?w = (res, w3)" by fastforce
  have wf: "store_wf start_statuses (db ?w)" and st: "status_at (db ?w) n = Some StatusRunning"
    using assms(2,5) by simp_all
  note moves = checkpointJob_moves [OF assms(1) wf New_runner_ok j(3) st ck]
  obtain w1 w2 where p: "books_only ?w w1"
    "moved (db ?w) n [(StatusRunning, StatusCheckpointInProgress)] StatusCheckpointInProgress (db w1)"
    "d_checkpointFunc ?d e (CheckpointDir j) j w1 = (res, w2)" "books_only w2 w3"
    by (rule checkpointJob_parts [OF assms(1) wf New_runner_ok j(3) st ck])
  have "w' = w3 \<and> (case res of None \<Rightarrow> rs_OK rs \<and> rs_JobID rs = rq_JobID req
      | Some t \<Rightarrow> \<not> rs_OK rs \<and> rs_Error rs = ''pause job '' @ rq_JobID req @ '': '' @ t)"
    using assms(3,6) parseID_nonempty [OF assms(4)] j ck
    by (cases res) (auto simp: handlePause_def resp_error_def resp_ok_def response0_def)
  moreover have "books_only w w1" using books_only_trans [OF books_only_frame p(1)] frame_record_call
    by (metis is_store_call.simps(2))
  moreover have "checkpoint_Run e (CheckpointDir j) j w1 = (res, w2)" using p(3) by (simp add: daemon_New_def)
  moreover have "status_at (db w1) n = Some StatusCheckpointInProgress" using p(2) by (simp add: moved_def)
  ultimately show ?thesis using moves p(4) j(1)
    by (intro exI [of _ j] exI [of _ w1] exI [of _ res] exI [of _ w2]) (simp add: Let_def)
qed

theorem pause_outcome_witness:
  "\<exists>rs w' j w1 res w2.
     handlePause sample_daemon quiet_env (request0\<lparr>rq_JobID := ''1''\<rparr>) world_one_job = (rs, w') \<and>
     checkpoint_Run quiet_env (CheckpointDir j) j w1 = (res, w2) \<and>
     status_at (db w') 1 = Some (case res of None \<Rightarrow> StatusCheckpointCreated | Some _ \<Rightarrow> StatusCheckpointCreationFailed)"
proof -
  obtain rs w' where h: "handlePause sample_daemon quiet_env (request0\<lparr>rq_JobID := ''1''\<rparr>) world_one_job = (rs, w')"
    by fastforce
  have "\<not> interrupted world_one_job"
    using frameD(2) [OF Store_Insert_frame [of empty_world quiet_env sample_job]]
    by (simp add: world_one_job_def empty_world_def)
  moreover have "parseID (rq_JobID (request0\<lparr>rq_JobID := ''1''\<rparr>)) = Inr 1"
    by (simp add: parseID_def ParseInt_eval)
  ultimately obtain j w1 res w2 where "checkpoint_Run quiet_env (CheckpointDir j) j w1 = (res, w2)"
      "let b = checkpoint_status res in moved (db world_one_job) 1
        [(StatusRunning, StatusCheckpointInProgress), (StatusCheckpointInProgress, b)] b (db w')"
    using pause_outcome [OF sql_ok_quiet world_one_job_wf _ _ world_one_job_status h] by blast
  moreover from this(2) have "status_at (db w') 1 = Some (checkpoint_status res)" by (simp add: Let_def moved_def)
  ultimately show ?thesis using h by blast
qed

section \<open>Resuming\<close>

lemma UpdatePID_moves:
  assumes "sql_ok e" and "store_wf S (db w)" and "parseID jid = Inr n"
    and "status_at (db w) n = Some StatusRestorePending"
  obtains w' where "Store_UpdatePID e jid pid pgid by_whom w = (None, w')"
    and "moved (db w) n [(StatusRestorePending, StatusRunning)] StatusRunning (db w')"
    and "pid_at (db w') n = Some (pid, pgid)" and "store_wf S (db w')"
proof -
  obtain now w' where w': "Store_UpdatePID e jid pid pgid by_whom w = (None, w')"
    "db w' = committed n (set_pid pid pgid now) StatusRestorePending StatusRunning by_whom now (db w)"
    by (rule Store_UpdatePID_commits [OF assms])
  moreover have "moved (db w) n [(StatusRestorePending, StatusRunning)] StatusRunning (db w')"
    unfolding w'(2) by (rule committed_moved) (use assms in simp_all)
  moreover obtain r where r: "select_row row_id n (jobs_rows (db w)) = Some r"
    using status_at_row [OF assms(4)] by blast
  then have "pid_at (db w') n = Some (pid, pgid)"
    using committed_fields [OF r, of "set_pid pid pgid now"]
    by (simp add: w'(2) pid_at_def set_pid_def)
  moreover have "store_wf S (db w')" using Store_UpdatePID_wf [OF assms(2)] w'(1) by (metis snd_conv)
  ultimately show thesis using that by blast
qed

abbreviation resume_status :: "string + int \<Rightarrow> Status" where
  "resume_status res \<equiv> (case res of Inl _ \<Rightarrow> StatusRestoreFailed | Inr _ \<Rightarrow> StatusRunning)"

text \<open>The record a resume leaves: the reported process id, or the error.\<close>

abbreviation resume_recorded :: "string + int \<Rightarrow> database \<Rightarrow> int \<Rightarrow> bool" where
  "resume_recorded res d n \<equiv> (case res of
     Inl t \<Rightarrow> reason_at d n = Some t | Inr pid \<Rightarrow> pid_at d n = Some (pid, pid))"

lemma resume_finishes:
  assumes "sql_ok e" and "store_wf S (db w)" and "parseID jid = Inr n"
    and "status_at (db w) n = Some StatusRestorePending"
  obtains w' where "(case r of Inl t \<Rightarrow> Store_UpdateStatus e jid StatusRestoreFailed t by_whom w
      | Inr pid \<Rightarrow> Store_UpdatePID e jid pid pid by_whom w) = (None, w')"
    and "moved (db w) n [(StatusRestorePending, resume_status r)] (resume_status r) (db w')"
    and "resume_recorded r (db w') n" and "store_wf S (db w')" and "store_frame w w'"
proof (cases r)
  case (Inl t)
  have "ValidTransition StatusRestorePending StatusRestoreFailed" by simp
  then obtain w' where "Store_UpdateStatus e jid StatusRestoreFailed t by_whom w = (None, w')"
    "moved (db w) n [(StatusRestorePending, StatusRestoreFailed)] StatusRestoreFailed (db w')"
    "reason_at (db w') n = Some t" "store_wf S (db w')"
    by (rule UpdateStatus_moves [OF assms])
  with that [of w'] Inl update_status_frame_eq show thesis by simp
next
  case (Inr pid)
  obtain w' where "Store_UpdatePID e jid pid pid by_whom w = (None, w')"
    "moved (db w) n [(StatusRestorePending, StatusRunning)] StatusRunning (db w')"
    "pid_at (db w') n = Some (pid, pid)" "store_wf S (db w')"
    by (rule UpdatePID_moves [OF assms])
  with that [of w'] Inr update_pid_frame_eq show thesis by simp
qed

text \<open>The three parts of \<open>resumeJob\<close>: the mark, the restore itself, and its record.\<close>

lemma resumeJob_parts:
  assumes "sql_ok e" and "store_wf S (db w)" and "runner_ok d" and "parseID (ID j) = Inr n"
    and "status_at (db w) n = Some a" and "a \<in> {StatusCheckpointCreated, StatusRestoreFailed}"
    and "resumeJob d e j by_whom w = (res, w')"
  obtains w1 r w2 where "books_only w w1" and "status_at (db w1) n = Some StatusRestorePending"
    and "d_resumeFunc d e (CheckpointDir j) (HookResume j) (ID j) w1 = (r, w2)"
    and "moved (db w) n [(a, StatusRestorePending), (StatusRestorePending, resume_status r)] (resume_status r) (db w')"
    and "resume_recorded r (db w') n" and "store_wf S (db w')" and "books_only w2 w'"
    and "res = (case r of Inl t \<Rightarrow> Some t | Inr _ \<Rightarrow> None)"
proof -
  have "ValidTransition a StatusRestorePending" using assms(6) by auto
  then obtain w0 where w0: "Store_UpdateStatus e (ID j) StatusRestorePending [] by_whom w = (None, w0)"
    "moved (db w) n [(a, StatusRestorePending)] StatusRestorePending (db w0)"
    "store_wf S (db w0)"
    by (rule UpdateStatus_moves [OF assms(1,2,4,5)])
  let ?w1 = "logDaemon d e ''restore_started'' (ID j) ''ok'' [] w0"
  obtain r w2 where w2: "d_resumeFunc d e (CheckpointDir j) (HookResume j) (ID j) ?w1 = (r, w2)" by fastforce
  have db2: "db w2 = db w0" using runner_db(2) [OF assms(3) w2] by simp
  have st: "status_at (db w2) n = Some StatusRestorePending" using w0(2) by (simp add: db2 moved_def)
  have wf2: "store_wf S (db w2)" using w0(3) by (simp add: db2)
  obtain w3 where w3: "(case r of Inl t \<Rightarrow> Store_UpdateStatus e (ID j) StatusRestoreFailed t by_whom w2
      | Inr pid \<Rightarrow> Store_UpdatePID e (ID j) pid pid by_whom w2) = (None, w3)"
    "moved (db w2) n [(StatusRestorePending, resume_status r)] (resume_status r) (db w3)"
    "resume_recorded r (db w3) n" "store_wf S (db w3)" "store_frame w2 w3"
    by (rule resume_finishes [OF assms(1) wf2 assms(4) st])
  note books = books_only_logged [OF w3(5), of d e]
  have out: "res = (case r of Inl t \<Rightarrow> Some t | Inr _ \<Rightarrow> None) \<and> db w' = db w3 \<and> books_only w2 w'"
    using assms(7) w3(1) books by (cases r) (auto simp: resumeJob_def Let_def w0(1) w2)
  then have res: "res = (case r of Inl t \<Rightarrow> Some t | Inr _ \<Rightarrow> None)" and db': "db w' = db w3" and "books_only w2 w'"
    by blast+
  moreover have "books_only w ?w1" by (rule books_only_logged [OF update_status_frame_eq [OF w0(1)]])
  moreover have "status_at (db ?w1) n = Some StatusRestorePending" using st db2 by simp
  moreover have "moved (db w) n [(a, StatusRestorePending), (StatusRestorePending, resume_status r)] (resume_status r) (db w')"
    using moved_trans [OF w0(2), of "[(StatusRestorePending, resume_status r)]"] w3(2) db2 db' by simp
  moreover have "resume_recorded r (db w') n" unfolding db' by (rule w3(3))
  moreover have "store_wf S (db w')" unfolding db' by (rule w3(4))
  ultimately show thesis using w2 res by (intro that [of ?w1 r w2])
qed

text \<open>
  Claim C17. Resuming a checkpointed job, or one whose last restore failed, on a working database and
  while no other request acts on the job: the job is marked RESTORE_PENDING, then restored once,
  by its hook or by CRIU, and the outcome is what that call reported. If it reported a process id,
  the job is RUNNING again under that id, which is also recorded as its process group and is the
  number in the answer; if it failed, the job is in RESTORE_FAILED with the error as its reason
  and the answer carries the error. The history gains the two transitions, no other job is
  touched, and no other command is run.
\<close>

theorem resume_outcome:
  assumes "sql_ok e" and "store_wf start_statuses (db w)"
    and "parseID (rq_JobID req) = Inr n" and "status_at (db w) n = Some a"
    and "a \<in> {StatusCheckpointCreated, StatusRestoreFailed}"
    and "handleResume (daemon_New numCPU cfg) e req w = (rs, w')"
  shows "\<exists>j w1 res w2. fst (Store_Get e (rq_JobID req) w) = Inr j \<and> books_only w w1 \<and>
    status_at (db w1) n = Some StatusRestorePending \<and>
    resume_Run e (CheckpointDir j) (HookResume j) (ID j) w1 = (res, w2) \<and> books_only w2 w' \<and>
    (let b = (case res of Inl _ \<Rightarrow> StatusRestoreFailed | Inr _ \<Rightarrow> StatusRunning)
     in moved (db w) n [(a, StatusRestorePending), (StatusRestorePending, b)] b (db w')) \<and>
    (case res of
       Inl t \<Rightarrow> reason_at (db w') n = Some t \<and> \<not> rs_OK rs \<and>
         rs_Error rs = ''resume job '' @ rq_JobID req @ '': '' @ t
     | Inr pid \<Rightarrow> pid_at (db w') n = Some (pid, pid) \<and> rs_OK rs \<and>
         rs_Message rs = ''resumed as pid '' @ FormatInt pid)"
proof -
  obtain j r where j: "Store_Get e (rq_JobID req) w = (Inr j, record_call (SqlCall SqlSelectJob) w)"
      "Status j = a" "parseID (ID j) = Inr n"
    by (rule get_job [OF assms(1-4)])
  let ?w = "record_call (SqlCall SqlSelectJob) w" and ?d = "daemon_New numCPU cfg"
  obtain q w3 where rj: "resumeJob ?d e j (rq_RequestedBy req) ?w = (q, w3)" by fastforce
  have wf: "store_wf start_statuses (db ?w)" and st: "status_at (db ?w) n = Some a" using assms(2,4) by simp_all
  obtain w1 res w2 where p: "books_only ?w w1" "status_at (db w1) n = Some StatusRestorePending"
    "d_resumeFunc ?d e (CheckpointDir j) (HookResume j) (ID j) w1 = (res, w2)"
    "moved (db ?w) n [(a, StatusRestorePending), (StatusRestorePending, resume_status res)] (resume_status res) (db w3)"
    "resume_recorded res (db w3) n" "store_wf start_statuses (db w3)" "books_only w2 w3"
    "q = (case res of Inl t \<Rightarrow> Some t | Inr _ \<Rightarrow> None)"
    by (rule resumeJob_parts [OF assms(1) wf New_runner_ok j(3) st assms(5) rj])
  have run: "resume_Run e (CheckpointDir j) (HookResume j) (ID j) w1 = (res, w2)" using p(3) by (simp add: daemon_New_def)
  have b1: "books_only w w1" using books_only_trans [OF books_only_frame p(1)] frame_record_call
    by (metis is_store_call.simps(2))
  note unfolds = handleResume_def resp_error_def resp_ok_def response0_def
  have guard: "\<not> (a \<noteq> StatusCheckpointCreated \<and> a \<noteq> StatusRestoreFailed)" using assms(5) by auto
  have "db w' = db w3 \<and> books_only w2 w' \<and> (case res of
      Inl t \<Rightarrow> \<not> rs_OK rs \<and> rs_Error rs = ''resume job '' @ rq_JobID req @ '': '' @ t
    | Inr pid \<Rightarrow> rs_OK rs \<and> rs_Message rs = ''resumed as pid '' @ FormatInt pid)"
  proof (cases res)
    case (Inl t)
    then show ?thesis
      using assms(6) parseID_nonempty [OF assms(3)] j rj guard p(7,8) by (auto simp: unfolds)
  next
    case (Inr pid)
    have "status_at (db w3) n = Some StatusRunning" using p(4) Inr by (simp add: moved_def)
    from get_job [OF assms(1) p(6) assms(3) this] obtain j' r' where
      j': "Store_Get e (rq_JobID req) w3 = (Inr j', record_call (SqlCall SqlSelectJob) w3)"
        "select_row row_id n (jobs_rows (db w3)) = Some r'" "scanJob e r' = Inr j'" .
    have "PID j' = pid" using p(5) Inr j'(2) scanJob_InrD(5) [OF j'(3)] by (simp add: pid_at_def)
    moreover have "books_only w2 (record_call (SqlCall SqlSelectJob) w3)"
      using books_only_trans [OF p(7) books_only_frame [OF frame_record_call]] by simp
    ultimately show ?thesis
      using assms(6) parseID_nonempty [OF assms(3)] j rj guard p(8) Inr j'(1) by (auto simp: unfolds)
  qed
  with run b1 p(2,4,5) j(1) show ?thesis
    by (intro exI [of _ j] exI [of _ w1] exI [of _ res] exI [of _ w2])
      (simp add: Let_def split: sum.splits)
qed

definition world_ckpt :: world where
  "world_ckpt = empty_world\<lparr>db := insert_job_row quiet_env (sample_job\<lparr>Status := StatusCheckpointCreated\<rparr>) empty_db\<rparr>"

lemma world_ckpt_facts:
  "store_wf start_statuses (db world_ckpt)" "status_at (db world_ckpt) 1 = Some StatusCheckpointCreated"
proof -
  let ?j = "sample_job\<lparr>Status := StatusCheckpointCreated\<rparr>"
  have room: "jobs_seq empty_db < int64_max" by (simp add: empty_db_def int64_bounds_values)
  have "store_wf start_statuses (insert_job_row quiet_env ?j empty_db)"
    by (rule insert_job_row_wf [OF store_wf_empty room]) simp_all
  then show "store_wf start_statuses (db world_ckpt)" by (simp add: world_ckpt_def)
  have "status_at (insert_job_row quiet_env ?j empty_db) = (status_at empty_db)(jobs_seq empty_db + 1 \<mapsto> Status ?j)"
    by (rule status_at_insert) (simp_all add: empty_db_def)
  then show "status_at (db world_ckpt) 1 = Some StatusCheckpointCreated"
    by (simp add: world_ckpt_def) (simp add: empty_db_def)
qed

lemma parseID_one: "parseID ''1'' = Inr 1"
  by (simp add: parseID_def ParseInt_eval)

lemma parseID_1: "parseID (rq_JobID (request0\<lparr>rq_JobID := ''1''\<rparr>)) = Inr 1"
  by (simp add: parseID_one)

theorem resume_outcome_witness:
  "\<exists>rs w' (j :: Job) w1 res w2.
     handleResume sample_daemon quiet_env (request0\<lparr>rq_JobID := ''1''\<rparr>) world_ckpt = (rs, w') \<and>
     resume_Run quiet_env (CheckpointDir j) (HookResume j) (ID j) w1 = (res, w2) \<and>
     status_at (db w') 1 = Some (case res of Inl _ \<Rightarrow> StatusRestoreFailed | Inr _ \<Rightarrow> StatusRunning)"
proof -
  obtain rs w' where h: "handleResume sample_daemon quiet_env (request0\<lparr>rq_JobID := ''1''\<rparr>) world_ckpt = (rs, w')"
    by fastforce
  have "StatusCheckpointCreated \<in> {StatusCheckpointCreated, StatusRestoreFailed}" by simp
  from resume_outcome [OF sql_ok_quiet world_ckpt_facts(1) parseID_1 world_ckpt_facts(2) this h]
  obtain j :: Job and w1 res w2 where "resume_Run quiet_env (CheckpointDir j) (HookResume j) (ID j) w1 = (res, w2)"
      "let b = resume_status res in moved (db world_ckpt) 1
        [(StatusCheckpointCreated, StatusRestorePending), (StatusRestorePending, b)] b (db w')"
    by blast
  moreover from this(2) have "status_at (db w') 1 = Some (resume_status res)" by (simp add: Let_def moved_def)
  ultimately show ?thesis using h by blast
qed

section \<open>Refusals\<close>

text \<open>A job the daemon does not read in the status a handler asks for.\<close>

lemma Store_Get_status_of:
  assumes "Store_Get e jid w = (Inr j, w')"
  obtains n where "parseID jid = Inr n" and "status_at (db w) n = Some (Status j)"
    and "w' = record_call (SqlCall SqlSelectJob) w"
  using assms by (rule Store_Get_InrD) (use that scanJob_InrD(2) in \<open>auto simp: status_at_def\<close>)

lemma Store_Get_quiet:
  assumes "Store_Get e jid w = (g, w')"
  shows "db w' = db w" and "audit_file w' = audit_file w"
    and "set (calls w') \<subseteq> insert (SqlCall SqlSelectJob) (set (calls w))"
  using assms by (auto simp: Store_Get_def split: store_splits)

lemma resp_error_not_ok [simp]: "\<not> rs_OK (resp_error t)"
  by (simp add: resp_error_def response0_def)

text \<open>
  Claim C27. In every environment, \<open>pause\<close> acts only on a job that is RUNNING: for any other job, or
  none, the answer is an error, the database is unchanged, and nothing was called
  but the one query that read the job.
\<close>

theorem pause_guard:
  assumes "\<forall>n. parseID (rq_JobID req) = Inr n \<longrightarrow> status_at (db w) n \<noteq> Some StatusRunning"
    and "handlePause d e req w = (rs, w')"
  shows "\<not> rs_OK rs \<and> db w' = db w \<and> audit_file w' = audit_file w \<and>
    set (calls w') \<subseteq> insert (SqlCall SqlSelectJob) (set (calls w))"
proof -
  obtain g w1 where g: "Store_Get e (rq_JobID req) w = (g, w1)" by fastforce
  have st: "Status j \<noteq> StatusRunning" if "g = Inr j" for j
    using g unfolding that by (rule Store_Get_status_of) (use assms(1) in auto)
  have "\<not> rs_OK rs \<and> w' \<in> {w, w1}"
  proof (cases g)
    case (Inr j)
    with st show ?thesis using assms(2) by (simp add: handlePause_def g split: if_splits) auto
  qed (use assms(2) in \<open>auto simp: handlePause_def g split: if_splits\<close>)
  with Store_Get_quiet [OF g] show ?thesis by auto
qed

theorem pause_guard_witness:
  "\<not> rs_OK (fst (handlePause sample_daemon quiet_env (request0\<lparr>rq_JobID := ''1''\<rparr>) world_ckpt))"
  using pause_guard [OF _ surjective_pairing, of "request0\<lparr>rq_JobID := ''1''\<rparr>" world_ckpt sample_daemon quiet_env]
  by (simp add: parseID_one world_ckpt_facts)

text \<open>
  In every environment, \<open>resume\<close> acts only on a job in CHECKPOINT_CREATED or
  RESTORE_FAILED: for any other job, or none, the answer is an error, the database is
  unchanged, and nothing was called but the one query that read the job.
\<close>

theorem resume_guard:
  assumes "\<forall>n. parseID (rq_JobID req) = Inr n \<longrightarrow>
      status_at (db w) n \<notin> {Some StatusCheckpointCreated, Some StatusRestoreFailed}"
    and "handleResume d e req w = (rs, w')"
  shows "\<not> rs_OK rs \<and> db w' = db w \<and> audit_file w' = audit_file w \<and>
    set (calls w') \<subseteq> insert (SqlCall SqlSelectJob) (set (calls w))"
proof -
  obtain g w1 where g: "Store_Get e (rq_JobID req) w = (g, w1)" by fastforce
  have st: "Status j \<noteq> StatusCheckpointCreated" "Status j \<noteq> StatusRestoreFailed" if "g = Inr j" for j
    using g unfolding that by (rule Store_Get_status_of, use assms(1) in auto)+
  have "\<not> rs_OK rs \<and> w' \<in> {w, w1}"
  proof (cases g)
    case (Inr j)
    with st show ?thesis using assms(2) by (simp add: handleResume_def g split: if_splits) auto
  qed (use assms(2) in \<open>auto simp: handleResume_def g split: if_splits\<close>)
  with Store_Get_quiet [OF g] show ?thesis by auto
qed

theorem resume_guard_witness:
  "\<not> rs_OK (fst (handleResume sample_daemon quiet_env (request0\<lparr>rq_JobID := ''1''\<rparr>) world_one_job))"
  using resume_guard [OF _ surjective_pairing, of "request0\<lparr>rq_JobID := ''1''\<rparr>" world_one_job sample_daemon quiet_env]
  by (simp add: parseID_one world_one_job_status)

section \<open>Canceling and completing\<close>

lemma KillGroup_eq: "KillGroup e pid sig w = (k, w') \<Longrightarrow> db w' = db w"
  by (metis KillGroup_db snd_conv)

text \<open>
  Claim C18. Canceling, on a working database and while no other request acts on the job. A RUNNING
  job gets one SIGTERM to its process group, and the outcome is what that signal reported: if
  it failed, the answer is that error and the database is as before; a group that is already
  gone counts as stopped. A job in any other status is not signalled. When the signal did not
  fail, the job is CANCELED and the answer OK exactly when the table allows the transition, and
  otherwise the answer is the refusal and the database is as before.
\<close>

theorem cancel_outcome:
  assumes "sql_ok e" and "store_wf start_statuses (db w)"
    and "parseID (rq_JobID req) = Inr n" and "status_at (db w) n = Some a"
    and "pid_at (db w) n = Some (pid, pgid)"
    and "handleCancel e req w = (rs, w')"
  shows "\<exists>k w2.
    (if a = StatusRunning then KillGroup e pgid SIGTERM (snd (Store_Get e (rq_JobID req) w))
     else (None, snd (Store_Get e (rq_JobID req) w))) = (k, w2) \<and> books_only w2 w' \<and>
    (case k of
       Some t \<Rightarrow> \<not> rs_OK rs \<and> rs_Error rs = ''signal job '' @ rq_JobID req @ '': '' @ t \<and> db w' = db w
     | None \<Rightarrow>
         if ValidTransition a StatusCanceled
         then rs_OK rs \<and> moved (db w) n [(a, StatusCanceled)] StatusCanceled (db w')
         else \<not> rs_OK rs \<and> db w' = db w \<and>
           rs_Error rs = store_error_text (unicode e) (InvalidTransition (rq_JobID req) a StatusCanceled))"
proof -
  obtain j r where j: "Store_Get e (rq_JobID req) w = (Inr j, record_call (SqlCall SqlSelectJob) w)"
      "select_row row_id n (jobs_rows (db w)) = Some r" "scanJob e r = Inr j" "Status j = a"
    by (rule get_job [OF assms(1-4)])
  let ?w = "record_call (SqlCall SqlSelectJob) w"
  have pg: "PGID j = pgid" using assms(5) j(2) scanJob_InrD(4) [OF j(3)] by (simp add: pid_at_def)
  obtain k w2 where k: "(if a = StatusRunning then KillGroup e pgid SIGTERM ?w else (None, ?w)) = (k, w2)" by fastforce
  have db2: "db w2 = db w" using k by (auto split: if_splits dest: KillGroup_eq)
  obtain u w3 where u: "Store_UpdateStatus e (rq_JobID req) StatusCanceled [] (rq_RequestedBy req) w2 = (u, w3)" by fastforce
  have wf2: "store_wf start_statuses (db w2)" and st2: "status_at (db w2) n = Some a"
    using assms(2,4) by (simp_all add: db2)
  have upd: "if ValidTransition a StatusCanceled then u = None \<and> moved (db w) n [(a, StatusCanceled)] StatusCanceled (db w3)
      else u = Some (InvalidTransition (rq_JobID req) a StatusCanceled) \<and> db w3 = db w"
  proof (cases "ValidTransition a StatusCanceled")
    case True
    with UpdateStatus_moves [OF assms(1) wf2 assms(3) st2 True] u db2 show ?thesis by (metis prod.inject)
  next
    case False
    then have "u = Some (InvalidTransition (rq_JobID req) a StatusCanceled)"
      using Store_UpdateStatus_spec [OF assms(1) wf2, of "rq_JobID req" StatusCanceled "[]" "rq_RequestedBy req"]
        assms(3) st2 u by simp
    with False u Store_UpdateStatus_Some db2 show ?thesis by simp
  qed
  have out: "books_only w2 w' \<and> (case k of
      Some t \<Rightarrow> \<not> rs_OK rs \<and> rs_Error rs = ''signal job '' @ rq_JobID req @ '': '' @ t \<and> db w' = db w
    | None \<Rightarrow> w' = w3 \<and> rs = (case u of None \<Rightarrow> resp_ok\<lparr>rs_JobID := rq_JobID req\<rparr>
        | Some err \<Rightarrow> resp_error (store_error_text (unicode e) err)))"
    using assms(6) parseID_nonempty [OF assms(3)] j(1,4) k pg db2 u
      books_only_frame [OF update_status_frame_eq [OF u]] books_only_frame [OF frame_refl [of _ w2]]
    by (cases k; cases u) (auto simp: handleCancel_def resp_error_def response0_def)
  have "(if a = StatusRunning then KillGroup e pgid SIGTERM (snd (Store_Get e (rq_JobID req) w))
     else (None, snd (Store_Get e (rq_JobID req) w))) = (k, w2)"
    unfolding j(1) snd_conv by (rule k)
  then show ?thesis
  proof (intro exI [of _ k] exI [of _ w2] conjI)
    show "books_only w2 w'" using out by simp
  next
    show "case k of
       Some t \<Rightarrow> \<not> rs_OK rs \<and> rs_Error rs = ''signal job '' @ rq_JobID req @ '': '' @ t \<and> db w' = db w
     | None \<Rightarrow>
         if ValidTransition a StatusCanceled
         then rs_OK rs \<and> moved (db w) n [(a, StatusCanceled)] StatusCanceled (db w')
         else \<not> rs_OK rs \<and> db w' = db w \<and>
           rs_Error rs = store_error_text (unicode e) (InvalidTransition (rq_JobID req) a StatusCanceled)"
      using out upd
      by (cases k; cases "ValidTransition a StatusCanceled") (auto simp: resp_error_def resp_ok_def response0_def)
  qed
qed

lemma world_one_job_pid: "pid_at (db world_one_job) 1 = Some (1234, 1234)"
  by (simp add: world_one_job_db pid_at_def insert_job_row_def select_row_def)
    (simp add: empty_db_def sample_job_def)

text \<open>The signal goes through, and the job is canceled; it does not, and the job is left alone.\<close>

theorem cancel_outcome_witness:
  "rs_OK (fst (handleCancel quiet_env (request0\<lparr>rq_JobID := ''1''\<rparr>) world_one_job)) \<and>
   status_at (db (snd (handleCancel quiet_env (request0\<lparr>rq_JobID := ''1''\<rparr>) world_one_job))) 1 = Some StatusCanceled \<and>
   db (snd (handleCancel (quiet_env\<lparr>kill_group := (\<lambda>_ _ _. KillError ''operation not permitted'')\<rparr>)
     (request0\<lparr>rq_JobID := ''1''\<rparr>) world_one_job)) = db world_one_job"
proof -
  let ?q = "request0\<lparr>rq_JobID := ''1''\<rparr>"
  let ?e = "quiet_env\<lparr>kill_group := (\<lambda>_ _ _. KillError ''operation not permitted'')\<rparr>"
  have ok: "sql_ok ?e" by (simp add: sql_ok_def quiet_env_def)
  have kill: "KillGroup quiet_env p s v = (None, record_call (KillCall p s) v)"
    "KillGroup ?e p s v = (Some ''operation not permitted'', record_call (KillCall p s) v)" for p s v
    by (simp_all add: KillGroup_def syscall_Kill_def quiet_env_def)
  obtain rs w' where h: "handleCancel quiet_env ?q world_one_job = (rs, w')" by fastforce
  obtain rs2 w2 where h2: "handleCancel ?e ?q world_one_job = (rs2, w2)" by fastforce
  from cancel_outcome [OF sql_ok_quiet world_one_job_wf parseID_1 world_one_job_status world_one_job_pid h]
  have "rs_OK rs \<and> status_at (db w') 1 = Some StatusCanceled" by (auto simp: kill moved_def)
  moreover from cancel_outcome [OF ok world_one_job_wf parseID_1 world_one_job_status world_one_job_pid h2]
  have "db w2 = db world_one_job" by (auto simp: kill)
  ultimately show ?thesis using h h2 by simp
qed

definition failure_reason :: "Request \<Rightarrow> string" where
  "failure_reason req = (if rq_ErrMsg req = [] then ''exited with code '' @ FormatInt (rq_ExitCode req)
     else rq_ErrMsg req)"

lemma handleComplete_completes:
  assumes "sql_ok e" and "store_wf start_statuses (db w)"
    and "parseID (rq_JobID req) = Inr n" and "status_at (db w) n = Some a"
    and "handleComplete e req w = (rs, w')"
  shows "rs_OK rs \<and> rs_JobID rs = rq_JobID req \<and>
    (if a \<noteq> StatusRunning then db w' = db w
     else if rq_ExitCode req = 0 then moved (db w) n [(StatusRunning, StatusCompleted)] StatusCompleted (db w')
     else moved (db w) n [(StatusRunning, StatusFailed)] StatusFailed (db w') \<and>
       reason_at (db w') n = Some (failure_reason req))"
proof -
  obtain j r where j: "Store_Get e (rq_JobID req) w = (Inr j, record_call (SqlCall SqlSelectJob) w)"
      "Status j = a"
    by (rule get_job [OF assms(1-4)])
  let ?w = "record_call (SqlCall SqlSelectJob) w"
  have wf: "store_wf start_statuses (db ?w)" and st: "status_at (db ?w) n = Some a" using assms(2,4) by simp_all
  note simps = handleComplete_def resp_ok_def response0_def Let_def failure_reason_def j
  show ?thesis
  proof (cases "a = StatusRunning")
    case True
    let ?b = "if rq_ExitCode req = 0 then StatusCompleted else StatusFailed"
    let ?why = "if rq_ExitCode req = 0 then [] else failure_reason req"
    have "ValidTransition a ?b" using True by simp
    then obtain w3 where w3: "Store_UpdateStatus e (rq_JobID req) ?b ?why (rq_RequestedBy req) ?w = (None, w3)"
      "moved (db ?w) n [(a, ?b)] ?b (db w3)" "reason_at (db w3) n = Some ?why"
      by (rule UpdateStatus_moves [OF assms(1) wf assms(3) st])
    then show ?thesis
      using assms(5) parseID_nonempty [OF assms(3)] True by (auto simp: simps split: if_splits)
  next
    case False
    then show ?thesis using assms(5) parseID_nonempty [OF assms(3)] by (auto simp: simps)
  qed
qed

text \<open>
  Claim C19. A completion report, on a working database: for a RUNNING job it records COMPLETED when
  the exit code is zero and FAILED otherwise, with the reported message, or the exit code
  in words, as the reason; for a job that is past RUNNING it is accepted and changes nothing.
\<close>

theorem complete_outcome:
  assumes "sql_ok e" and "store_wf start_statuses (db w)"
    and "parseID (rq_JobID req) = Inr n" and "status_at (db w) n = Some a"
    and "handleComplete e req w = (rs, w')"
  shows "rs_OK rs \<and> rs_JobID rs = rq_JobID req \<and>
    (if a \<noteq> StatusRunning then db w' = db w
     else if rq_ExitCode req = 0 then moved (db w) n [(StatusRunning, StatusCompleted)] StatusCompleted (db w')
     else moved (db w) n [(StatusRunning, StatusFailed)] StatusFailed (db w') \<and>
       reason_at (db w') n = Some (failure_reason req))"
  using assms by (rule handleComplete_completes)

theorem complete_outcome_witness:
  "\<exists>rs w'. handleComplete quiet_env (request0\<lparr>rq_JobID := ''1'', rq_ExitCode := 3\<rparr>) world_one_job = (rs, w') \<and>
     rs_OK rs \<and> status_at (db w') 1 = Some StatusFailed"
proof -
  let ?r = "request0\<lparr>rq_JobID := ''1'', rq_ExitCode := 3\<rparr>"
  obtain rs w' where h: "handleComplete quiet_env ?r world_one_job = (rs, w')" by fastforce
  have "parseID (rq_JobID ?r) = Inr 1" by (simp add: parseID_one)
  from complete_outcome [OF sql_ok_quiet world_one_job_wf this world_one_job_status h] h
  show ?thesis by (simp add: moved_def)
qed

section \<open>Pruning\<close>

lemma prune_jobs_calls:
  assumes "prune_jobs e js w = (k, fs, w')"
  shows "calls w' = rev (map (\<lambda>j. RemoveAllCall (CheckpointDir j)) (filter (\<lambda>j. CheckpointDir j \<noteq> []) js)) @ calls w
    \<and> k + length fs = length js"
  using assms
proof (induction js arbitrary: w k fs w')
  case (Cons j js)
  obtain r w1 where w1: "os_RemoveAll e (CheckpointDir j) w = (r, w1)" by fastforce
  obtain m gs w2 where w2: "prune_jobs e js w1 = (m, gs, w2)" by (cases "prune_jobs e js w1")
  have c1: "calls w1 = (if CheckpointDir j = [] then [] else [RemoveAllCall (CheckpointDir j)]) @ calls w"
    using w1 by (auto simp: os_RemoveAll_def split: if_splits)
  have "w' = w2 \<and> k + length fs = Suc (m + length gs)"
    using Cons.prems by (cases r) (auto simp: w1 w2)
  with Cons.IH [OF w2] c1 show ?case by simp
qed simp

text \<open>
  \<open>prunable d p\<close>: a job in a terminal status is recorded with the checkpoint directory \<open>p\<close>.
\<close>

definition prunable :: "database \<Rightarrow> string \<Rightarrow> bool" where
  "prunable d p \<longleftrightarrow> (\<exists>r \<in> set (jobs_rows d). row_checkpoint_dir r = p \<and> IsTerminal (status_of_text (row_status r)))"

lemma collected_jobs: "fst (collect_jobs e rs w) = Inr js \<Longrightarrow> j \<in> set js \<Longrightarrow> \<exists>r \<in> set rs. scanJob e r = Inr j"
proof (induction rs arbitrary: js w)
  case (Cons r rs)
  let ?w = "record_call (SqlCall SqlScanRow) w"
  from Cons.prems(1) obtain i ks where i: "scanJob e r = Inr i" "fst (collect_jobs e rs ?w) = Inr ks" "js = i # ks"
    by (auto split: store_splits)
  show ?case
  proof (cases "j = i")
    case False
    with Cons.prems(2) i(3) have "j \<in> set ks" by simp
    with Cons.IH [OF i(2)] show ?thesis by simp
  qed (use i in simp)
qed (auto split: store_splits)

lemma terminal_jobs_prunable:
  assumes "Store_ListTerminal e w = (Inr js, w1)" and "j \<in> set js"
  shows "prunable (db w) (CheckpointDir j)"
proof -
  have "fst (collect_jobs e (terminal_rows (db w)) (record_call (SqlCall SqlSelectTerminal) w)) = Inr js"
    using assms(1) by (auto simp: Store_ListTerminal_def split: store_splits)
  from collected_jobs [OF this assms(2)] obtain r where "r \<in> set (terminal_rows (db w))" "scanJob e r = Inr j" ..
  then show ?thesis using scanJob_InrD(3) unfolding prunable_def
    by (auto simp: terminal_rows_def terminal_texts_iff)
qed

lemma got_job_prunable:
  assumes "Store_Get e jid w = (Inr j, w1)" and "IsTerminal (Status j)"
  shows "prunable (db w) (CheckpointDir j)"
proof -
  from assms(1) obtain n r where "select_row row_id n (jobs_rows (db w)) = Some r" "scanJob e r = Inr j"
    by (rule Store_Get_InrD)
  with assms(2) scanJob_InrD [of e r j] show ?thesis
    by (auto simp: prunable_def dest!: select_row_SomeD(1))
qed

text \<open>The calls between two worlds that remove a directory remove prunable ones only.\<close>

definition removes_only :: "(string \<Rightarrow> bool) \<Rightarrow> world \<Rightarrow> world \<Rightarrow> bool" where
  "removes_only P w w' \<longleftrightarrow> (\<exists>cs. calls w' = cs @ calls w \<and> (\<forall>p. RemoveAllCall p \<in> set cs \<longrightarrow> P p))"

lemma removes_only_trans: "removes_only P w w' \<Longrightarrow> removes_only P w' w'' \<Longrightarrow> removes_only P w w''"
proof -
  assume "removes_only P w w'" and "removes_only P w' w''"
  then obtain cs ds where "calls w' = cs @ calls w" "calls w'' = ds @ calls w'"
      "\<forall>p. RemoveAllCall p \<in> set (ds @ cs) \<longrightarrow> P p"
    by (auto simp: removes_only_def)
  then show "removes_only P w w''" unfolding removes_only_def by (intro exI [of _ "ds @ cs"]) simp
qed

lemma removes_only_frame: "store_frame w w' \<Longrightarrow> removes_only P w w'"
  by (fastforce simp: frame_def removes_only_def list_all_iff)

lemma removes_only_one: "P path \<Longrightarrow> os_RemoveAll e path w = (r, w') \<Longrightarrow> removes_only P w w'"
  by (auto simp: removes_only_def os_RemoveAll_def split: if_splits intro: exI [of _ "[RemoveAllCall path]"])

lemma removes_only_jobs:
  assumes "prune_jobs e js w = (k, fs, w')" and "\<forall>j \<in> set js. P (CheckpointDir j)"
  shows "removes_only P w w'"
  using prune_jobs_calls [OF assms(1)] assms(2) by (auto simp: removes_only_def)

lemma handlePrune_removes:
  assumes "handlePrune e req w = (rs, w')"
  shows "removes_only (prunable (db w)) w w'"
proof (cases "rq_JobID req = []")
  case True
  obtain l w1 where l: "Store_ListTerminal e w = (l, w1)" by fastforce
  have 1: "removes_only (prunable (db w)) w w1"
    using removes_only_frame [OF Store_ListTerminal_frame [of w e]] l by simp
  show ?thesis
  proof (cases l)
    case (Inr js)
    obtain k fs w2 where pr: "prune_jobs e js w1 = (k, fs, w2)" by (cases "prune_jobs e js w1")
    have "removes_only (prunable (db w)) w1 w2"
      using removes_only_jobs [OF pr] terminal_jobs_prunable [of e w js w1] l Inr by simp
    with 1 have "removes_only (prunable (db w)) w w2" by (rule removes_only_trans)
    then show ?thesis using assms True l Inr pr by (simp add: handlePrune_def)
  qed (use assms True l 1 in \<open>auto simp: handlePrune_def\<close>)
next
  case False
  obtain g w1 where g: "Store_Get e (rq_JobID req) w = (g, w1)" by fastforce
  have 1: "removes_only (prunable (db w)) w w1"
    using removes_only_frame [OF Store_Get_frame [of w e "rq_JobID req"]] g by simp
  show ?thesis
  proof (cases "\<exists>j. g = Inr j \<and> IsTerminal (Status j)")
    case True
    then obtain j where j: "g = Inr j" "IsTerminal (Status j)" by blast
    obtain x w2 where x: "os_RemoveAll e (CheckpointDir j) w1 = (x, w2)" by fastforce
    have "prunable (db w) (CheckpointDir j)" using g j by (auto intro: got_job_prunable)
    with x have "removes_only (prunable (db w)) w1 w2" by (rule removes_only_one [rotated])
    with 1 have "removes_only (prunable (db w)) w w2" by (rule removes_only_trans)
    moreover have "w' = w2" using assms False g j x by (auto simp: handlePrune_def split: option.splits)
    ultimately show ?thesis by simp
  next
    case no: False
    then have "w' = w1" using assms False g by (auto simp: handlePrune_def split: sum.splits)
    with 1 show ?thesis by simp
  qed
qed

text \<open>
  Claim C23. Pruning, in every environment and on every branch, refusals included, leaves the
  database as it is, and each directory it asks to remove is the checkpoint directory recorded
  there for a job in a terminal status.
\<close>

theorem prune_only_terminal:
  assumes "handlePrune e req w = (rs, w')"
  shows "db w' = db w \<and> (\<exists>cs. calls w' = cs @ calls w \<and>
    (\<forall>p. RemoveAllCall p \<in> set cs \<longrightarrow> (\<exists>r \<in> set (jobs_rows (db w)).
       row_checkpoint_dir r = p \<and> IsTerminal (status_of_text (row_status r)))))"
  using handlePrune_db [of e req w] handlePrune_removes [OF assms] assms
  by (simp add: removes_only_def prunable_def)

text \<open>A database with one canceled job, for the example below.\<close>

definition world_gone :: world where
  "world_gone = empty_world\<lparr>db := insert_job_row quiet_env (sample_job\<lparr>Status := StatusCanceled\<rparr>) empty_db\<rparr>"

theorem prune_only_terminal_witness:
  "\<exists>rs w'. handlePrune quiet_env (request0\<lparr>rq_JobID := ''1''\<rparr>) world_gone = (rs, w') \<and>
     RemoveAllCall ''/ckpt/1'' \<in> set (calls w') \<and> db w' = db world_gone"
proof -
  let ?q = "request0\<lparr>rq_JobID := ''1''\<rparr>" and ?j = "sample_job\<lparr>Status := StatusCanceled\<rparr>"
  have sel: "select_row row_id 1 (jobs_rows (db world_gone)) = Some (last (jobs_rows (insert_job_row quiet_env ?j empty_db)))"
    using select_row_insert [of empty_db 1 quiet_env ?j] by (simp add: world_gone_def) (simp add: empty_db_def)
  have "schema_ready (db world_gone)"
    using schema_ready_empty by (simp add: world_gone_def insert_job_row_def schema_ready_def)
  then have get: "Store_Get quiet_env ''1'' world_gone =
      (Inr (stored_job quiet_env (FormatInt 1) ?j),
       record_call (SqlCall SqlSelectJob) world_gone)"
    using Store_Get_found [OF parseID_one sel, of quiet_env] scanJob_inserted [of ?j quiet_env empty_db]
    by (simp add: sql_error_ready) (simp add: empty_db_def)
  obtain rs w' where h: "handlePrune quiet_env ?q world_gone = (rs, w')" by fastforce
  then have c: "RemoveAllCall ''/ckpt/1'' \<in> set (calls w')"
    using get by (auto simp: handlePrune_def os_RemoveAll_def sample_job_def stored_job_def split: option.splits)
  from prune_only_terminal [OF h] h c show ?thesis by blast
qed

end
