(* ===== verification/DaemonRegister.thy ===== *)
theory DaemonRegister
  imports DaemonHandlers
begin

text \<open>
  Registration and adoption: what a new job looks like, that default checkpoint directories
  never collide, and that a checkpoint directory is not adopted twice.
\<close>

section \<open>Hook validation\<close>

text \<open>A hook path the daemon accepts whenever it looks: a regular file some execute bit is set on.\<close>

definition hook_valid :: "env \<Rightarrow> string \<Rightarrow> bool" where
  "hook_valid e path \<longleftrightarrow> path = [] \<or>
     (\<forall>h. \<exists>info. stat_file e h path = Inr info \<and> \<not> fi_is_dir info \<and> fi_mode info AND 0x49 \<noteq> 0)"

lemma validateHookPath_ok:
  assumes "hook_valid e path"
  obtains w' where "validateHookPath e flag path w = (None, w')" and "db w' = db w"
proof -
  have "fst (validateHookPath e flag path w) = None"
  proof (cases "path = []")
    case False
    then obtain info where "stat_file e (calls w) path = Inr info" "\<not> fi_is_dir info"
        "fi_mode info AND 0x49 \<noteq> 0" using assms by (auto simp: hook_valid_def)
    with False show ?thesis by (simp add: validateHookPath_def os_Stat_def)
  qed (simp add: validateHookPath_def)
  then show thesis using that validateHookPath_db(1) [of e flag path w]
    by (cases "validateHookPath e flag path w") simp
qed

lemma bits_of_0x49: "bit (0x49 :: 32 word) k \<longleftrightarrow> k = 0 \<or> k = 3 \<or> k = 6"
  by (auto simp: bit_numeral_rec bit_1_iff split: nat.splits)

lemma execute_bits: "m AND 0x49 = 0 \<longleftrightarrow> (\<forall>k \<in> {0, 3, 6}. \<not> bit m k)" for m :: "32 word"
proof
  assume "m AND 0x49 = 0"
  then have "\<not> bit (m AND 0x49) k" for k by simp
  then show "\<forall>k \<in> {0, 3, 6}. \<not> bit m k" unfolding bit_and_iff bits_of_0x49 by blast
next
  assume "\<forall>k \<in> {0, 3, 6}. \<not> bit m k"
  then have "\<not> bit (m AND 0x49) k" for k unfolding bit_and_iff bits_of_0x49 by blast
  then show "m AND 0x49 = 0" by (intro bit_eqI) simp
qed

text \<open>
  In every environment a hook path is looked up once and accepted exactly when it is found,
  is no directory, and has one of the three execute bits of its mode set.
\<close>

theorem hooks_checked:
  assumes "validateHookPath e flag path w = (res, w')" and "path \<noteq> []"
  shows "calls w' = StatCall path # calls w \<and>
    (res = None \<longleftrightarrow> (\<exists>info. stat_file e (calls w) path = Inr info \<and> \<not> fi_is_dir info \<and>
       (\<exists>k \<in> {0, 3, 6}. bit (fi_mode info) k)))"
proof (cases "stat_file e (calls w) path")
  case (Inr info)
  have "res = None \<longleftrightarrow> \<not> fi_is_dir info \<and> \<not> fi_mode info AND 0x49 = 0" and "calls w' = StatCall path # calls w"
    using assms Inr by (auto simp: validateHookPath_def os_Stat_def split: if_splits)
  then show ?thesis using Inr by (simp add: execute_bits)
qed (use assms in \<open>auto simp: validateHookPath_def os_Stat_def\<close>)

theorem hooks_checked_witness:
  "\<exists>res w'. validateHookPath quiet_env ''hook-resume'' ''/opt/rs'' empty_world = (res, w') \<and> res = None"
proof -
  obtain res w' where h: "validateHookPath quiet_env ''hook-resume'' ''/opt/rs'' empty_world = (res, w')" by fastforce
  have "bit (493 :: 32 word) 0" by (simp add: bit_0)
  with hooks_checked [OF h] h show ?thesis by (auto simp: quiet_env_def)
qed

section \<open>Registering\<close>

lemma scanJob_with_dir:
  "scanJob e r = Inr j \<Longrightarrow>
     scanJob e (r\<lparr>row_checkpoint_dir := dir, row_updated_at := t\<rparr>) = Inr (j\<lparr>CheckpointDir := dir, UpdatedAt := t\<rparr>)"
  by (auto simp: scanJob_def split: option.splits)

lemma handleRegister_registers:
  assumes "sql_ok e" and "store_wf start_statuses (db w)" and "jobs_seq (db w) < int64_max"
    and "\<not> interrupted w" and "rq_Job req = Some r"
    and "hook_valid e (rj_HookCheckpoint r)" and "hook_valid e (rj_HookResume r)"
  shows "\<exists>jid w' j. handleRegister d e req w = (resp_ok\<lparr>rs_JobID := jid\<rparr>, w') \<and>
    jid = FormatInt (jobs_seq (db w) + 1) \<and> fst (Store_Get e jid w') = Inr j \<and>
    Status j = StatusRunning \<and> PID j = rj_PID r \<and> PGID j = rj_PGID r \<and> Owner j = rq_RequestedBy req \<and>
    Tag j = rj_Tag r \<and> WorkDir j = rj_WorkDir r \<and> Command j = map_option (map sanitize) (rj_Command r) \<and>
    HookCheckpoint j = rj_HookCheckpoint r \<and> HookResume j = rj_HookResume r \<and>
    CheckpointDir j = (if rj_CheckpointDir r = [] then Join [d_checkpointBaseDir d, jid] else rj_CheckpointDir r)"
proof -
  obtain w1 where w1: "validateHookPath e ''hook-checkpoint'' (rj_HookCheckpoint r) w = (None, w1)" "db w1 = db w"
    using validateHookPath_ok [OF assms(6)] by blast
  obtain w2 where w2: "validateHookPath e ''hook-resume'' (rj_HookResume r) w1 = (None, w2)" "db w2 = db w"
    using validateHookPath_ok [OF assms(7)] w1(2) by metis
  let ?j = "registered_job req r (clock e (calls w2))" and ?w2 = "record_call NowCall w2"
  let ?n = "jobs_seq (db w) + 1" and ?d = "insert_job_row e (registered_job req r (clock e (calls w2))) (db w)"
  note ready = store_wfD(1) [OF assms(2)]
  have ins: "fst (Store_Insert e ?j ?w2) = Inr (FormatInt ?n)" "db (snd (Store_Insert e ?j ?w2)) = ?d"
    using Store_Insert_succeeds [OF assms(1), of ?w2 ?j] ready assms(3) w2(2) by simp_all
  obtain w3 where w3: "Store_Insert e ?j ?w2 = (Inr (FormatInt ?n), w3)" "db w3 = ?d"
    using ins by (cases "Store_Insert e ?j ?w2") simp
  have "in_int64 ?n" using store_wfD(4) [OF assms(2)] assms(3) by (simp add: in_int64_def int64_bounds_values)
  then have id1: "parseID (FormatInt ?n) = Inr ?n" by (rule parseID_FormatInt)
  let ?row = "last (jobs_rows ?d)"
  have sel: "select_row row_id ?n (jobs_rows ?d) = Some ?row"
    using select_row_insert [OF fresh_id [OF assms(2)], of ?n e ?j] by simp
  have ready3: "schema_ready ?d" using ready by (simp add: insert_job_row_def schema_ready_def)
  have scan: "scanJob e ?row = Inr (stored_job e (FormatInt ?n) ?j)"
    by (rule scanJob_inserted) (simp add: registered_job_def)
  note simps = handleRegister_def assms(4,5) w1(1) w2(1) w3(1) now_utc_def
  show ?thesis
  proof (cases "rj_CheckpointDir r = []")
    case False
    then have "handleRegister d e req w = (resp_ok\<lparr>rs_JobID := FormatInt ?n\<rparr>, w3)" by (simp add: simps)
    moreover have "fst (Store_Get e (FormatInt ?n) w3) = scanJob e ?row"
      using Store_Get_spec [OF assms(1), of w3] ready3 w3(2) id1 sel by simp
    ultimately show ?thesis using scan False by (simp add: registered_job_def stored_job_def)
  next
    case True
    let ?dir = "Join [d_checkpointBaseDir d, FormatInt ?n]"
    obtain now w4 where w4: "Store_UpdateCheckpointDir e (FormatInt ?n) ?dir w3 = (None, w4)"
      "db w4 = update_jobs ?n (\<lambda>r. r\<lparr>row_checkpoint_dir := ?dir, row_updated_at := now\<rparr>) (db w3)"
      by (rule Store_UpdateCheckpointDir_commits [OF assms(1) ready3 [folded w3(2)] id1 sel [folded w3(2)]])
    have "handleRegister d e req w = (resp_ok\<lparr>rs_JobID := FormatInt ?n\<rparr>, w4)"
      using True by (simp add: simps w4(1))
    moreover have "schema_ready (db w4)" using ready3 w3(2) by (simp add: w4(2) update_jobs_def schema_ready_def)
    then have "fst (Store_Get e (FormatInt ?n) w4) =
        scanJob e (?row\<lparr>row_checkpoint_dir := ?dir, row_updated_at := now\<rparr>)"
      using Store_Get_spec [OF assms(1), of w4] id1 sel w3(2)
      by (simp add: w4(2) update_jobs_def select_row_update)
    ultimately show ?thesis using scanJob_with_dir [OF scan] True by (simp add: registered_job_def stored_job_def)
  qed
qed

lemma register_ok_response:
  assumes "sql_ok e" and "store_wf start_statuses (db w)" and "jobs_seq (db w) < int64_max"
    and "\<not> interrupted w" and "rq_Job req = Some r"
    and "hook_valid e (rj_HookCheckpoint r)" and "hook_valid e (rj_HookResume r)"
  shows "\<exists>jid w'. handleRegister d e req w = (resp_ok\<lparr>rs_JobID := jid\<rparr>, w')"
  using handleRegister_registers [OF assms] by blast

text \<open>
  Claim C20. Registering a job, on a working database that is not full and with valid hooks: the
  answer is OK with a fresh id, and from then on that id names a RUNNING job with exactly
  the submitted process ids, hooks, directory and tag, owned by the requesting user. When
  no checkpoint directory was given, it is the one named after the id under the base
  directory.
\<close>

theorem register_outcome:
  assumes "sql_ok e" and "store_wf start_statuses (db w)" and "jobs_seq (db w) < int64_max"
    and "\<not> interrupted w" and "rq_Job req = Some r"
    and "hook_valid e (rj_HookCheckpoint r)" and "hook_valid e (rj_HookResume r)"
  shows "\<exists>jid w' j. handleRegister d e req w = (resp_ok\<lparr>rs_JobID := jid\<rparr>, w') \<and>
    jid = FormatInt (jobs_seq (db w) + 1) \<and> fst (Store_Get e jid w') = Inr j \<and>
    Status j = StatusRunning \<and> PID j = rj_PID r \<and> PGID j = rj_PGID r \<and> Owner j = rq_RequestedBy req \<and>
    Tag j = rj_Tag r \<and> WorkDir j = rj_WorkDir r \<and> Command j = map_option (map sanitize) (rj_Command r) \<and>
    HookCheckpoint j = rj_HookCheckpoint r \<and> HookResume j = rj_HookResume r \<and>
    CheckpointDir j = (if rj_CheckpointDir r = [] then Join [d_checkpointBaseDir d, jid] else rj_CheckpointDir r)"
  using assms by (rule handleRegister_registers)

definition sample_register :: RegisterJob where
  "sample_register = \<lparr>rj_PID = 77, rj_PGID = 77, rj_Command = Some [''python'', ''train.py''], rj_WorkDir = ''/home'',
     rj_CheckpointDir = [], rj_HookCheckpoint = ''/opt/ck'', rj_HookResume = [], rj_Tag = ''slurm-9''\<rparr>"

lemma quiet_hook_valid: "hook_valid quiet_env path"
proof -
  have "(493 :: 32 word) AND 0x49 \<noteq> 0" by (simp add: execute_bits bit_0)
  then show ?thesis by (auto simp: hook_valid_def quiet_env_def)
qed

theorem register_outcome_witness:
  "\<exists>jid w' j. handleRegister sample_daemon quiet_env (request0\<lparr>rq_Job := Some sample_register\<rparr>) empty_world =
      (resp_ok\<lparr>rs_JobID := jid\<rparr>, w') \<and> fst (Store_Get quiet_env jid w') = Inr j \<and> Status j = StatusRunning"
proof -
  have "jobs_seq (db empty_world) < int64_max" "\<not> interrupted empty_world"
      "rq_Job (request0\<lparr>rq_Job := Some sample_register\<rparr>) = Some sample_register"
    by (simp_all add: empty_world_def empty_db_def int64_bounds_values)
  from register_outcome [OF sql_ok_quiet empty_world_wf this quiet_hook_valid quiet_hook_valid, of sample_daemon]
  show ?thesis by metis
qed

section \<open>Ids and default directories\<close>

lemma register_ok_id:
  assumes "handleRegister d e req w = (rs, w')" and "rs_OK rs"
  shows "rs_JobID rs = FormatInt (jobs_seq (db w) + 1)" and "jobs_seq (db w) < int64_max"
    and "jobs_seq (db w') = jobs_seq (db w) + 1"
proof -
  obtain r where r: "rq_Job req = Some r" "\<not> interrupted w"
    using assms by (auto simp: handleRegister_def split: option.splits if_splits)
  obtain v1 w1 where 1: "validateHookPath e ''hook-checkpoint'' (rj_HookCheckpoint r) w = (v1, w1)" by fastforce
  obtain v2 w2 where 2: "validateHookPath e ''hook-resume'' (rj_HookResume r) w1 = (v2, w2)" by fastforce
  have db2: "db w2 = db w" using 1 2 by (metis snd_conv validateHookPath_db(1))
  let ?j = "registered_job req r (clock e (calls w2))"
  obtain i w3 where 3: "Store_Insert e ?j (record_call NowCall w2) = (i, w3)" by fastforce
  have v: "v1 = None" "v2 = None" using assms r 1 2
    by (auto simp: handleRegister_def split: option.splits)
  obtain jid where i: "i = Inr jid" using assms r 1 2 3 v
    by (cases i) (auto simp: handleRegister_def now_utc_def)
  have w': "rs = resp_ok\<lparr>rs_JobID := jid\<rparr>" "db w' = db w3 \<or>
      (\<exists>n f. db w' = update_jobs n f (db w3))"
    using assms r 1 2 3 v i Store_UpdateCheckpointDir_cases [OF surjective_pairing, of e jid _ w3]
    by (auto simp: handleRegister_def now_utc_def split: if_splits)
  from Store_Insert_cases [OF 3] i db2
  have "jid = FormatInt (jobs_seq (db w) + 1)" "jobs_seq (db w) < int64_max" "jobs_seq (db w3) = jobs_seq (db w) + 1"
    by auto
  with w' show "rs_JobID rs = FormatInt (jobs_seq (db w) + 1)" "jobs_seq (db w) < int64_max"
      "jobs_seq (db w') = jobs_seq (db w) + 1"
    by (auto simp: resp_ok_def response0_def update_jobs_def)
qed

lemma evolves_seq_mono: "evolves S d d' \<Longrightarrow> jobs_seq d \<le> jobs_seq d'"
proof (induction rule: rtranclp_induct)
  case (step y z)
  from step.hyps(2) have "jobs_seq y \<le> jobs_seq z" by cases (simp_all add: update_jobs_def)
  with step.IH show ?case by simp
qed simp

lemma daemon_run_seq_mono:
  "(daemon_step d e)\<^sup>*\<^sup>* w w' \<Longrightarrow> runner_ok d \<Longrightarrow> jobs_seq (db w) \<le> jobs_seq (db w')"
  by (induction rule: rtranclp_induct) (auto dest!: daemon_step_evolves evolves_seq_mono)

text \<open>Different ids name different default directories, whatever the base directory is called.\<close>

lemma default_dirs_differ:
  assumes "0 \<le> m" and "m < n" and "n \<le> int64_max"
  shows "Join [base, FormatInt m] \<noteq> Join [base, FormatInt n]"
proof -
  have "in_int64 m" "in_int64 n" using assms by (simp_all add: in_int64_def int64_bounds_values)
  then have "FormatInt m \<noteq> FormatInt n" using assms(2) by (metis FormatInt_inject less_irrefl)
  moreover have "plain_name (FormatInt m)" "plain_name (FormatInt n)" using FormatInt_plain assms by simp_all
  ultimately show ?thesis using Join_inject by metis
qed

section \<open>Adopting\<close>

lemma collect_jobs_all:
  "fst (collect_jobs e rs w) = Inr js \<Longrightarrow> r \<in> set rs \<Longrightarrow> \<exists>j \<in> set js. scanJob e r = Inr j"
proof (induction rs arbitrary: js w)
  case (Cons s rs)
  let ?w = "record_call (SqlCall SqlScanRow) w"
  from Cons.prems(1) obtain i ks where i: "scanJob e s = Inr i" "fst (collect_jobs e rs ?w) = Inr ks" "js = i # ks"
    by (auto split: store_splits)
  with Cons.IH [OF i(2)] Cons.prems(2) show ?case by auto
qed simp

lemma find_None_all: "find P xs = None \<Longrightarrow> x \<in> set xs \<Longrightarrow> \<not> P x"
  by (auto simp: find_None_iff)

text \<open>
  Claim C21. In every environment, when an adoption runs without another request changing the job
  table between its scan of the active jobs and its insert, and is answered with OK: at that
  time no job outside the terminal statuses was recorded with that checkpoint directory, and
  exactly one job was added, in CHECKPOINT_CREATED, with the given directory and hooks, owned
  by the requesting user, under the next id. The condition is needed: two adoptions at once
  can both pass the scan, as the comment in \<open>handleAdopt\<close> says.
\<close>

theorem adopt_exclusive:
  assumes "store_wf start_statuses (db w)" and "handleAdopt d e req w = (rs, w')" and "rs_OK rs"
  shows "\<exists>a now. rq_Adopt req = Some a \<and> \<not> interrupted w \<and> ac_CheckpointDir a \<noteq> [] \<and>
    (\<forall>r \<in> set (jobs_rows (db w)). row_checkpoint_dir r = ac_CheckpointDir a \<longrightarrow>
       IsTerminal (status_of_text (row_status r))) \<and>
    db w' = insert_job_row e (adopted_job req a now) (db w) \<and>
    rs_JobID rs = FormatInt (jobs_seq (db w) + 1) \<and>
    status_at (db w') = (status_at (db w))(jobs_seq (db w) + 1 \<mapsto> StatusCheckpointCreated)"
proof -
  obtain a where a: "rq_Adopt req = Some a" "\<not> interrupted w" "ac_CheckpointDir a \<noteq> []"
    using assms(2,3) by (auto simp: handleAdopt_def split: option.splits if_splits)
  obtain v0 w0 where 0: "validateCheckpointDir e (ac_CheckpointDir a) (ac_HookResume a) w = (v0, w0)" by fastforce
  obtain v1 w1 where 1: "validateHookPath e ''hook-checkpoint'' (ac_HookCheckpoint a) w0 = (v1, w1)" by fastforce
  obtain v2 w2 where 2: "validateHookPath e ''hook-resume'' (ac_HookResume a) w1 = (v2, w2)" by fastforce
  obtain l w3 where 3: "Store_List e w2 = (l, w3)" by fastforce
  have db2: "db w2 = db w" using 0 1 2 by (metis snd_conv validateHookPath_db(1) validateCheckpointDir_db(1))
  have db3: "db w3 = db w" using 3 db2 by (metis snd_conv Store_List_db)
  let ?j = "adopted_job req a (clock e (calls w3))"
  obtain i w4 where 4: "Store_Insert e ?j (record_call NowCall w3) = (i, w4)" by fastforce
  have v: "v0 = None" "v1 = None" "v2 = None" using assms(2,3) a 0 1 2
    by (auto simp: handleAdopt_def split: option.splits)
  obtain act where l: "l = Inr act" using assms(2,3) a 0 1 2 3 v
    by (cases l) (auto simp: handleAdopt_def)
  have fresh: "find (\<lambda>ej. CheckpointDir ej = ac_CheckpointDir a) act = None"
    using assms(2,3) a 0 1 2 3 v l by (auto simp: handleAdopt_def split: option.splits)
  obtain jid where i: "i = Inr jid" using assms(2,3) a 0 1 2 3 4 v l fresh
    by (cases i) (auto simp: handleAdopt_def now_utc_def)
  have out: "rs = resp_ok\<lparr>rs_JobID := jid\<rparr>" "w' = w4"
    using assms(2) a 0 1 2 3 4 v l fresh i by (simp_all add: handleAdopt_def now_utc_def)
  have ins: "db w4 = insert_job_row e ?j (db w)" "jid = FormatInt (jobs_seq (db w) + 1)"
    using Store_Insert_cases [OF 4] i db3 by auto
  have scan: "fst (collect_jobs e (active_rows (db w)) (record_call (SqlCall SqlSelectActive) w2)) = Inr act"
    using 3 l db2 by (auto simp: Store_List_def split: store_splits)
  have "IsTerminal (status_of_text (row_status r))"
    if "r \<in> set (jobs_rows (db w))" "row_checkpoint_dir r = ac_CheckpointDir a" for r
  proof -
    have "r \<notin> set (active_rows (db w))"
      using collect_jobs_all [OF scan, of r] find_None_all [OF fresh]
        scanJob_InrD(3) [of e r] that(2) by metis
    with that(1) show ?thesis by (auto simp: active_rows_def terminal_texts_iff)
  qed
  moreover have "status_at (db w') = (status_at (db w))(jobs_seq (db w) + 1 \<mapsto> StatusCheckpointCreated)"
    using status_at_insert [OF _ fresh_id [OF assms(1)], of ?j] out(2) ins(1)
    by (simp add: adopted_job_def del: fun_upd_apply)
  ultimately show ?thesis using a out ins by (auto simp: resp_ok_def response0_def)
qed

definition sample_adopt :: AdoptCheckpoint where
  "sample_adopt = \<lparr>ac_CheckpointDir = ''/ckpt/1'', ac_HookResume = ''/opt/rs'', ac_HookCheckpoint = [], ac_Tag = []\<rparr>"

text \<open>An environment in which the checkpoint directory is a directory and everything else a file.\<close>

definition adopt_env :: env where
  "adopt_env = quiet_env\<lparr>stat_file := (\<lambda>_ p. Inr \<lparr>fi_is_dir = (p = ''/ckpt/1''), fi_mode = 493\<rparr>)\<rparr>"

lemma adopt_env_ok: "sql_ok adopt_env"
  using sql_ok_quiet by (simp add: adopt_env_def sql_ok_def)

lemma sample_adopt_fields:
  "ac_CheckpointDir sample_adopt = ''/ckpt/1''" "ac_HookResume sample_adopt = ''/opt/rs''"
  "ac_HookCheckpoint sample_adopt = []"
  by (simp_all add: sample_adopt_def)

lemma adopt_env_answers:
  "validateHookPath adopt_env f ''/opt/rs'' w = (None, record_call (StatCall ''/opt/rs'') w)"
  "validateHookPath adopt_env f [] w = (None, w)"
  "validateCheckpointDir adopt_env ''/ckpt/1'' ''/opt/rs'' w = (None, record_call (StatCall ''/ckpt/1'') w)"
proof -
  have "(493 :: 32 word) AND 0x49 \<noteq> 0" by (simp add: execute_bits bit_0)
  then show "validateHookPath adopt_env f ''/opt/rs'' w = (None, record_call (StatCall ''/opt/rs'') w)"
    by (simp add: validateHookPath_def os_Stat_def) (simp add: adopt_env_def)
  show "validateHookPath adopt_env f [] w = (None, w)" by (simp add: validateHookPath_def)
  show "validateCheckpointDir adopt_env ''/ckpt/1'' ''/opt/rs'' w = (None, record_call (StatCall ''/ckpt/1'') w)"
    by (simp add: validateCheckpointDir_def os_Stat_def) (simp add: adopt_env_def)
qed

theorem adopt_exclusive_witness:
  "\<exists>rs w'. handleAdopt sample_daemon adopt_env (request0\<lparr>rq_Adopt := Some sample_adopt\<rparr>) empty_world = (rs, w') \<and>
     rs_OK rs \<and> status_at (db w') 1 = Some StatusCheckpointCreated"
proof -
  let ?q = "request0\<lparr>rq_Adopt := Some sample_adopt\<rparr>"
  let ?w2 = "record_call (StatCall ''/opt/rs'') (record_call (StatCall ''/ckpt/1'') empty_world)"
  have e0: "db empty_world = empty_db" "\<not> interrupted empty_world" by (simp_all add: empty_world_def)
  have none: "active_rows empty_db = []" by (simp add: active_rows_def empty_db_def)
  obtain w3 where w3: "Store_List adopt_env ?w2 = (Inr [], w3)" "db w3 = empty_db"
    using adopt_env_ok schema_ready_empty
    by (simp add: Store_List_def sql_def sql_error_ready e0 none)
  let ?j = "adopted_job ?q sample_adopt (clock adopt_env (calls w3))"
  have "jobs_seq empty_db < int64_max" by (simp add: empty_db_def int64_bounds_values)
  then obtain jid w4 where w4: "Store_Insert adopt_env ?j (record_call NowCall w3) = (Inr jid, w4)"
    using Store_Insert_succeeds(1) [OF adopt_env_ok, of "record_call NowCall w3" ?j] w3(2)
    by (cases "Store_Insert adopt_env ?j (record_call NowCall w3)") simp
  have h: "handleAdopt sample_daemon adopt_env ?q empty_world = (resp_ok\<lparr>rs_JobID := jid\<rparr>, w4)"
    using w4 by (simp add: handleAdopt_def sample_adopt_fields adopt_env_answers e0 w3(1) now_utc_def)
  have "rs_OK (resp_ok\<lparr>rs_JobID := jid\<rparr>)" by (simp add: resp_ok_def response0_def)
  from adopt_exclusive [OF empty_world_wf h this] this h show ?thesis
    by (auto simp: e0) (simp add: empty_db_def)
qed

end
