(* ===== verification/Fanout.thy ===== *)
theory Fanout
  imports DaemonHandlers
begin

text \<open>
  The checkpoints of an interruption, run concurrently: the loop of \<open>handleInterruption\<close> that
  starts one goroutine per running job, a channel as a semaphore bounding how many run, and
  the wait for all of them.

  A goroutine is a \<open>checkpointJob\<close> cut into its atomic actions: the status read and the
  transaction of each \<open>UpdateStatus\<close> (other goroutines can act between the two), the audit
  entries (each under the logger's lock), and the checkpoint itself. A state of the fan-out
  is the list of jobs, each with the phase it is in, the number of tokens in the semaphore,
  and the world; a step is the loop starting the next goroutine, an action of one goroutine,
  a goroutine returning its token, or something else the daemon does meanwhile that leaves
  these jobs alone. A checkpoint that never returns, as a hook that hangs, is a goroutine whose
  next action is never taken; then the fan-out does not complete.
\<close>

section \<open>The two halves of \<open>UpdateStatus\<close>\<close>

definition update_read :: "env \<Rightarrow> string \<Rightarrow> Status \<Rightarrow> world \<Rightarrow> (store_error + int \<times> Status) \<times> world" where
  "update_read e jid to_st w = (case parseID jid of
     Inl err \<Rightarrow> (Inl err, w)
   | Inr n \<Rightarrow> (case Store_Get e jid w of
        (Inl err, w) \<Rightarrow> (Inl err, w)
      | (Inr existing, w) \<Rightarrow>
          if \<not> ValidTransition (Status existing) to_st
          then (Inl (InvalidTransition jid (Status existing) to_st), w)
          else (Inr (n, Status existing), w)))"

definition update_write ::
  "env \<Rightarrow> string \<Rightarrow> int \<Rightarrow> Status \<Rightarrow> Status \<Rightarrow> string \<Rightarrow> string \<Rightarrow> world \<Rightarrow> store_error option \<times> world" where
  "update_write e jid n from_st to_st failureReason changedBy w =
     update_tx e jid n SqlUpdateStatus (set_status to_st failureReason) from_st to_st changedBy w"

lemma UpdateStatus_halves:
  "Store_UpdateStatus e jid to_st why by_whom w =
     (case update_read e jid to_st w of
        (Inl err, w) \<Rightarrow> (Some err, w)
      | (Inr (n, a), w) \<Rightarrow> update_write e jid n a to_st why by_whom w)"
  by (auto simp: Store_UpdateStatus_def update_read_def update_write_def split: store_splits)

lemma update_read_db [simp]: "db (snd (update_read e jid b w)) = db w"
  by (auto simp: update_read_def split: store_splits dest: Store_Get_eq_db)

lemma update_read_finds:
  assumes "sql_ok e" and "store_wf S (db w)" and "parseID jid = Inr n"
    and "status_at (db w) n = Some a" and "ValidTransition a b"
  shows "fst (update_read e jid b w) = Inr (n, a)"
proof -
  obtain j where "Store_Get e jid w = (Inr j, record_call (SqlCall SqlSelectJob) w)" "Status j = a"
    by (rule get_job [OF assms(1-4)])
  with assms(3,5) show ?thesis by (simp add: update_read_def)
qed

lemma update_write_moves:
  assumes "sql_ok e" and "store_wf S (db w)" and "status_at (db w) n = Some a" and "ValidTransition a b"
  shows "moved (db w) n [(a, b)] b (db (snd (update_write e jid n a b why by_whom w)))"
    and "reason_at (db (snd (update_write e jid n a b why by_whom w))) n = Some why"
    and "store_wf S (db (snd (update_write e jid n a b why by_whom w)))"
proof -
  let ?m = "update_write e jid n a b why by_whom w"
  obtain r where r: "select_row row_id n (jobs_rows (db w)) = Some r" "status_of_text (row_status r) = a"
    using assms(3) by (auto simp: status_at_def)
  have "fst ?m = None"
    unfolding update_write_def by (rule update_tx_succeeds [OF assms(1) store_wfD(1) [OF assms(2)] r(1)])
  then have "?m = (None, snd ?m)" by (cases ?m) simp
  then obtain now where now: "db (snd ?m) = committed n (set_status b why now) a b by_whom now (db w)"
    unfolding update_write_def by (rule update_tx_None)
  show "moved (db w) n [(a, b)] b (db (snd ?m))"
    unfolding now by (rule committed_moved) (use assms in simp_all)
  show "reason_at (db (snd ?m)) n = Some why"
    using committed_fields [OF r(1), of "set_status b why now"] by (simp add: now reason_at_def set_status_def)
  show "store_wf S (db (snd ?m))"
    unfolding now by (rule committed_wf [OF assms(2) r(1)]) (use assms r in simp_all)
qed

section \<open>A checkpoint in atomic actions\<close>

datatype phase =
    Waiting \<comment> \<open>the loop has not reached the job\<close>
  | MarkRead | MarkWrite int Status | LogStart \<comment> \<open>to CHECKPOINT_IN_PROGRESS\<close>
  | Dump
  | RecordRead "string option" | RecordWrite "string option" int Status | LogEnd "string option"
  | Release "string option" \<comment> \<open>\<open>checkpointJob\<close> has returned, the token is still out\<close>
  | Finished "string option"

fun active :: "phase \<Rightarrow> bool" where
  "active Waiting = False"
| "active (Finished _) = False"
| "active _ = True"

definition final_status :: "string option \<Rightarrow> Status" where
  "final_status res = (case res of Some _ \<Rightarrow> StatusCheckpointCreationFailed | None \<Rightarrow> StatusCheckpointCreated)"

definition final_reason :: "string option \<Rightarrow> string" where
  "final_reason res = (case res of Some t \<Rightarrow> t | None \<Rightarrow> [])"

fun checkpoint_action ::
  "Daemon \<Rightarrow> env \<Rightarrow> Job \<Rightarrow> string \<Rightarrow> phase \<Rightarrow> world \<Rightarrow> phase \<times> world" where
  "checkpoint_action d e j by_whom MarkRead w =
     (case update_read e (ID j) StatusCheckpointInProgress w of
        (Inl _, w) \<Rightarrow> (LogStart, w) | (Inr (n, a), w) \<Rightarrow> (MarkWrite n a, w))"
| "checkpoint_action d e j by_whom (MarkWrite n a) w =
     (LogStart, snd (update_write e (ID j) n a StatusCheckpointInProgress [] by_whom w))"
| "checkpoint_action d e j by_whom LogStart w =
     (Dump, logDaemon d e ''checkpoint_started'' (ID j) ''ok'' [] w)"
| "checkpoint_action d e j by_whom Dump w =
     (case d_checkpointFunc d e (CheckpointDir j) j w of (res, w) \<Rightarrow> (RecordRead res, w))"
| "checkpoint_action d e j by_whom (RecordRead res) w =
     (case update_read e (ID j) (final_status res) w of
        (Inl _, w) \<Rightarrow> (LogEnd res, w) | (Inr (n, a), w) \<Rightarrow> (RecordWrite res n a, w))"
| "checkpoint_action d e j by_whom (RecordWrite res n a) w =
     (LogEnd res, snd (update_write e (ID j) n a (final_status res) (final_reason res) by_whom w))"
| "checkpoint_action d e j by_whom (LogEnd res) w =
     (Release res, case res of
        Some t \<Rightarrow> logDaemon d e ''checkpoint_failed'' (ID j) ''error'' t w
      | None \<Rightarrow> logDaemon d e ''checkpoint_succeeded'' (ID j) ''ok'' [] w)"
| "checkpoint_action d e j by_whom p w = (p, w)"

text \<open>Whether a phase has an action of the goroutine's own next.\<close>

fun acting :: "phase \<Rightarrow> bool" where
  "acting (Release _) = False"
| "acting p = active p"

text \<open>How many more steps a job needs at most.\<close>

fun remaining :: "phase \<Rightarrow> nat" where
  "remaining Waiting = 9"
| "remaining MarkRead = 8"
| "remaining (MarkWrite _ _) = 7"
| "remaining LogStart = 6"
| "remaining Dump = 5"
| "remaining (RecordRead _) = 4"
| "remaining (RecordWrite _ _ _) = 3"
| "remaining (LogEnd _) = 2"
| "remaining (Release _) = 1"
| "remaining (Finished _) = 0"

lemma checkpoint_action_remaining:
  assumes "acting p" shows "remaining (fst (checkpoint_action d e j by_whom p w)) < remaining p"
  using assms by (cases p) (auto split: prod.splits sum.splits)

lemma checkpoint_action_active:
  assumes "acting p" shows "active (fst (checkpoint_action d e j by_whom p w))"
  using assms by (cases p) (auto split: prod.splits sum.splits)

text \<open>One goroutine alone, from a phase to its return.\<close>

function run_checkpoint :: "Daemon \<Rightarrow> env \<Rightarrow> Job \<Rightarrow> string \<Rightarrow> phase \<Rightarrow> world \<Rightarrow> phase \<times> world" where
  "run_checkpoint d e j by_whom p w =
     (if acting p then (case checkpoint_action d e j by_whom p w of
        (p', w') \<Rightarrow> run_checkpoint d e j by_whom p' w')
      else (p, w))"
  by pat_completeness auto
termination
  by (relation "measure (\<lambda>(_, _, _, _, p, _). remaining p)")
    (simp_all add: case_prod_unfold checkpoint_action_remaining)

declare run_checkpoint.simps [simp del]

lemma run_checkpoint_step:
  "acting p \<Longrightarrow> run_checkpoint d e j by_whom p w =
     run_checkpoint d e j by_whom (fst (checkpoint_action d e j by_whom p w))
       (snd (checkpoint_action d e j by_whom p w))"
  by (subst run_checkpoint.simps) (simp only: case_prod_unfold if_True)

lemma run_checkpoint_end [simp]: "\<not> acting p \<Longrightarrow> run_checkpoint d e j by_whom p w = (p, w)"
  by (subst run_checkpoint.simps) simp

lemma run_mark:
  "run_checkpoint d e j by_whom MarkRead w =
     run_checkpoint d e j by_whom LogStart
       (snd (Store_UpdateStatus e (ID j) StatusCheckpointInProgress [] by_whom w))"
proof (cases "update_read e (ID j) StatusCheckpointInProgress w")
  case (Pair r w1)
  have second: "run_checkpoint d e j by_whom (MarkWrite n a) w1 = run_checkpoint d e j by_whom LogStart
      (snd (update_write e (ID j) n a StatusCheckpointInProgress [] by_whom w1))" for n a
    using run_checkpoint_step [of "MarkWrite n a"] by simp
  show ?thesis
    using run_checkpoint_step [of MarkRead d e j by_whom w] Pair second
    by (cases r) (auto simp: UpdateStatus_halves)
qed

lemma run_record:
  "run_checkpoint d e j by_whom (RecordRead res) w =
     run_checkpoint d e j by_whom (LogEnd res)
       (snd (Store_UpdateStatus e (ID j) (final_status res) (final_reason res) by_whom w))"
proof (cases "update_read e (ID j) (final_status res) w")
  case (Pair r w1)
  have second: "run_checkpoint d e j by_whom (RecordWrite res n a) w1 = run_checkpoint d e j by_whom (LogEnd res)
      (snd (update_write e (ID j) n a (final_status res) (final_reason res) by_whom w1))" for n a
    using run_checkpoint_step [of "RecordWrite res n a"] by simp
  show ?thesis
    using run_checkpoint_step [of "RecordRead res" d e j by_whom w] Pair second
    by (cases r) (auto simp: UpdateStatus_halves)
qed

text \<open>The actions in a row are \<open>checkpointJob\<close>.\<close>

lemma run_checkpoint_checkpointJob:
  "run_checkpoint d e j by_whom MarkRead w =
     (Release (fst (checkpointJob d e j by_whom w)), snd (checkpointJob d e j by_whom w))"
proof -
  let ?w1 = "snd (Store_UpdateStatus e (ID j) StatusCheckpointInProgress [] by_whom w)"
  let ?w2 = "logDaemon d e ''checkpoint_started'' (ID j) ''ok'' [] ?w1"
  obtain res w3 where dump: "d_checkpointFunc d e (CheckpointDir j) j ?w2 = (res, w3)" by fastforce
  have "run_checkpoint d e j by_whom MarkRead w = run_checkpoint d e j by_whom (RecordRead res) w3"
    using run_checkpoint_step [of LogStart d e j by_whom ?w1] run_checkpoint_step [of Dump d e j by_whom ?w2]
    by (simp add: run_mark dump)
  then show ?thesis
    using run_checkpoint_step [of "LogEnd res" d e j by_whom]
    by (cases res) (simp_all add: run_record checkpointJob_def Let_def dump final_status_def final_reason_def)
qed

section \<open>The fan-out\<close>

record fanout =
  fan_jobs :: "(Job \<times> phase) list"
  fan_sem :: nat \<comment> \<open>tokens in the channel \<open>sem\<close>\<close>
  fan_world :: world

definition fan_start :: "Job list \<Rightarrow> world \<Rightarrow> fanout" where
  "fan_start js w = \<lparr>fan_jobs = map (\<lambda>j. (j, Waiting)) js, fan_sem = 0, fan_world = w\<rparr>"

text \<open>The wait group is at zero: \<open>handleInterruption\<close> returns.\<close>

definition fan_complete :: "fanout \<Rightarrow> bool" where
  "fan_complete s \<longleftrightarrow> list_all (\<lambda>(_, p). remaining p = 0) (fan_jobs s)"

definition set_phase :: "nat \<Rightarrow> phase \<Rightarrow> fanout \<Rightarrow> fanout" where
  "set_phase i p s = s\<lparr>fan_jobs := (fan_jobs s)[i := (fst (fan_jobs s ! i), p)]\<rparr>"

text \<open>
  \<open>spawn\<close> takes the jobs in order and blocks while the channel is full; \<open>act\<close> is any
  goroutine's next action; \<open>release\<close> is its deferred receive from the channel.
\<close>

inductive fan_step :: "Daemon \<Rightarrow> env \<Rightarrow> fanout \<Rightarrow> fanout \<Rightarrow> bool" for d e where
  spawn: "i < length (fan_jobs s) \<Longrightarrow> snd (fan_jobs s ! i) = Waiting \<Longrightarrow>
    \<forall>k < i. snd (fan_jobs s ! k) \<noteq> Waiting \<Longrightarrow> int (fan_sem s) < d_maxConcurrentCheckpoints d \<Longrightarrow>
    fan_step d e s (set_phase i MarkRead (s\<lparr>fan_sem := Suc (fan_sem s)\<rparr>))"
| act: "i < length (fan_jobs s) \<Longrightarrow> fan_jobs s ! i = (j, p) \<Longrightarrow> acting p \<Longrightarrow>
    checkpoint_action d e j daemonActor p (fan_world s) = (p', w') \<Longrightarrow>
    fan_step d e s (set_phase i p' (s\<lparr>fan_world := w'\<rparr>))"
| release: "i < length (fan_jobs s) \<Longrightarrow> snd (fan_jobs s ! i) = Release res \<Longrightarrow>
    fan_step d e s (set_phase i (Finished res) (s\<lparr>fan_sem := fan_sem s - 1\<rparr>))"

inductive_cases fan_stepE: "fan_step d e s s'"

text \<open>What else the daemon may do meanwhile: serve requests and deliver notifications that leave
  the rows and the history of the jobs of the fan-out alone.\<close>

definition undisturbed :: "Job list \<Rightarrow> world \<Rightarrow> world \<Rightarrow> bool" where
  "undisturbed js w w' \<longleftrightarrow> (\<forall>S. store_wf S (db w) \<longrightarrow> store_wf S (db w')) \<and>
     (\<forall>j \<in> set js. \<forall>n. parseID (ID j) = Inr n \<longrightarrow>
        select_row row_id n (jobs_rows (db w')) = select_row row_id n (jobs_rows (db w)) \<and>
        job_history (db w') n = job_history (db w) n)"

inductive fan_other :: "fanout \<Rightarrow> fanout \<Rightarrow> bool" where
  other: "undisturbed (map fst (fan_jobs s)) (fan_world s) w' \<Longrightarrow> fan_other s (s\<lparr>fan_world := w'\<rparr>)"

abbreviation fan_any :: "Daemon \<Rightarrow> env \<Rightarrow> fanout \<Rightarrow> fanout \<Rightarrow> bool" where
  "fan_any d e \<equiv> sup (fan_step d e) fan_other"

lemma set_phase_simps [simp]:
  "length (fan_jobs (set_phase i p s)) = length (fan_jobs s)"
  "fan_sem (set_phase i p s) = fan_sem s" "fan_world (set_phase i p s) = fan_world s"
  by (simp_all add: set_phase_def)

lemma set_phase_jobs [simp]: "map fst (fan_jobs (set_phase i p s)) = map fst (fan_jobs s)"
  by (cases "i < length (fan_jobs s)") (simp_all add: set_phase_def map_update
      list_update_same_conv list_update_beyond not_less)

section \<open>The semaphore\<close>

text \<open>The tokens out are exactly the goroutines running.\<close>

definition running :: "fanout \<Rightarrow> nat" where
  "running s = length (filter (\<lambda>(_, p). active p) (fan_jobs s))"

definition sem_ok :: "Daemon \<Rightarrow> fanout \<Rightarrow> bool" where
  "sem_ok d s \<longleftrightarrow> fan_sem s = running s \<and> int (fan_sem s) \<le> d_maxConcurrentCheckpoints d"

lemma sum_list_update_nat:
  fixes f :: "'a \<Rightarrow> nat"
  shows "i < length xs \<Longrightarrow> (\<Sum>x \<leftarrow> xs[i := y]. f x) + f (xs ! i) = (\<Sum>x \<leftarrow> xs. f x) + f y"
  by (induction xs arbitrary: i) (auto simp: less_Suc_eq_0_disj)

lemma length_filter_sum: "length (filter P xs) = (\<Sum>x \<leftarrow> xs. if P x then 1 else 0)"
  by (induction xs) simp_all

lemma running_set_phase:
  assumes "i < length (fan_jobs s)"
  shows "running (set_phase i p s) + (if active (snd (fan_jobs s ! i)) then 1 else 0) =
    running s + (if active p then 1 else 0)"
  using sum_list_update_nat [OF assms, of "\<lambda>x. if active (snd x) then 1 else 0" "(fst (fan_jobs s ! i), p)"]
  by (simp add: running_def length_filter_sum set_phase_def case_prod_unfold)

lemma running_world [simp]:
  "running (s\<lparr>fan_world := w\<rparr>) = running s" "running (s\<lparr>fan_sem := k\<rparr>) = running s"
  by (simp_all add: running_def)

lemma acting_active: "acting p \<Longrightarrow> active p"
  by (cases p) auto

lemma fan_step_sem:
  assumes "fan_step d e s s'" and "sem_ok d s"
  shows "sem_ok d s'"
  using assms
proof (induction rule: fan_step.induct)
  case (spawn i s)
  then show ?case
    using running_set_phase [of i "s\<lparr>fan_sem := Suc (fan_sem s)\<rparr>" MarkRead] by (simp add: sem_ok_def)
next
  case (act i s j p p' w')
  have "active p'" using checkpoint_action_active [OF act(3), of d e j daemonActor "fan_world s"] act(4) by simp
  then show ?case
    using running_set_phase [of i "s\<lparr>fan_world := w'\<rparr>" p'] act acting_active by (simp add: sem_ok_def)
next
  case (release i s res)
  then show ?case
    using running_set_phase [of i "s\<lparr>fan_sem := fan_sem s - 1\<rparr>" "Finished res"] by (simp add: sem_ok_def)
qed

lemma fan_any_sem: "fan_any d e s s' \<Longrightarrow> sem_ok d s \<Longrightarrow> sem_ok d s'"
  using fan_step_sem by (auto simp: sem_ok_def elim: fan_other.cases)

lemma fan_run_sem: "(fan_any d e)\<^sup>*\<^sup>* s s' \<Longrightarrow> sem_ok d s \<Longrightarrow> sem_ok d s'"
  by (induction rule: rtranclp_induct) (use fan_any_sem in blast)+

lemma fan_start_sem: "0 \<le> d_maxConcurrentCheckpoints d \<Longrightarrow> sem_ok d (fan_start js w)"
  by (simp add: sem_ok_def fan_start_def running_def comp_def)

section \<open>Termination\<close>

definition fan_measure :: "fanout \<Rightarrow> nat" where
  "fan_measure s = (\<Sum>(_, p) \<leftarrow> fan_jobs s. remaining p)"

lemma fan_measure_set_phase:
  assumes "i < length (fan_jobs s)" and "remaining p < remaining (snd (fan_jobs s ! i))"
  shows "fan_measure (set_phase i p s) < fan_measure s"
  using sum_list_update_nat [OF assms(1), of "\<lambda>(_, p). remaining p" "(fst (fan_jobs s ! i), p)"] assms(2)
  by (simp add: fan_measure_def set_phase_def case_prod_unfold)

lemma fan_step_measure: "fan_step d e s s' \<Longrightarrow> fan_measure s' < fan_measure s"
proof (induction rule: fan_step.induct)
  case (spawn i s)
  then show ?case using fan_measure_set_phase [of i "s\<lparr>fan_sem := Suc (fan_sem s)\<rparr>" MarkRead]
    by (simp add: fan_measure_def)
next
  case (act i s j p p' w')
  then show ?case using fan_measure_set_phase [of i "s\<lparr>fan_world := w'\<rparr>" p']
      checkpoint_action_remaining [OF act(3), of d e j daemonActor "fan_world s"]
    by (simp add: fan_measure_def)
next
  case (release i s res)
  then show ?case using fan_measure_set_phase [of i "s\<lparr>fan_sem := fan_sem s - 1\<rparr>" "Finished res"]
    by (simp add: fan_measure_def)
qed

lemma fan_run_measure: "(fan_step d e ^^ n) s s' \<Longrightarrow> fan_measure s' + n \<le> fan_measure s"
  by (induction n arbitrary: s') (force dest: fan_step_measure)+

lemma fan_start_measure [simp]: "fan_measure (fan_start js w) = 9 * length js"
  by (induction js) (simp_all add: fan_measure_def fan_start_def)

section \<open>Progress\<close>

text \<open>While a job is left, some goroutine can act or the loop can start the next one.\<close>

lemma fan_progress:
  assumes "sem_ok d s" and "1 \<le> d_maxConcurrentCheckpoints d" and "\<not> fan_complete s"
  shows "\<exists>s'. fan_step d e s s'"
proof (cases "running s = 0")
  case True
  let ?waits = "\<lambda>i. i < length (fan_jobs s) \<and> snd (fan_jobs s ! i) = Waiting"
  obtain i where i: "i < length (fan_jobs s)" "remaining (snd (fan_jobs s ! i)) \<noteq> 0"
    using assms(3) by (auto simp: fan_complete_def list_all_length case_prod_unfold)
  have "\<not> active (snd (fan_jobs s ! i))"
    using True nth_mem [OF i(1)] by (auto simp: running_def filter_empty_conv case_prod_unfold)
  then have "?waits i" using i by (cases "snd (fan_jobs s ! i)") simp_all
  then obtain m where "?waits m" "\<forall>k < m. \<not> ?waits k" using exists_least_iff [of ?waits] by blast
  moreover have "int (fan_sem s) < d_maxConcurrentCheckpoints d" using True assms by (simp add: sem_ok_def)
  ultimately show ?thesis using fan_step.spawn [of m s d e] by auto
next
  case False
  then obtain x where "x \<in> set (fan_jobs s)" "active (snd x)"
    by (auto simp: running_def filter_empty_conv case_prod_unfold)
  then obtain i where i: "i < length (fan_jobs s)" "active (snd (fan_jobs s ! i))" by (auto simp: in_set_conv_nth)
  show ?thesis
  proof (cases "acting (snd (fan_jobs s ! i))")
    case True
    then show ?thesis using fan_step.act [OF i(1) surjective_pairing, of d e] surjective_pairing by metis
  next
    case False
    with i(2) obtain res where "snd (fan_jobs s ! i) = Release res" by (cases "snd (fan_jobs s ! i)") simp_all
    then show ?thesis using fan_step.release [OF i(1)] by blast
  qed
qed

lemma fan_complete_stuck: "fan_complete s \<Longrightarrow> \<not> fan_step d e s s'"
  by (auto elim!: fan_stepE simp: fan_complete_def list_all_length case_prod_unfold acting_active)
    (metis acting.simps(1,2) active.simps(2) bot_nat_0.not_eq_extremum checkpoint_action_remaining not_less0 snd_conv)+

lemma fan_can_complete:
  assumes "sem_ok d s" and "1 \<le> d_maxConcurrentCheckpoints d"
  shows "\<exists>s'. (fan_step d e)\<^sup>*\<^sup>* s s' \<and> fan_complete s'"
  using assms(1)
proof (induction "fan_measure s" arbitrary: s rule: less_induct)
  case less
  show ?case
  proof (cases "fan_complete s")
    case False
    then obtain s' where s': "fan_step d e s s'" using fan_progress [OF less.prems assms(2)] by blast
    with less.hyps [OF fan_step_measure [OF s']] fan_step_sem [OF s' less.prems]
    show ?thesis by (meson converse_rtranclp_into_rtranclp)
  qed auto
qed

section \<open>Every job gets its checkpoint\<close>

text \<open>What the database holds of job \<open>n\<close> in each phase, \<open>d0\<close> the database at the start.\<close>

definition gone_through :: "database \<Rightarrow> database \<Rightarrow> int \<Rightarrow> (Status \<times> Status) list \<Rightarrow> Status \<Rightarrow> bool" where
  "gone_through d0 d n es b \<longleftrightarrow> status_at d n = Some b \<and> job_history d n = job_history d0 n @ es"

definition recorded :: "database \<Rightarrow> database \<Rightarrow> int \<Rightarrow> string option \<Rightarrow> bool" where
  "recorded d0 d n res \<longleftrightarrow> reason_at d n = Some (final_reason res) \<and>
     gone_through d0 d n [(StatusRunning, StatusCheckpointInProgress),
       (StatusCheckpointInProgress, final_status res)] (final_status res)"

fun phase_ok :: "database \<Rightarrow> database \<Rightarrow> int \<Rightarrow> phase \<Rightarrow> bool" where
  "phase_ok d0 d n (MarkWrite m a) \<longleftrightarrow> m = n \<and> a = StatusRunning \<and> gone_through d0 d n [] StatusRunning"
| "phase_ok d0 d n Waiting \<longleftrightarrow> gone_through d0 d n [] StatusRunning"
| "phase_ok d0 d n MarkRead \<longleftrightarrow> gone_through d0 d n [] StatusRunning"
| "phase_ok d0 d n (RecordWrite res m a) \<longleftrightarrow> m = n \<and> a = StatusCheckpointInProgress \<and>
     gone_through d0 d n [(StatusRunning, StatusCheckpointInProgress)] StatusCheckpointInProgress"
| "phase_ok d0 d n LogStart \<longleftrightarrow>
     gone_through d0 d n [(StatusRunning, StatusCheckpointInProgress)] StatusCheckpointInProgress"
| "phase_ok d0 d n Dump \<longleftrightarrow>
     gone_through d0 d n [(StatusRunning, StatusCheckpointInProgress)] StatusCheckpointInProgress"
| "phase_ok d0 d n (RecordRead res) \<longleftrightarrow>
     gone_through d0 d n [(StatusRunning, StatusCheckpointInProgress)] StatusCheckpointInProgress"
| "phase_ok d0 d n (LogEnd res) \<longleftrightarrow> recorded d0 d n res"
| "phase_ok d0 d n (Release res) \<longleftrightarrow> recorded d0 d n res"
| "phase_ok d0 d n (Finished res) \<longleftrightarrow> recorded d0 d n res"

definition same_job :: "int \<Rightarrow> database \<Rightarrow> database \<Rightarrow> bool" where
  "same_job n d d' \<longleftrightarrow> select_row row_id n (jobs_rows d') = select_row row_id n (jobs_rows d) \<and>
     job_history d' n = job_history d n"

lemma same_job_refl [simp]: "same_job n d d"
  by (simp add: same_job_def)

lemma phase_ok_cong: "same_job n d d' \<Longrightarrow> phase_ok d0 d n p \<Longrightarrow> phase_ok d0 d' n p"
  by (cases p) (simp_all add: same_job_def recorded_def gone_through_def status_at_def reason_at_def)

lemma moved_same: "moved d n es b d' \<Longrightarrow> m \<noteq> n \<Longrightarrow> same_job m d d'"
  by (simp add: moved_def same_job_def)

lemma gone_further:
  "gone_through d0 d n es a \<Longrightarrow> moved d n fs b d' \<Longrightarrow> gone_through d0 d' n (es @ fs) b"
  by (simp add: gone_through_def moved_def)

lemma mark_transition: "ValidTransition StatusRunning StatusCheckpointInProgress"
  by simp

lemma final_transition: "ValidTransition StatusCheckpointInProgress (final_status res)"
  by (simp add: final_status_def split: option.splits)

text \<open>One action of a goroutine, on a database that works.\<close>

lemma read_action_ok:
  assumes "sql_ok e" and "store_wf S (db w)" and "parseID jid = Inr n"
    and "gone_through d0 (db w) n es a" and "ValidTransition a b"
  obtains w' where "update_read e jid b w = (Inr (n, a), w')" and "db w' = db w"
proof -
  have "fst (update_read e jid b w) = Inr (n, a)"
    using update_read_finds [OF assms(1-3) _ assms(5)] assms(4) by (simp add: gone_through_def)
  with update_read_db [of e jid b w] that show thesis by (cases "update_read e jid b w") simp
qed

lemma write_action_ok:
  assumes "sql_ok e" and "store_wf S (db w)" and "gone_through d0 (db w) n es a" and "ValidTransition a b"
  shows "gone_through d0 (db (snd (update_write e jid n a b why by_whom w))) n (es @ [(a, b)]) b"
    and "\<And>m. m \<noteq> n \<Longrightarrow> same_job m (db w) (db (snd (update_write e jid n a b why by_whom w)))"
  using update_write_moves(1) [OF assms(1,2) _ assms(4), of n jid why by_whom] assms(3) moved_same
    gone_further [OF assms(3)]
  by (auto simp: gone_through_def)

lemma checkpoint_action_ok:
  assumes "sql_ok e" and "runner_ok d" and "store_wf S (db w)" and "parseID (ID j) = Inr n"
    and "phase_ok d0 (db w) n p" and "acting p" and "checkpoint_action d e j by_whom p w = (p', w')"
  shows "phase_ok d0 (db w') n p' \<and> store_wf S (db w') \<and> (\<forall>m. m \<noteq> n \<longrightarrow> same_job m (db w) (db w'))"
proof (cases p)
  case MarkRead
  with assms(5) have "gone_through d0 (db w) n [] StatusRunning" by simp
  then obtain w1 where "update_read e (ID j) StatusCheckpointInProgress w = (Inr (n, StatusRunning), w1)" "db w1 = db w"
    by (rule read_action_ok [OF assms(1,3,4) _ mark_transition])
  with MarkRead assms(3,5,7) show ?thesis by auto
next
  case (MarkWrite m a)
  with assms(5) have st: "m = n" "a = StatusRunning" "gone_through d0 (db w) n [] StatusRunning" by simp_all
  have at: "status_at (db w) n = Some StatusRunning" using st(3) by (simp add: gone_through_def)
  from MarkWrite st(1,2) assms(7) write_action_ok [OF assms(1,3) st(3) mark_transition]
    update_write_moves(3) [OF assms(1,3) at mark_transition]
  show ?thesis by auto
next
  case (RecordRead res)
  with assms(5) have "gone_through d0 (db w) n [(StatusRunning, StatusCheckpointInProgress)] StatusCheckpointInProgress"
    by simp
  then obtain w1 where "update_read e (ID j) (final_status res) w = (Inr (n, StatusCheckpointInProgress), w1)" "db w1 = db w"
    by (rule read_action_ok [OF assms(1,3,4) _ final_transition])
  with RecordRead assms(3,5,7) show ?thesis by auto
next
  case (RecordWrite res m a)
  with assms(5) have st: "m = n" "a = StatusCheckpointInProgress"
    "gone_through d0 (db w) n [(StatusRunning, StatusCheckpointInProgress)] StatusCheckpointInProgress" by simp_all
  have at: "status_at (db w) n = Some StatusCheckpointInProgress" using st(3) by (simp add: gone_through_def)
  from RecordWrite st(1,2) assms(7) write_action_ok [OF assms(1,3) st(3) final_transition]
    update_write_moves(2,3) [OF assms(1,3) at final_transition]
  show ?thesis by (auto simp: recorded_def)
next
  case Dump
  with assms(7) runner_db(1) [OF assms(2)] assms(3,5) show ?thesis by (auto split: prod.splits)
next
  case (LogEnd res)
  with assms(3,5,7) show ?thesis by (cases res) auto
qed (use assms in auto)

text \<open>The invariant of the fan-out.\<close>

definition fan_ok :: "Status list \<Rightarrow> database \<Rightarrow> fanout \<Rightarrow> bool" where
  "fan_ok S d0 s \<longleftrightarrow> store_wf S (db (fan_world s)) \<and>
     distinct (map (\<lambda>j. parseID (ID j)) (map fst (fan_jobs s))) \<and>
     (\<forall>(j, p) \<in> set (fan_jobs s). \<exists>n. parseID (ID j) = Inr n \<and> phase_ok d0 (db (fan_world s)) n p)"

lemma fan_ok_nth:
  assumes "fan_ok S d0 s" and "i < length (fan_jobs s)"
  obtains n where "parseID (ID (fst (fan_jobs s ! i))) = Inr n"
    and "phase_ok d0 (db (fan_world s)) n (snd (fan_jobs s ! i))"
  using assms nth_mem [OF assms(2)] that unfolding fan_ok_def by fastforce

text \<open>A step of job \<open>i\<close> to phase \<open>p\<close> and world \<open>w\<close> that is right for it and leaves the others alone.\<close>

lemma fan_ok_set_phase:
  assumes "fan_ok S d0 s" and "i < length (fan_jobs s)" and "parseID (ID (fst (fan_jobs s ! i))) = Inr n"
    and "phase_ok d0 (db w) n p" and "store_wf S (db w)"
    and "\<And>m. m \<noteq> n \<Longrightarrow> same_job m (db (fan_world s)) (db w)"
  shows "fan_ok S d0 (set_phase i p (s\<lparr>fan_world := w, fan_sem := k\<rparr>))"
proof -
  let ?s' = "set_phase i p (s\<lparr>fan_world := w, fan_sem := k\<rparr>)"
  have dist: "distinct (map (\<lambda>j. parseID (ID j)) (map fst (fan_jobs s)))" using assms(1) by (simp add: fan_ok_def)
  have "\<exists>m. parseID (ID (fst (fan_jobs ?s' ! k))) = Inr m \<and> phase_ok d0 (db w) m (snd (fan_jobs ?s' ! k))"
    if k: "k < length (fan_jobs s)" for k
  proof (cases "k = i")
    case False
    obtain m where m: "parseID (ID (fst (fan_jobs s ! k))) = Inr m"
        "phase_ok d0 (db (fan_world s)) m (snd (fan_jobs s ! k))"
      using fan_ok_nth [OF assms(1) k] .
    have "m \<noteq> n" using nth_eq_iff_index_eq [OF dist, of k i] m(1) assms(2,3) k False by auto
    with m phase_ok_cong [OF assms(6)] False show ?thesis by (auto simp: set_phase_def)
  qed (use assms k in \<open>simp add: set_phase_def\<close>)
  then have "\<forall>x \<in> set (fan_jobs ?s'). \<exists>m. parseID (ID (fst x)) = Inr m \<and> phase_ok d0 (db w) m (snd x)"
    by (simp add: all_set_conv_all_nth)
  then show ?thesis using dist assms(5) set_phase_jobs [of i p "s\<lparr>fan_world := w, fan_sem := k\<rparr>"]
    by (auto simp: fan_ok_def case_prod_unfold simp del: map_map)
qed

lemma fan_step_ok:
  assumes "fan_step d e s s'" and "sql_ok e" and "runner_ok d" and "fan_ok S d0 s"
  shows "fan_ok S d0 s'"
  using assms(1)
proof cases
  case (spawn i)
  obtain n where "parseID (ID (fst (fan_jobs s ! i))) = Inr n" "phase_ok d0 (db (fan_world s)) n (snd (fan_jobs s ! i))"
    using fan_ok_nth [OF assms(4) spawn(2)] .
  then show ?thesis
    using fan_ok_set_phase [OF assms(4) spawn(2), of n "fan_world s" MarkRead "Suc (fan_sem s)"] spawn assms(4)
    by (simp add: fan_ok_def)
next
  case (act i j p p' w')
  obtain n where n: "parseID (ID (fst (fan_jobs s ! i))) = Inr n" "phase_ok d0 (db (fan_world s)) n (snd (fan_jobs s ! i))"
    using fan_ok_nth [OF assms(4) act(2)] .
  have "store_wf S (db (fan_world s))" using assms(4) by (simp add: fan_ok_def)
  from checkpoint_action_ok [OF assms(2,3) this _ _ act(4,5), of n d0] n act(3)
    fan_ok_set_phase [OF assms(4) act(2) n(1), of w' p' "fan_sem s"]
  show ?thesis by (simp add: act(1))
next
  case (release i res)
  obtain n where "parseID (ID (fst (fan_jobs s ! i))) = Inr n" "phase_ok d0 (db (fan_world s)) n (snd (fan_jobs s ! i))"
    using fan_ok_nth [OF assms(4) release(2)] .
  then show ?thesis
    using fan_ok_set_phase [OF assms(4) release(2), of n "fan_world s" "Finished res" "fan_sem s - 1"] release assms(4)
    by (simp add: fan_ok_def)
qed

lemma fan_other_ok:
  assumes "fan_other s s'" and "fan_ok S d0 s"
  shows "fan_ok S d0 s'"
  using assms
proof (induction rule: fan_other.induct)
  case (other s w')
  have "phase_ok d0 (db w') n p"
    if "(j, p) \<in> set (fan_jobs s)" "parseID (ID j) = Inr n" "phase_ok d0 (db (fan_world s)) n p" for j p n
    using other.hyps that image_eqI [of j fst "(j, p)" "set (fan_jobs s)"]
    by (intro phase_ok_cong [OF _ that(3)]) (auto simp: undisturbed_def same_job_def)
  with other show ?case by (fastforce simp: fan_ok_def undisturbed_def)
qed

lemma fan_run_ok:
  assumes "(fan_any d e)\<^sup>*\<^sup>* s s'" and "sql_ok e" and "runner_ok d" and "fan_ok S d0 s"
  shows "fan_ok S d0 s'"
  using assms(1,4) by (induction rule: rtranclp_induct) (use fan_step_ok [OF _ assms(2,3)] fan_other_ok in auto)

lemma fan_run_jobs: "(fan_any d e)\<^sup>*\<^sup>* s s' \<Longrightarrow> map fst (fan_jobs s') = map fst (fan_jobs s)"
proof (induction rule: rtranclp_induct)
  case (step s' s'')
  from step.hyps(2) have "map fst (fan_jobs s'') = map fst (fan_jobs s')"
    by (auto elim!: fan_stepE fan_other.cases)
  with step.IH show ?case by simp
qed simp

text \<open>The result a goroutine carries is the one its checkpoint returned.\<close>

fun phase_result :: "phase \<Rightarrow> string option option" where
  "phase_result (RecordRead res) = Some res"
| "phase_result (RecordWrite res _ _) = Some res"
| "phase_result (LogEnd res) = Some res"
| "phase_result (Release res) = Some res"
| "phase_result (Finished res) = Some res"
| "phase_result _ = None"

lemma checkpoint_action_result:
  assumes "checkpoint_action d e j by_whom p w = (p', w')" and "acting p" and "phase_result p' = Some res"
  shows "phase_result p = Some res \<or> p = Dump \<and> fst (d_checkpointFunc d e (CheckpointDir j) j w) = res"
  using assms by (cases p) (auto split: prod.splits sum.splits)

lemma fan_step_result:
  assumes "fan_step d e s s'" and "i < length (fan_jobs s)" and "phase_result (snd (fan_jobs s' ! i)) = Some res"
  shows "phase_result (snd (fan_jobs s ! i)) = Some res \<or>
    (\<exists>j. fan_jobs s ! i = (j, Dump) \<and> fst (d_checkpointFunc d e (CheckpointDir j) j (fan_world s)) = res)"
  using assms(1)
proof cases
  case (spawn k)
  then show ?thesis using assms(2,3) by (cases "k = i") (auto simp: set_phase_def)
next
  case (act k j p p' w')
  then show ?thesis using assms(2,3) checkpoint_action_result [OF act(5,4), of res]
    by (cases "k = i") (auto simp: set_phase_def)
next
  case (release k r)
  then show ?thesis using assms(2,3) by (cases "k = i") (auto simp: set_phase_def)
qed

lemma fan_run_result:
  assumes "(fan_any d e)\<^sup>*\<^sup>* (fan_start js w) s" and "i < length js" and "phase_result (snd (fan_jobs s ! i)) = Some res"
  shows "\<exists>s1. (fan_any d e)\<^sup>*\<^sup>* (fan_start js w) s1 \<and> (fan_any d e)\<^sup>*\<^sup>* s1 s \<and>
    fan_jobs s1 ! i = (js ! i, Dump) \<and> fst (d_checkpointFunc d e (CheckpointDir (js ! i)) (js ! i) (fan_world s1)) = res"
  using assms(1,3)
proof (induction rule: rtranclp_induct)
  case base
  then show ?case using assms(2) by (simp add: fan_start_def)
next
  case (step t u)
  have jobs: "map fst (fan_jobs t) = js" using fan_run_jobs [OF step.hyps(1)] by (simp add: fan_start_def comp_def)
  then have i: "i < length (fan_jobs t)" "fst (fan_jobs t ! i) = js ! i" using assms(2) by auto
  consider "phase_result (snd (fan_jobs t ! i)) = Some res"
    | "fan_jobs t ! i = (js ! i, Dump)" "fst (d_checkpointFunc d e (CheckpointDir (js ! i)) (js ! i) (fan_world t)) = res"
    using step.hyps(2) step.prems fan_step_result [OF _ i(1), of d e u res] i(2) by (auto elim!: fan_other.cases)
  then show ?case
  proof cases
    case 1
    then obtain s1 where s1: "(fan_any d e)\<^sup>*\<^sup>* (fan_start js w) s1" "(fan_any d e)\<^sup>*\<^sup>* s1 t"
        "fan_jobs s1 ! i = (js ! i, Dump)" "fst (d_checkpointFunc d e (CheckpointDir (js ! i)) (js ! i) (fan_world s1)) = res"
      using step.IH by blast
    have "(fan_any d e)\<^sup>*\<^sup>* s1 u" by (rule rtranclp.rtrancl_into_rtrancl [OF s1(2) step.hyps(2)])
    with s1(1,3,4) show ?thesis by blast
  next
    case 2
    have "(fan_any d e)\<^sup>*\<^sup>* t u" using step.hyps(2) by (rule r_into_rtranclp [of "fan_any d e" t u])
    with 2 step.hyps(1) show ?thesis by blast
  qed
qed

section \<open>The jobs of an interruption\<close>

lemma runnable_jobs:
  assumes "sql_ok e" and "store_wf S (db w)" and "interruption_start d e sig w = ((js, payload), w')"
  shows "distinct (map (\<lambda>j. parseID (ID j)) js)"
    and "j \<in> set js \<Longrightarrow> \<exists>n. parseID (ID j) = Inr n \<and> status_at (db w) n = Some StatusRunning"
    and "status_at (db w) n = Some StatusRunning \<Longrightarrow> \<exists>j \<in> set js. parseID (ID j) = Inr n"
proof -
  let ?w = "logDaemon d e ''interruption_detected'' [] ''ok'' (sig_Trigger sig) (w\<lparr>interrupted := True\<rparr>)"
  let ?A = "active_rows (db w)"
  have sub: "set ?A \<subseteq> set (jobs_rows (db w))" by (auto simp: active_rows_def)
  have wf1: "store_wf S (db (record_call c ?w))" for c using assms(2) by simp
  obtain act w1 where act: "Store_List e ?w = (Inr act, w1)" "list_all2 (\<lambda>r j. scanJob e r = Inr j) ?A act"
    using collect_jobs_ok [OF assms(1) wf1, of ?A "SqlCall SqlSelectActive"] sub assms(1) store_wfD(1) [OF assms(2)]
    by (cases "Store_List e ?w") (auto simp: Store_List_def sql_error_ready sql_def)
  have js: "js = filter (\<lambda>j. Status j = StatusRunning) act"
    using assms(3) act(1) by (auto simp: interruption_start_def Let_def split: prod.splits)
  have at: "parseID (ID j) = Inr (row_id r) \<and> Status j = status_of_text (row_status r) \<and>
      status_at (db w) (row_id r) = Some (status_of_text (row_status r))"
    if "r \<in> set ?A" "scanJob e r = Inr j" for r j
    using that sub store_wfD(2) [OF assms(2)] parseID_FormatInt row_ok_in_int64 [OF assms(2)]
    by (auto simp: scanJob_InrD [OF that(2)] status_at_def select_row_Some_iff)
  have idx: "\<exists>r \<in> set ?A. scanJob e r = Inr j" if "j \<in> set act" for j
    using act(2) that by (fastforce simp: list_all2_conv_all_nth in_set_conv_nth)
  have "map (\<lambda>j. parseID (ID j)) act = map (\<lambda>r. Inr (row_id r)) ?A"
    using act(2) at by (auto simp: list_all2_conv_all_nth intro!: nth_equalityI)
  then have "distinct (map (\<lambda>j. parseID (ID j)) act)"
    using store_wfD(2) [OF assms(2)] by (auto simp: distinct_map active_rows_def inj_on_def)
  then show "distinct (map (\<lambda>j. parseID (ID j)) js)" by (simp add: js distinct_map_filter)
  show "\<exists>n. parseID (ID j) = Inr n \<and> status_at (db w) n = Some StatusRunning" if "j \<in> set js"
    using that idx at by (force simp: js)
  assume run: "status_at (db w) n = Some StatusRunning"
  then obtain r where r: "r \<in> set (jobs_rows (db w))" "row_id r = n" "status_of_text (row_status r) = StatusRunning"
    by (auto simp: status_at_def dest: select_row_SomeD)
  then have A: "r \<in> set ?A" by (simp add: active_rows_def terminal_texts_iff)
  then obtain j where "j \<in> set act" "scanJob e r = Inr j"
    using act(2) by (fastforce simp: list_all2_conv_all_nth in_set_conv_nth)
  with at [OF A] r show "\<exists>j \<in> set js. parseID (ID j) = Inr n" by (auto simp: js)
qed

section \<open>One at a time\<close>

text \<open>What is left to do when every job runs to its end in turn.\<close>

fun finish_job :: "Daemon \<Rightarrow> env \<Rightarrow> Job \<times> phase \<Rightarrow> world \<Rightarrow> world" where
  "finish_job d e (j, p) w =
     (if p = Waiting then snd (checkpointJob d e j daemonActor w) else snd (run_checkpoint d e j daemonActor p w))"

definition fan_rest :: "Daemon \<Rightarrow> env \<Rightarrow> fanout \<Rightarrow> world" where
  "fan_rest d e s = fold (finish_job d e) (fan_jobs s) (fan_world s)"

text \<open>The loop goes through the jobs in order.\<close>

definition in_order :: "fanout \<Rightarrow> bool" where
  "in_order s \<longleftrightarrow> (\<forall>i < length (fan_jobs s). \<forall>k < i.
     snd (fan_jobs s ! k) = Waiting \<longrightarrow> snd (fan_jobs s ! i) = Waiting)"

lemma fan_step_order:
  assumes "fan_step d e s s'" and "in_order s"
  shows "in_order s'"
  using assms(1)
proof cases
  case (spawn i)
  with assms(2) show ?thesis by (auto simp: in_order_def set_phase_def nth_list_update)
next
  case (act i j p p' w')
  have "p \<noteq> Waiting" using act(4) by auto
  moreover have "p' \<noteq> Waiting"
    using checkpoint_action_active [OF act(4), of d e j daemonActor "fan_world s"] act(5) by auto
  ultimately show ?thesis using assms(2) act(1-3) by (force simp: in_order_def set_phase_def nth_list_update)
next
  case (release i res)
  with assms(2) show ?thesis by (force simp: in_order_def set_phase_def nth_list_update)
qed

lemma two_running:
  assumes "i < length (fan_jobs s)" and "k < i" and "active (snd (fan_jobs s ! i))" and "active (snd (fan_jobs s ! k))"
  shows "2 \<le> running s"
proof -
  have "card {k, i} \<le> card {m. m < length (fan_jobs s) \<and> active (snd (fan_jobs s ! m))}"
    by (rule card_mono) (use assms in auto)
  then show ?thesis using assms(2) by (simp add: running_def length_filter_conv_card case_prod_unfold)
qed

lemma before_active:
  assumes "in_order s" and "running s \<le> 1" and "i < length (fan_jobs s)"
    and "active (snd (fan_jobs s ! i))" and "k < i"
  shows "remaining (snd (fan_jobs s ! k)) = 0"
proof -
  have "snd (fan_jobs s ! i) \<noteq> Waiting" using assms(4) by auto
  then have "snd (fan_jobs s ! k) \<noteq> Waiting" using assms(1,3,5) by (auto simp: in_order_def)
  moreover have "\<not> active (snd (fan_jobs s ! k))" using two_running [OF assms(3,5,4)] assms(2) by auto
  ultimately show ?thesis by (cases "snd (fan_jobs s ! k)") simp_all
qed

lemma finished_idle: "remaining (snd x) = 0 \<Longrightarrow> finish_job d e x w = w"
  by (cases x; cases "snd x") simp_all

lemma fold_idle: "(\<And>x. x \<in> set xs \<Longrightarrow> f x w = w) \<Longrightarrow> fold f xs w = w"
  by (induction xs) simp_all

lemma fold_split_at:
  assumes "i < length xs" and "\<And>k. k < i \<Longrightarrow> f (xs ! k) w = w"
  shows "fold f xs w = fold f (drop (Suc i) xs) (f (xs ! i) w)"
proof -
  have "fold f (take i xs) w = w" using assms by (intro fold_idle) (auto simp: in_set_conv_nth)
  then have "fold f (take i xs @ xs ! i # drop (Suc i) xs) w = fold f (drop (Suc i) xs) (f (xs ! i) w)" by simp
  with assms(1) show ?thesis by (simp flip: id_take_nth_drop)
qed

lemma fold_update_same:
  assumes "i < length xs" and "f y = f (xs ! i)"
  shows "fold f (xs[i := y]) w = fold f xs w"
proof -
  have "map f (xs[i := y]) = map f xs" using assms by (metis list_update_id map_update)
  then show ?thesis by (metis fold_map comp_id id_comp fold_cong)
qed

lemma fan_step_rest:
  assumes "fan_step d e s s'" and "in_order s" and "sem_ok d s" and "d_maxConcurrentCheckpoints d = 1"
  shows "fan_rest d e s' = fan_rest d e s"
  using assms(1)
proof cases
  case (spawn i)
  obtain j where "fan_jobs s ! i = (j, Waiting)" using spawn(3) by (cases "fan_jobs s ! i") simp
  then have "finish_job d e (fst (fan_jobs s ! i), MarkRead) = finish_job d e (fan_jobs s ! i)"
    by (simp add: fun_eq_iff run_checkpoint_checkpointJob)
  from fold_update_same [OF spawn(2) this] show ?thesis by (simp add: spawn(1) fan_rest_def set_phase_def)
next
  case (act i j p p' w')
  have "active (snd (fan_jobs s ! i))" using act(3,4) acting_active by simp
  moreover have "running s \<le> 1" using assms(3,4) by (simp add: sem_ok_def)
  ultimately have idle: "finish_job d e (fan_jobs s ! k) w = w" if "k < i" for k w
    using finished_idle before_active [OF assms(2) _ act(2)] that by blast
  have "p' \<noteq> Waiting" "p \<noteq> Waiting"
    using checkpoint_action_active [OF act(4), of d e j daemonActor "fan_world s"] act(4,5) by auto
  then have "finish_job d e (j, p') w' = finish_job d e (j, p) (fan_world s)"
    using run_checkpoint_step [OF act(4), of d e j daemonActor "fan_world s"] act(5) by simp
  with act(2,3) idle show ?thesis
    by (simp add: act(1) fan_rest_def set_phase_def fold_split_at [of i])
next
  case (release i res)
  obtain j where "fan_jobs s ! i = (j, Release res)" using release(3) by (cases "fan_jobs s ! i") simp
  then have "finish_job d e (fst (fan_jobs s ! i), Finished res) = finish_job d e (fan_jobs s ! i)"
    by (simp add: fun_eq_iff)
  from fold_update_same [OF release(2) this] show ?thesis by (simp add: release(1) fan_rest_def set_phase_def)
qed

lemma fan_run_rest:
  assumes "(fan_step d e)\<^sup>*\<^sup>* s s'" and "in_order s" and "sem_ok d s" and "d_maxConcurrentCheckpoints d = 1"
  shows "fan_rest d e s' = fan_rest d e s \<and> in_order s' \<and> sem_ok d s'"
  using assms(1)
  by (induction rule: rtranclp_induct) (use assms fan_step_rest fan_step_order fan_step_sem in auto)

lemma fan_rest_start:
  "fan_rest d e (fan_start js w) = fold (\<lambda>j w. snd (checkpointJob d e j daemonActor w)) js w"
proof -
  have "(\<lambda>j. finish_job d e (j, Waiting)) = (\<lambda>j w. snd (checkpointJob d e j daemonActor w))"
    by (simp add: fun_eq_iff)
  then show ?thesis by (simp add: fan_rest_def fan_start_def fold_map comp_def)
qed

lemma fan_rest_complete: "fan_complete s \<Longrightarrow> fan_rest d e s = fan_world s"
  unfolding fan_rest_def
  by (rule fold_idle, rule finished_idle) (auto simp: fan_complete_def list_all_iff case_prod_unfold)

end
