(* ===== verification/Rfc3339.thy ===== *)
theory Rfc3339
  imports AuditLog
begin

text \<open>
  Reading an RFC 3339 time, as \<open>time.Time\<close>'s \<open>UnmarshalJSON\<close> does, and that it inverts the
  printing of theory \<open>AuditLog\<close>. The fixed layout with upper-case \<open>T\<close> and \<open>Z\<close> is read here
  (\<open>parseRFC3339\<close> of package \<open>time\<close>); what is not of this layout goes to the general layout
  parser \<open>lenient\<close>, a parameter, which accepts a few more spellings.
\<close>

section \<open>Reading\<close>

definition days_before_year :: "int \<Rightarrow> int" where
  "days_before_year y = 365 * (y - 1) + (y - 1) div 4 - (y - 1) div 100 + (y - 1) div 400"

definition date_seconds :: "int \<Rightarrow> int \<Rightarrow> int \<Rightarrow> int \<Rightarrow> int \<Rightarrow> int \<Rightarrow> int" where
  "date_seconds y m d hr mi sec =
     (days_before_year y + sum_list (take (nat (m - 1)) (month_lengths y)) + (d - 1)) * 86400 +
     hr * 3600 + mi * 60 + sec"

text \<open>\<open>parseUint\<close> of the fixed positions: digits only, and within bounds.\<close>

definition bounded_uint :: "string \<Rightarrow> int \<Rightarrow> int \<Rightarrow> int option" where
  "bounded_uint s lo hi = (let n = int (dec_value 0 s) in
     if all_digits s \<and> lo \<le> n \<and> n \<le> hi then Some n else None)"

definition span_digits :: "string \<Rightarrow> string \<times> string" where
  "span_digits s = (takeWhile (\<lambda>c. digit_value c \<noteq> None) s, dropWhile (\<lambda>c. digit_value c \<noteq> None) s)"

text \<open>A fraction counts to nine digits; the rest is cut off.\<close>

definition nanoseconds :: "string \<Rightarrow> int" where
  "nanoseconds ds = (let ds = take 9 ds in int (dec_value 0 ds) * 10 ^ (9 - length ds))"

definition read_fraction :: "string \<Rightarrow> int \<times> string" where
  "read_fraction s = (case s of
     c # cs \<Rightarrow> (case span_digits cs of (ds, rest) \<Rightarrow>
       if c = CHR ''.'' \<and> ds \<noteq> [] then (nanoseconds ds, rest) else (0, s))
   | [] \<Rightarrow> (0, s))"

text \<open>The zone: seconds east of UTC.\<close>

definition read_zone :: "string \<Rightarrow> int option" where
  "read_zone s =
     (if s = ''Z'' then Some 0
      else if length s \<noteq> 6 \<or> s ! 3 \<noteq> CHR '':'' \<or> (s ! 0 \<noteq> CHR ''-'' \<and> s ! 0 \<noteq> CHR ''+'') then None
      else (case (bounded_uint (take 2 (drop 1 s)) 0 23, bounded_uint (take 2 (drop 4 s)) 0 59) of
         (Some hr, Some mm) \<Rightarrow> Some ((if s ! 0 = CHR ''-'' then -1 else 1) * (hr * 60 + mm) * 60)
       | _ \<Rightarrow> None))"

definition parseRFC3339 :: "string \<Rightarrow> time option" where
  "parseRFC3339 s =
     (if length s < 19 \<or> s ! 4 \<noteq> CHR ''-'' \<or> s ! 7 \<noteq> CHR ''-'' \<or> s ! 10 \<noteq> CHR ''T'' \<or>
         s ! 13 \<noteq> CHR '':'' \<or> s ! 16 \<noteq> CHR '':'' then None
      else (case (bounded_uint (take 4 s) 0 9999, bounded_uint (take 2 (drop 5 s)) 1 12) of
         (Some y, Some m) \<Rightarrow>
           (case (bounded_uint (take 2 (drop 8 s)) 1 (month_lengths y ! nat (m - 1)),
                  bounded_uint (take 2 (drop 11 s)) 0 23, bounded_uint (take 2 (drop 14 s)) 0 59,
                  bounded_uint (take 2 (drop 17 s)) 0 59) of
              (Some d, Some hr, Some mi, Some sec) \<Rightarrow>
                (case read_fraction (drop 19 s) of (ns, rest) \<Rightarrow>
                   map_option (\<lambda>zone. (date_seconds y m d hr mi sec - zone) * 1000000000 + ns) (read_zone rest))
            | _ \<Rightarrow> None)
       | _ \<Rightarrow> None))"

definition UnmarshalTime :: "(string \<Rightarrow> time option) \<Rightarrow> string \<Rightarrow> time option" where
  "UnmarshalTime lenient s = (case parseRFC3339 s of Some t \<Rightarrow> Some t | None \<Rightarrow> lenient s)"

section \<open>The calendar\<close>

text \<open>The last year of a block of four is a leap year, unless it ends a century that does not
  end a block of four hundred.\<close>

lemma is_leap_block:
  assumes y: "y = 400 * a + 100 * b + 4 * c + 4" and c: "0 \<le> c" "c \<le> 24" and last: "c < 24 \<or> b = 3"
  shows "is_leap y"
proof -
  have "y = 4 * (100 * a + 25 * b + c + 1)" using y by simp
  then have four: "y mod 4 = 0" by (metis mod_mult_self1_is_0)
  show ?thesis
  proof (cases "c < 24")
    case True
    have "y = (4 * c + 4) + 100 * (4 * a + b)" using y by simp
    then have "y mod 100 = (4 * c + 4) mod 100" by (metis mod_mult_self2)
    also have "\<dots> = 4 * c + 4" using True c(1) by (intro mod_pos_pos_trivial) simp_all
    finally show ?thesis using four c(1) by (simp add: is_leap_def)
  next
    case False
    with last c(2) y have "y = 400 * (a + 1)" by simp
    then have "y mod 400 = 0" by (metis mod_mult_self1_is_0)
    with four show ?thesis by (simp add: is_leap_def)
  qed
qed

lemma year_and_yday_days:
  assumes "year_and_yday d = (y, yd)"
  shows "days_before_year y + yd = d" and "0 \<le> yd" and "yd < (if is_leap y then 366 else 365)"
proof -
  define a r where "a = d div 146097" and "r = d mod 146097"
  have r: "0 \<le> r" "r < 146097" "d = 146097 * a + r" by (simp_all add: a_def r_def)
  define b where "b = min 3 (r div 36524)"
  define r1 where "r1 = r - 36524 * b"
  have b: "0 \<le> b" "b \<le> 3" "0 \<le> r1" "r1 \<le> 36524" "b < 3 \<Longrightarrow> r1 < 36524"
    using r unfolding b_def r1_def by (auto simp: min_def) 
  define c where "c = r1 div 1461"
  define r2 where "r2 = r1 mod 1461"
  have c: "0 \<le> c" "c \<le> 24" "r1 = 1461 * c + r2" "0 \<le> r2" "r2 < 1461"
    using b unfolding c_def r2_def by auto
  have short: "r2 < 1460" if "b < 3" "c = 24" using b(5) [OF that(1)] c(3) that(2) by simp
  define n where "n = min 3 (r2 div 365)"
  have n: "0 \<le> n" "n \<le> 3" "0 \<le> r2 - 365 * n" "r2 - 365 * n \<le> 365" "n < 3 \<Longrightarrow> r2 - 365 * n < 365"
    using c unfolding n_def by (auto simp: min_def)
  have y: "y - 1 = 400 * a + 100 * b + 4 * c + n" and yd: "yd = r2 - 365 * n"
    using assms [unfolded year_and_yday_def Let_def, folded a_def r_def, folded b_def, folded r1_def,
        folded c_def r2_def, folded n_def] by simp_all
  have d4: "(y - 1) div 4 = 100 * a + 25 * b + c" unfolding y using n by simp
  have d100: "(y - 1) div 100 = 4 * a + b" unfolding y using n c by simp
  have d400: "(y - 1) div 400 = a" unfolding y using n b c by simp
  show "days_before_year y + yd = d"
    unfolding days_before_year_def d4 d100 d400 yd unfolding y using r(3) c(3) r1_def by algebra
  show "0 \<le> yd" using n yd by simp
  show "yd < (if is_leap y then 366 else 365)"
  proof (cases "r2 - 365 * n = 365")
    case True
    with n have n3: "n = 3" by force
    with True have "r2 = 1460" by simp
    with short b(2) c(2) have "c < 24 \<or> b = 3" by force
    have y': "y = 400 * a + 100 * b + 4 * c + 4" using y n3 by simp
    from is_leap_block [OF this c(1,2) \<open>c < 24 \<or> b = 3\<close>] have "is_leap y" .
    with True yd show ?thesis by simp
  qed (use n yd in auto)
qed

lemma month_lengths_sum: "sum_list (month_lengths y) = (if is_leap y then 366 else 365)"
  by (simp add: month_lengths_def)

lemma month_and_day_days:
  assumes "month_and_day m0 ls yd = (m, d)" and "0 \<le> yd" and "yd < sum_list ls" and "ls \<noteq> []"
  shows "m0 \<le> m \<and> m < m0 + int (length ls) \<and> 1 \<le> d \<and> d \<le> ls ! nat (m - m0) \<and>
    sum_list (take (nat (m - m0)) ls) + (d - 1) = yd"
  using assms
proof (induction m0 ls yd rule: month_and_day.induct)
  case (1 m0 l ls yd)
  show ?case
  proof (cases "yd < l \<or> ls = []")
    case True
    with 1 show ?thesis by auto
  next
    case False
    with 1 have IH: "m0 + 1 \<le> m" "m < m0 + 1 + int (length ls)" "1 \<le> d" "d \<le> ls ! nat (m - (m0 + 1))"
        "sum_list (take (nat (m - (m0 + 1))) ls) + (d - 1) = yd - l" by auto
    from IH(1) have "nat (m - m0) = Suc (nat (m - (m0 + 1)))" by simp
    with IH show ?thesis by simp
  qed
qed simp

section \<open>Digits\<close>

lemma dec_value_scale: "dec_value n s = n * 10 ^ length s + dec_value 0 s"
proof (induction s arbitrary: n)
  case (Cons c cs)
  let ?d = "case digit_value c of Some d \<Rightarrow> d | None \<Rightarrow> 0"
  have "dec_value n (c # cs) = (n * 10 + ?d) * 10 ^ length cs + dec_value 0 cs" by (simp add: Cons [of "n * 10 + ?d"])
  also have "\<dots> = n * 10 ^ length (c # cs) + (?d * 10 ^ length cs + dec_value 0 cs)" by (simp add: algebra_simps)
  also have "?d * 10 ^ length cs + dec_value 0 cs = dec_value 0 (c # cs)" by (simp add: Cons [of ?d])
  finally show ?case .
qed simp

lemma digit_value_zero [simp]: "digit_value (CHR ''0'') = Some 0"
  by (simp add: digit_value_def)

lemma dec_value_zeros: "dec_value n (replicate k (CHR ''0'')) = n * 10 ^ k"
  by (induction k arbitrary: n) (simp_all add: algebra_simps)

lemma digits_of_length: "n < 10 ^ k \<Longrightarrow> 0 < k \<Longrightarrow> length (digits_of n) \<le> k"
proof (induction n arbitrary: k rule: digits_of.induct)
  case (1 n)
  show ?case
  proof (cases "n < 10")
    case True
    then show ?thesis using 1(3) by (subst digits_of.simps) simp
  next
    case False
    with 1(2) obtain k' where k: "k = Suc k'" "0 < k'" by (cases k; cases "k - 1") auto
    then have "n div 10 < 10 ^ k'" using 1(2) by (simp add: less_mult_imp_div_less mult.commute)
    with 1(1) [OF False this k(2)] k False show ?thesis by (subst digits_of.simps) simp
  qed
qed

lemma pad_int_digits:
  assumes "0 \<le> n" and "n < 10 ^ k" and "0 < k"
  shows "length (pad_int k n) = k" and "all_digits (pad_int k n)" and "dec_value 0 (pad_int k n) = nat n"
proof -
  have n: "FormatInt n = digits_of (nat n)" using assms(1) by (simp add: FormatInt_def)
  have "nat n < 10 ^ k" using assms(2) by (simp add: nat_less_iff assms(1))
  then have "length (digits_of (nat n)) \<le> k" using digits_of_length assms(3) by blast
  then show "length (pad_int k n) = k" by (simp add: pad_int_def Let_def n)
  show "all_digits (pad_int k n)"
    using digits_of_all_digits [of "nat n"] by (auto simp: pad_int_def Let_def n all_digits_def list_all_iff)
  show "dec_value 0 (pad_int k n) = nat n"
    by (simp add: pad_int_def Let_def n dec_value_append dec_value_zeros dec_value_digits_of)
qed

lemma bounded_pad:
  assumes "0 \<le> n" and "n < 10 ^ k" and "0 < k" and "lo \<le> n" and "n \<le> hi"
  shows "bounded_uint (pad_int k n) lo hi = Some n"
  using pad_int_digits [OF assms(1-3)] assms by (simp add: bounded_uint_def Let_def)

lemma bounded_two: "0 \<le> n \<Longrightarrow> n \<le> 99 \<Longrightarrow> lo \<le> n \<Longrightarrow> n \<le> hi \<Longrightarrow> bounded_uint (pad_int 2 n) lo hi = Some n"
  by (rule bounded_pad) simp_all

section \<open>The fraction\<close>

lemma drop_trailing_zeros_eq: "\<exists>k. s = drop_trailing_zeros s @ replicate k (CHR ''0'')"
proof -
  have "rev s = takeWhile (\<lambda>c. c = CHR ''0'') (rev s) @ dropWhile (\<lambda>c. c = CHR ''0'') (rev s)" by simp
  moreover have "takeWhile (\<lambda>c. c = CHR ''0'') (rev s) =
      replicate (length (takeWhile (\<lambda>c. c = CHR ''0'') (rev s))) (CHR ''0'')"
    by (rule replicate_length_same [symmetric]) (auto dest: set_takeWhileD)
  ultimately have "rev (rev s) = drop_trailing_zeros s @ rev (replicate (length (takeWhile (\<lambda>c. c = CHR ''0'') (rev s))) (CHR ''0''))"
    unfolding drop_trailing_zeros_def by (metis rev_append)
  then show ?thesis by auto
qed

lemma nanoseconds_fraction:
  assumes "0 < ns" and "ns < 1000000000"
  shows "nanoseconds (drop_trailing_zeros (pad_int 9 ns)) = ns"
    and "all_digits (drop_trailing_zeros (pad_int 9 ns))" and "drop_trailing_zeros (pad_int 9 ns) \<noteq> []"
proof -
  have ns: "0 \<le> ns" "ns < 10 ^ 9" "0 < (9 :: nat)" using assms by simp_all
  note pad = pad_int_digits [OF ns]
  let ?s = "drop_trailing_zeros (pad_int 9 ns)"
  obtain k where k: "pad_int 9 ns = ?s @ replicate k (CHR ''0'')" using drop_trailing_zeros_eq by blast
  have len: "length ?s + k = 9" using pad(1) k by (metis length_append length_replicate)
  have "nat ns = dec_value 0 (?s @ replicate k (CHR ''0''))" using pad(3) k by simp
  then have val: "nat ns = dec_value 0 ?s * 10 ^ k" by (simp add: dec_value_append dec_value_zeros)
  then have "ns = int (dec_value 0 ?s * 10 ^ k)" using assms(1) by (metis nat_0_le less_imp_le)
  moreover have "9 - length ?s = k" using len by simp
  ultimately show "nanoseconds ?s = ns" using len by (simp add: nanoseconds_def Let_def)
  show "all_digits ?s" using pad(2) k by (metis all_digits_def list_all_append)
  show "?s \<noteq> []" using val assms(1) by (cases ?s) auto
qed

lemma digit_value_Z [simp]: "digit_value (CHR ''Z'') = None"
  by (simp add: digit_value_def)

lemma read_fraction_fraction:
  assumes "0 \<le> ns" and "ns < 1000000000"
  shows "read_fraction (fraction ns @ ''Z'') = (ns, ''Z'')"
proof (cases "ns = 0")
  case True
  then show ?thesis by (simp add: fraction_def read_fraction_def span_digits_def)
next
  case False
  with assms have ns: "0 < ns" by simp
  note frac = nanoseconds_fraction [OF ns assms(2)]
  have "span_digits (drop_trailing_zeros (pad_int 9 ns) @ ''Z'') = (drop_trailing_zeros (pad_int 9 ns), ''Z'')"
    using frac(2) by (simp add: span_digits_def all_digits_def list_all_iff)
  with False frac show ?thesis by (simp add: fraction_def read_fraction_def)
qed

section \<open>Reading back a printed time\<close>

lemma list_of_two: "length s = 2 \<Longrightarrow> \<exists>a b. s = [a, b]"
  by (cases s; cases "tl s") auto

lemma list_of_four: "length s = 4 \<Longrightarrow> \<exists>a b c d. s = [a, b, c, d]"
  by (auto simp: length_Suc_conv numeral_eq_Suc)

lemma parse_layout:
  assumes "length Y = 4" "length M = 2" "length D = 2" "length H = 2" "length Mi = 2" "length Se = 2"
    and "bounded_uint Y 0 9999 = Some y" and "bounded_uint M 1 12 = Some m"
    and "bounded_uint D 1 (month_lengths y ! nat (m - 1)) = Some d"
    and "bounded_uint H 0 23 = Some hr" and "bounded_uint Mi 0 59 = Some mi" and "bounded_uint Se 0 59 = Some sec"
    and "read_fraction rest = (ns, ''Z'')"
  shows "parseRFC3339 (Y @ ''-'' @ M @ ''-'' @ D @ ''T'' @ H @ '':'' @ Mi @ '':'' @ Se @ rest) =
    Some (date_seconds y m d hr mi sec * 1000000000 + ns)"
proof -
  obtain y1 y2 y3 y4 where Y: "Y = [y1, y2, y3, y4]" using list_of_four assms(1) by blast
  obtain m1 m2 where M: "M = [m1, m2]" using list_of_two assms(2) by blast
  obtain d1 d2 where D: "D = [d1, d2]" using list_of_two assms(3) by blast
  obtain h1 h2 where H: "H = [h1, h2]" using list_of_two assms(4) by blast
  obtain i1 i2 where Mi: "Mi = [i1, i2]" using list_of_two assms(5) by blast
  obtain s1 s2 where Se: "Se = [s1, s2]" using list_of_two assms(6) by blast
  show ?thesis using assms(7-13) unfolding Y M D H Mi Se
    by (simp add: parseRFC3339_def read_zone_def numeral_eq_Suc nth_Cons_Suc)
qed

lemma time_split:
  fixes t :: int
  shows "((t div 1000000000 div 86400) * 86400 + (t div 1000000000) mod 86400) * 1000000000 + t mod 1000000000 = t"
  by simp

lemma clock_split:
  fixes s :: int
  shows "s div 3600 * 3600 + (s div 60 mod 60) * 60 + s mod 60 = s"
proof -
  have "s div 60 div 60 = s div 3600" by (simp add: zdiv_zmult2_eq [symmetric])
  then show ?thesis using div_mult_mod_eq [of "s div 60" 60] div_mult_mod_eq [of s 60] by linarith
qed

lemma rfc3339_round_trip:
  assumes "rfc3339_nano t = Some s"
  shows "parseRFC3339 s = Some t"
proof -
  define secs where "secs = t div 1000000000"
  define ns where "ns = t mod 1000000000"
  define sd where "sd = secs mod 86400"
  obtain y yd where yy: "year_and_yday (secs div 86400) = (y, yd)" by fastforce
  obtain m d where md: "month_and_day 1 (month_lengths y) yd = (m, d)" by fastforce
  have s: "s = pad_int 4 y @ ''-'' @ pad_int 2 m @ ''-'' @ pad_int 2 d @ ''T'' @
      pad_int 2 (sd div 3600) @ '':'' @ pad_int 2 (sd div 60 mod 60) @ '':'' @
      pad_int 2 (sd mod 60) @ (fraction ns @ ''Z'')"
    and yr: "0 \<le> y" "y \<le> 9999"
    using assms yy md by (auto simp: rfc3339_nano_def Let_def secs_def ns_def sd_def split: if_splits)
  note days = year_and_yday_days [OF yy]
  have mdays: "1 \<le> m" "m \<le> 12" "1 \<le> d" "d \<le> month_lengths y ! nat (m - 1)"
      "sum_list (take (nat (m - 1)) (month_lengths y)) + (d - 1) = yd"
    using month_and_day_days [OF md days(2)] days(3) month_lengths_sum [of y]
    by (simp_all add: month_lengths_def)
  have "month_lengths y ! nat (m - 1) \<le> 31"
  proof -
    have "nat (m - 1) < length (month_lengths y)" using mdays(1,2) by (simp add: month_lengths_def)
    then have "month_lengths y ! nat (m - 1) \<in> set (month_lengths y)" by (rule nth_mem)
    then show ?thesis by (auto simp: month_lengths_def split: if_splits)
  qed
  with mdays(4) have d31: "d \<le> 31" by simp
  have sd: "0 \<le> sd" "sd < 86400" by (simp_all add: sd_def)
  then have clock: "0 \<le> sd div 3600" "sd div 3600 \<le> 23" "0 \<le> sd div 60 mod 60" "sd div 60 mod 60 \<le> 59"
      "0 \<le> sd mod 60" "sd mod 60 \<le> 59" by auto
  have "0 \<le> ns" "ns < 1000000000" by (simp_all add: ns_def)
  then have frac: "read_fraction (fraction ns @ ''Z'') = (ns, ''Z'')" by (rule read_fraction_fraction)
  have Y: "bounded_uint (pad_int 4 y) 0 9999 = Some y" by (rule bounded_pad) (use yr in simp_all)
  have M: "bounded_uint (pad_int 2 m) 1 12 = Some m" by (rule bounded_pad) (use mdays(1,2) in simp_all)
  have D: "bounded_uint (pad_int 2 d) 1 (month_lengths y ! nat (m - 1)) = Some d"
    by (rule bounded_pad) (use mdays(3,4) d31 in simp_all)
  have H: "bounded_uint (pad_int 2 (sd div 3600)) 0 23 = Some (sd div 3600)"
    by (rule bounded_two) (use clock(1,2) in linarith)+
  have Mi: "bounded_uint (pad_int 2 (sd div 60 mod 60)) 0 59 = Some (sd div 60 mod 60)"
    by (rule bounded_two) (use clock(3,4) in linarith)+
  have Se: "bounded_uint (pad_int 2 (sd mod 60)) 0 59 = Some (sd mod 60)"
    by (rule bounded_two) (use clock(5,6) in linarith)+
  have two: "length (pad_int 2 n) = 2" if "0 \<le> n" "n \<le> 99" for n
    by (rule pad_int_digits(1)) (use that in simp_all)
  have "length (pad_int 4 y) = 4" by (rule pad_int_digits(1)) (use yr in simp_all)
  moreover have "length (pad_int 2 m) = 2" "length (pad_int 2 d) = 2" "length (pad_int 2 (sd div 3600)) = 2"
    "length (pad_int 2 (sd div 60 mod 60)) = 2" "length (pad_int 2 (sd mod 60)) = 2"
    by (rule two; use mdays(1-3) d31 clock in linarith)+
  ultimately have "parseRFC3339 s =
      Some (date_seconds y m d (sd div 3600) (sd div 60 mod 60) (sd mod 60) * 1000000000 + ns)"
    unfolding s by (rule parse_layout [OF _ _ _ _ _ _ Y M D H Mi Se frac])
  also have "date_seconds y m d (sd div 3600) (sd div 60 mod 60) (sd mod 60) = secs"
  proof -
    have "days_before_year y + sum_list (take (nat (m - 1)) (month_lengths y)) + (d - 1) = secs div 86400"
      using days(1) mdays(5) by linarith
    then have "date_seconds y m d (sd div 3600) (sd div 60 mod 60) (sd mod 60) = secs div 86400 * 86400 +
        (sd div 3600 * 3600 + (sd div 60 mod 60) * 60 + sd mod 60)"
      by (simp only: date_seconds_def add.assoc)
    also have "\<dots> = secs" by (simp only: clock_split sd_def div_mult_mod_eq)
    finally show ?thesis .
  qed
  also have "secs * 1000000000 + ns = t" by (simp add: secs_def ns_def)
  finally show ?thesis .
qed

end
