(* ===== verification/JsonValue.thy ===== *)
theory JsonValue
  imports Json Rfc3339
begin

text \<open>
  JSON values as \<open>encoding/json\<close> reads and writes them: the reader of a value from the front
  of a byte stream (\<open>json.Decoder\<close>) or of a whole text (\<open>json.Unmarshal\<close>), the compact form
  the encoder writes for the program's structs, and that the one reads back the other.

  A string is kept both as it reads and as it was written, since \<open>time.Time\<close> looks at the
  written form. Arrays and objects nest at most 10000 deep, the decoder's own limit, which is
  also what the reader recurses on.
\<close>

datatype json =
    JNull
  | JBool bool
  | JNum string
  | JStr string string \<comment> \<open>the string, and its escaped form between the quotes\<close>
  | JArr "json list"
  | JObj "(string \<times> json) list"

section \<open>Reading\<close>

definition is_digit :: "char \<Rightarrow> bool" where
  "is_digit c \<longleftrightarrow> digit_value c \<noteq> None"

text \<open>The parts of a number; each returns the text after it.\<close>

definition read_int_part :: "string \<Rightarrow> string option" where
  "read_int_part s = (case s of
     [] \<Rightarrow> None
   | c # cs \<Rightarrow> if c = CHR ''0'' then Some cs else if is_digit c then Some (dropWhile is_digit cs) else None)"

definition read_digits :: "string \<Rightarrow> string option" where
  "read_digits s = (case s of
     [] \<Rightarrow> None | c # cs \<Rightarrow> if is_digit c then Some (dropWhile is_digit cs) else None)"

definition read_frac_part :: "string \<Rightarrow> string option" where
  "read_frac_part s = (case s of
     c # cs \<Rightarrow> if c = CHR ''.'' then read_digits cs else Some s | [] \<Rightarrow> Some s)"

definition read_exp_part :: "string \<Rightarrow> string option" where
  "read_exp_part s = (case s of
     c # cs \<Rightarrow> if c = CHR ''e'' \<or> c = CHR ''E'' then
         (case cs of x # xs \<Rightarrow> read_digits (if x = CHR ''+'' \<or> x = CHR ''-'' then xs else cs) | [] \<Rightarrow> None)
       else Some s
   | [] \<Rightarrow> Some s)"

definition read_number :: "string \<Rightarrow> string option" where
  "read_number s =
     Option.bind (read_int_part (case s of c # cs \<Rightarrow> if c = CHR ''-'' then cs else s | [] \<Rightarrow> s))
       (\<lambda>r. Option.bind (read_frac_part r) read_exp_part)"

definition read_quoted :: "string \<Rightarrow> (json \<times> string) option" where
  "read_quoted cs = map_option (\<lambda>(t, rest). (JStr t (take (length cs - length rest - 1) cs), rest)) (unquote cs)"

definition read_scalar :: "string \<Rightarrow> (json \<times> string) option" where
  "read_scalar s = (case s of
     [] \<Rightarrow> None
   | c # cs \<Rightarrow>
       if c = dquote then read_quoted cs
       else if take 4 s = ''null'' then Some (JNull, drop 4 s)
       else if take 4 s = ''true'' then Some (JBool True, drop 4 s)
       else if take 5 s = ''false'' then Some (JBool False, drop 5 s)
       else map_option (\<lambda>rest. (JNum (take (length s - length rest) s), rest)) (read_number s))"

text \<open>
  The items of an array or object after its first, up to the closing bracket. An item takes
  at least one byte and a comma another, so the length of the text bounds their number.
\<close>

fun read_list :: "nat \<Rightarrow> (string \<Rightarrow> ('a \<times> string) option) \<Rightarrow> char \<Rightarrow> string \<Rightarrow> ('a list \<times> string) option" where
  "read_list 0 f close s = None"
| "read_list (Suc n) f close s = (case f (skip_ws s) of
     None \<Rightarrow> None
   | Some (x, rest) \<Rightarrow> (case skip_ws rest of
        [] \<Rightarrow> None
      | c # rest' \<Rightarrow>
          if c = close then Some ([x], rest')
          else if c = CHR '','' then map_option (\<lambda>(xs, r). (x # xs, r)) (read_list n f close rest')
          else None))"

definition read_items :: "(string \<Rightarrow> ('a \<times> string) option) \<Rightarrow> char \<Rightarrow> string \<Rightarrow> ('a list \<times> string) option" where
  "read_items f close s = (case skip_ws s of
     [] \<Rightarrow> None | c # cs \<Rightarrow> if c = close then Some ([], cs) else read_list (length s) f close s)"

definition read_member :: "(string \<Rightarrow> (json \<times> string) option) \<Rightarrow> string \<Rightarrow> ((string \<times> json) \<times> string) option" where
  "read_member f s = (case s of
     [] \<Rightarrow> None
   | c # cs \<Rightarrow>
       if c \<noteq> dquote then None
       else (case unquote cs of
          None \<Rightarrow> None
        | Some (k, rest) \<Rightarrow> (case skip_ws rest of
             [] \<Rightarrow> None
           | x # xs \<Rightarrow> if x \<noteq> CHR '':'' then None
                       else map_option (\<lambda>(v, r). ((k, v), r)) (f (skip_ws xs)))))"

primrec read_value :: "nat \<Rightarrow> string \<Rightarrow> (json \<times> string) option" where
  "read_value 0 s = read_scalar s"
| "read_value (Suc d) s = (case s of
     [] \<Rightarrow> None
   | c # cs \<Rightarrow>
       if c = CHR ''{'' then map_option (\<lambda>(ms, r). (JObj ms, r)) (read_items (read_member (read_value d)) (CHR ''}'') cs)
       else if c = CHR ''['' then map_option (\<lambda>(vs, r). (JArr vs, r)) (read_items (read_value d) (CHR '']'') cs)
       else read_scalar s)"

definition max_nesting :: nat where
  "max_nesting = 10000"

text \<open>\<open>Decode\<close> takes the first value of the stream and does not look at what follows it.\<close>

definition decode_stream :: "string \<Rightarrow> json option" where
  "decode_stream s = map_option fst (read_value max_nesting (skip_ws s))"

definition decode_text :: "string \<Rightarrow> json option" where
  "decode_text s = (case read_value max_nesting (skip_ws s) of
     Some (v, rest) \<Rightarrow> if skip_ws rest = [] then Some v else None | None \<Rightarrow> None)"

section \<open>Writing\<close>

fun commas :: "string list \<Rightarrow> string" where
  "commas [] = []"
| "commas [x] = x"
| "commas (x # xs) = x @ CHR '','' # commas xs"

fun print_json :: "json \<Rightarrow> string" where
  "print_json JNull = ''null''"
| "print_json (JBool b) = (if b then ''true'' else ''false'')"
| "print_json (JNum s) = s"
| "print_json (JStr s _) = json_string s"
| "print_json (JArr vs) = CHR ''['' # commas (map print_json vs) @ '']''"
| "print_json (JObj ms) =
     CHR ''{'' # commas (map (\<lambda>(k, v). json_string k @ CHR '':'' # print_json v) ms) @ ''}''"

section \<open>Reading back\<close>

definition escaped :: "string \<Rightarrow> string" where
  "escaped s = concat (map json_escape (runes s))"

text \<open>A value as it comes back: ill-formed bytes of its strings replaced.\<close>

fun reread :: "json \<Rightarrow> json" where
  "reread (JStr s _) = JStr (sanitize s) (escaped s)"
| "reread (JArr vs) = JArr (map reread vs)"
| "reread (JObj ms) = JObj (map (\<lambda>(k, v). (sanitize k, reread v)) ms)"
| "reread v = v"

fun depth :: "json \<Rightarrow> nat" where
  "depth (JArr vs) = Suc (fold max (map depth vs) 0)"
| "depth (JObj ms) = Suc (fold max (map (\<lambda>(_, v). depth v) ms) 0)"
| "depth _ = 0"

text \<open>The numbers the program writes are integers.\<close>

fun integral :: "json \<Rightarrow> bool" where
  "integral (JNum s) \<longleftrightarrow> (\<exists>n. s = FormatInt n)"
| "integral (JArr vs) \<longleftrightarrow> list_all integral vs"
| "integral (JObj ms) \<longleftrightarrow> list_all (\<lambda>(_, v). integral v) ms"
| "integral _ \<longleftrightarrow> True"

definition stops :: "string \<Rightarrow> bool" where
  "stops t \<longleftrightarrow> (case t of [] \<Rightarrow> True | c # _ \<Rightarrow> \<not> is_digit c \<and> c \<notin> {CHR ''.'', CHR ''e'', CHR ''E''})"

lemma digits_of_first:
  obtains c cs where "digits_of n = c # cs" and "is_digit c" and "c = CHR ''0'' \<Longrightarrow> cs = []" and "list_all is_digit cs"
proof -
  have dig: "list_all is_digit (digits_of n)"
    using digits_of_all_digits [of n] by (simp add: all_digits_def is_digit_def list_all_iff)
  have "\<exists>c cs. digits_of n = c # cs \<and> (c = CHR ''0'' \<longrightarrow> cs = [])"
  proof (induction n rule: digits_of.induct)
    case (1 n)
    show ?case
    proof (cases "n < 10")
      case True
      then show ?thesis by (subst digits_of.simps) simp
    next
      case False
      with 1 obtain c cs where c: "digits_of (n div 10) = c # cs" "c = CHR ''0'' \<longrightarrow> cs = []" by blast
      have "n div 10 \<noteq> 0" using False by simp
      then have "c \<noteq> CHR ''0''" using c dec_value_digits_of [of "n div 10"] by auto
      with c False show ?thesis by (subst digits_of.simps) simp
    qed
  qed
  with dig that show thesis by auto
qed

lemma dropWhile_stops: "list_all is_digit cs \<Longrightarrow> stops t \<Longrightarrow> dropWhile is_digit (cs @ t) = t"
  by (induction cs) (auto simp: stops_def split: list.splits)

lemma read_int_digits: "stops t \<Longrightarrow> read_int_part (digits_of n @ t) = Some t"
  by (rule digits_of_first [of n]) (auto simp: read_int_part_def dropWhile_stops)

lemma read_number_int:
  assumes "stops t" shows "read_number (FormatInt n @ t) = Some t"
proof -
  have tail: "read_frac_part t = Some t" "read_exp_part t = Some t"
    using assms by (auto simp: read_frac_part_def read_exp_part_def stops_def split: list.splits)
  obtain c cs where c: "digits_of (nat n) = c # cs" "is_digit c" by (rule digits_of_first)
  then have "c \<noteq> CHR ''-''" by (auto simp: is_digit_def digit_value_def)
  moreover have "read_int_part (c # cs @ t) = Some t" using read_int_digits [OF assms, of "nat n"] c(1) by simp
  ultimately show ?thesis
    using c read_int_digits [OF assms] tail by (simp add: read_number_def FormatInt_def)
qed

lemma FormatInt_first:
  obtains c cs where "FormatInt n = c # cs" and "is_digit c \<or> c = CHR ''-''"
proof (cases "n < 0")
  case True
  then show ?thesis using that by (simp add: FormatInt_def)
next
  case False
  obtain c cs where "digits_of (nat n) = c # cs" "is_digit c" by (rule digits_of_first)
  with False that show thesis by (simp add: FormatInt_def)
qed

lemma read_scalar_int:
  assumes "stops t" shows "read_scalar (FormatInt n @ t) = Some (JNum (FormatInt n), t)"
proof -
  obtain c cs where c: "FormatInt n = c # cs" "is_digit c \<or> c = CHR ''-''" by (rule FormatInt_first)
  then have ne: "c \<noteq> dquote \<and> c \<noteq> CHR ''n'' \<and> c \<noteq> CHR ''t'' \<and> c \<noteq> CHR ''f''"
    by (auto simp: is_digit_def digit_value_def dquote_def)
  have "read_number (c # cs @ t) = Some t" using read_number_int [OF assms, of n] c(1) by simp
  with ne show ?thesis by (simp add: read_scalar_def c(1))
qed

lemma read_quoted_string: "read_quoted (escaped s @ dquote # t) = Some (JStr (sanitize s) (escaped s), t)"
  using unquote_escapes [of "runes s" t] runes_rune_piece
  by (simp add: read_quoted_def escaped_def sanitize_def list_all_iff)

lemma json_string_escaped: "json_string s = dquote # escaped s @ [dquote]"
  by (simp add: json_string_def escaped_def)

text \<open>A text that starts with a byte that is neither blank nor a closing bracket.\<close>

definition solid :: "string \<Rightarrow> bool" where
  "solid s \<longleftrightarrow> (case s of [] \<Rightarrow> False
     | c # _ \<Rightarrow> c \<notin> {CHR '' '', CHR '']'', CHR ''}''} \<and> (of_char c :: nat) \<notin> {9, 10, 13})"

lemma skip_ws_solid: "solid s \<Longrightarrow> skip_ws (s @ t) = s @ t"
  by (cases s) (auto simp: solid_def)

lemma solid_nonempty: "solid s \<Longrightarrow> s \<noteq> []"
  by (auto simp: solid_def)

lemma solid_string: "solid (json_string s @ t)"
  by (simp add: solid_def json_string_def dquote_def)

lemma solid_print:
  assumes "integral v" shows "solid (print_json v)"
proof (cases v)
  case (JNum s)
  then obtain n where "s = FormatInt n" using assms by auto
  moreover obtain c cs where c: "FormatInt n = c # cs" "is_digit c \<or> c = CHR ''-''" by (rule FormatInt_first)
  ultimately show ?thesis using JNum by (auto simp: solid_def is_digit_def digit_value_def)
next
  case (JStr s r)
  then show ?thesis using solid_string [of s "[]"] by simp
qed (simp_all add: solid_def)

text \<open>Reading a list of printed items, for any way \<open>pr\<close> of printing and \<open>f\<close> of reading one.\<close>

lemma read_list_commas:
  assumes "\<And>x t. x \<in> set xs \<Longrightarrow> stops t \<Longrightarrow> f (pr x @ t) = Some (g x, t)"
    and "\<And>x. x \<in> set xs \<Longrightarrow> solid (pr x)" and "close \<in> {CHR '']'', CHR ''}''}"
    and "xs \<noteq> []" and "length xs \<le> n"
  shows "read_list n f close (commas (map pr xs) @ close # t) = Some (map g xs, t)"
  using assms
proof (induction xs arbitrary: n)
  case (Cons x xs)
  then obtain m where n: "n = Suc m" "length xs \<le> m" by (cases n) auto
  have x: "f (pr x @ t') = Some (g x, t')" "skip_ws (pr x @ t') = pr x @ t'" if "stops t'" for t'
    using Cons.prems(1,2) that skip_ws_solid by auto
  have close: "stops (close # t)" "skip_ws (close # t) = close # t" "close \<noteq> CHR '',''"
    using Cons.prems(3) by (auto simp: stops_def is_digit_def digit_value_def)
  show ?case
  proof (cases xs)
    case Nil
    then show ?thesis using x [OF close(1)] close by (simp add: n)
  next
    case (Cons y ys)
    have comma: "stops (CHR '','' # t')" for t' by (simp add: stops_def is_digit_def digit_value_def)
    have "read_list m f close (commas (map pr xs) @ close # t) = Some (map g xs, t)"
      using Cons.prems Cons.IH [of m] n(2) Cons by auto
    then show ?thesis using x [OF comma] close(3) Cons by (simp add: n)
  qed
qed simp

lemma commas_length: "(\<And>x. x \<in> set xs \<Longrightarrow> x \<noteq> []) \<Longrightarrow> length xs \<le> length (commas xs)"
proof (induction xs rule: commas.induct)
  case (2 x)
  then show ?case by (cases x) auto
next
  case (3 x y ys)
  then have "0 < length x" "length (y # ys) \<le> length (commas (y # ys))" by auto
  then show ?case by simp
qed simp

lemma read_items_commas:
  assumes "\<And>x t. x \<in> set xs \<Longrightarrow> stops t \<Longrightarrow> f (pr x @ t) = Some (g x, t)"
    and "\<And>x. x \<in> set xs \<Longrightarrow> solid (pr x)" and "close \<in> {CHR '']'', CHR ''}''}"
  shows "read_items f close (commas (map pr xs) @ close # t) = Some (map g xs, t)"
proof (cases xs)
  case Nil
  then show ?thesis using assms(3) by (auto simp: read_items_def)
next
  case (Cons x ys)
  let ?s = "commas (map pr xs) @ close # t"
  have "solid (pr x)" using assms(2) Cons by simp
  then obtain c cs where c: "pr x = c # cs" "c \<noteq> close" using assms(3) by (auto simp: solid_def split: list.splits)
  obtain r where r: "commas (map pr xs) = pr x @ r" using Cons by (cases ys) auto
  then have "skip_ws ?s = ?s" using skip_ws_solid [OF \<open>solid (pr x)\<close>] by simp
  moreover have "length xs \<le> length ?s"
  proof -
    have "y \<noteq> []" if "y \<in> set (map pr xs)" for y using assms(2) that solid_nonempty by auto
    from commas_length [of "map pr xs", OF this] show ?thesis by simp
  qed
  moreover have "xs \<noteq> []" using Cons by simp
  ultimately show ?thesis
    using read_list_commas [of xs f pr g close "length ?s" t] assms c r by (simp add: read_items_def)
qed

lemma fold_max_le: "fold max xs (m :: nat) \<le> d \<longleftrightarrow> m \<le> d \<and> (\<forall>x \<in> set xs. x \<le> d)"
  by (induction xs arbitrary: m) auto

lemma read_member_print:
  assumes "\<And>t. stops t \<Longrightarrow> f (print_json v @ t) = Some (v', t)" and "integral v" and "stops t"
  shows "read_member f ((json_string k @ CHR '':'' # print_json v) @ t) = Some ((sanitize k, v'), t)"
proof -
  have "unquote (escaped k @ dquote # r) = Some (sanitize k, r)" for r
    using unquote_escapes [of "runes k" r] runes_rune_piece by (simp add: escaped_def sanitize_def list_all_iff)
  then show ?thesis
    using skip_ws_solid [OF solid_print [OF assms(2)], of t] assms(1,3)
    by (simp add: read_member_def json_string_escaped)
qed

lemma read_scalar_value: "read_value d s = read_scalar s" if "case s of [] \<Rightarrow> True | c # _ \<Rightarrow> c \<noteq> CHR ''{'' \<and> c \<noteq> CHR ''[''"
  using that by (cases d; cases s) (auto simp: read_scalar_def)

lemma read_print:
  assumes "integral v" and "depth v \<le> d" and "stops t"
  shows "read_value d (print_json v @ t) = Some (reread v, t)"
  using assms
proof (induction v arbitrary: d t)
  case (JNum s)
  then obtain n where n: "s = FormatInt n" by auto
  obtain c cs where c: "FormatInt n = c # cs" "is_digit c \<or> c = CHR ''-''" by (rule FormatInt_first)
  then have "c \<noteq> CHR ''{'' \<and> c \<noteq> CHR ''[''" by (auto simp: is_digit_def digit_value_def)
  then show ?case using read_scalar_int [OF JNum.prems(3), of n] n c(1) by (simp add: read_scalar_value)
next
  case (JStr s r)
  then show ?case using read_quoted_string [of s t]
    by (simp add: read_scalar_value read_scalar_def json_string_escaped dquote_def)
next
  case (JArr vs)
  then obtain d' where d: "d = Suc d'" by (cases d) auto
  have "read_items (read_value d') (CHR '']'') (commas (map print_json vs) @ CHR '']'' # t) = Some (map reread vs, t)"
    by (rule read_items_commas) (use JArr d in \<open>auto simp: fold_max_le list_all_iff solid_print\<close>)
  then show ?case by (simp add: d)
next
  case (JObj ms)
  then obtain d' where d: "d = Suc d'" by (cases d) auto
  have mem: "read_member (read_value d') ((case x of (k, v) \<Rightarrow> json_string k @ CHR '':'' # print_json v) @ t) =
      Some (case x of (k, v) \<Rightarrow> (sanitize k, reread v), t)" if "x \<in> set ms" "stops t" for x t
  proof -
    obtain k v where x: "x = (k, v)" by fastforce
    have v: "integral v" "depth v \<le> d'" using JObj.prems(1,2) that(1) x by (auto simp: d fold_max_le list_all_iff)
    have "read_value d' (print_json v @ t) = Some (reread v, t)" if "stops t" for t
      using JObj.IH [of x v d' t] \<open>x \<in> set ms\<close> x v that by auto
    from read_member_print [of "read_value d'" v, OF this v(1) that(2)] show ?thesis by (simp add: x)
  qed
  have "read_items (read_member (read_value d')) (CHR ''}'')
      (commas (map (\<lambda>(k, v). json_string k @ CHR '':'' # print_json v) ms) @ CHR ''}'' # t) =
    Some (map (\<lambda>(k, v). (sanitize k, reread v)) ms, t)"
    by (rule read_items_commas [OF mem]) (auto simp: solid_string)
  then show ?case by (simp add: d)
qed (auto simp: read_scalar_value read_scalar_def dquote_def)

lemma decode_stream_print:
  assumes "integral v" and "depth v \<le> max_nesting" and "stops t"
  shows "decode_stream (print_json v @ t) = Some (reread v)"
  using read_print [OF assms] skip_ws_solid [OF solid_print [OF assms(1)], of t]
  by (simp add: decode_stream_def)

lemma decode_text_print:
  assumes "integral v" and "depth v \<le> max_nesting"
  shows "decode_text (print_json v) = Some (reread v)"
  using read_print [OF assms, of "[]"] skip_ws_solid [OF solid_print [OF assms(1)], of "[]"]
  by (simp add: decode_text_def stops_def)

end
