(* ===== verification/Messages.thy ===== *)
theory Messages
  imports JsonValue Daemon
begin

text \<open>
  The messages of \<open>internal/ipc/protocol.go\<close> on the wire: each struct as the JSON object its
  field tags describe, and the reading of such an object into a struct as \<open>encoding/json\<close>
  does it. A \<open>store.Job\<close> and a \<open>store.HistoryEntry\<close> have no tags, so their members carry the
  field names.

  Reading goes through the members of an object in order and stores each into the field
  its key names (exactly, or up to letter case), over what the field holds; \<open>null\<close> leaves a
  field as it is, except that it clears a pointer or slice; other keys are skipped. A value
  of the wrong kind is an error of the whole message. A \<open>null\<close> among the elements of a slice
  reads as the zero value, as it does in a slice that is filled for the first time.
\<close>

section \<open>Writing\<close>

type_synonym members = "(string \<times> json) list"

abbreviation jstr :: "string \<Rightarrow> json" where
  "jstr s \<equiv> JStr s []"

abbreviation jint :: "int \<Rightarrow> json" where
  "jint n \<equiv> JNum (FormatInt n)"

text \<open>\<open>omitempty\<close>.\<close>

definition unless_empty :: "bool \<Rightarrow> string \<Rightarrow> json \<Rightarrow> members" where
  "unless_empty omit name v = (if omit then [] else [(name, v)])"

definition opt_str :: "string \<Rightarrow> string \<Rightarrow> members" where
  "opt_str name s = unless_empty (s = []) name (jstr s)"

definition enc_strings :: "string list option \<Rightarrow> json" where
  "enc_strings xs = (case xs of None \<Rightarrow> JNull | Some xs \<Rightarrow> JArr (map jstr xs))"

definition enc_register :: "RegisterJob \<Rightarrow> json" where
  "enc_register r = JObj ([(''pid'', jint (rj_PID r)), (''pgid'', jint (rj_PGID r)),
     (''command'', enc_strings (rj_Command r)), (''work_dir'', jstr (rj_WorkDir r))] @
     opt_str ''checkpoint_dir'' (rj_CheckpointDir r) @ opt_str ''hook_checkpoint'' (rj_HookCheckpoint r) @
     opt_str ''hook_resume'' (rj_HookResume r) @ opt_str ''tag'' (rj_Tag r))"

definition enc_adopt :: "AdoptCheckpoint \<Rightarrow> json" where
  "enc_adopt a = JObj ([(''checkpoint_dir'', jstr (ac_CheckpointDir a))] @
     opt_str ''hook_resume'' (ac_HookResume a) @ opt_str ''hook_checkpoint'' (ac_HookCheckpoint a) @
     opt_str ''tag'' (ac_Tag a))"

definition opt_ptr :: "string \<Rightarrow> ('a \<Rightarrow> json) \<Rightarrow> 'a option \<Rightarrow> members" where
  "opt_ptr name enc p = (case p of None \<Rightarrow> [] | Some x \<Rightarrow> [(name, enc x)])"

definition enc_request :: "Request \<Rightarrow> json" where
  "enc_request r = JObj ([(''action'', jstr (rq_Action r))] @ opt_ptr ''job'' enc_register (rq_Job r) @
     opt_ptr ''adopt'' enc_adopt (rq_Adopt r) @ opt_str ''job_id'' (rq_JobID r) @
     opt_str ''requested_by'' (rq_RequestedBy r) @
     unless_empty (\<not> rq_IncludeHistory r) ''include_history'' (JBool (rq_IncludeHistory r)) @
     unless_empty (rq_ExitCode r = 0) ''exit_code'' (jint (rq_ExitCode r)) @
     opt_str ''err_msg'' (rq_ErrMsg r))"

text \<open>A time outside the years 0 to 9999 cannot be written.\<close>

definition enc_time :: "time \<Rightarrow> json option" where
  "enc_time t = map_option jstr (rfc3339_nano t)"

definition enc_job :: "Job \<Rightarrow> json option" where
  "enc_job j = (case (enc_time (RegisteredAt j), enc_time (UpdatedAt j)) of
     (Some ra, Some ua) \<Rightarrow> Some (JObj [(''ID'', jstr (ID j)), (''PID'', jint (PID j)), (''PGID'', jint (PGID j)),
       (''CheckpointDir'', jstr (CheckpointDir j)), (''Command'', enc_strings (Command j)),
       (''WorkDir'', jstr (WorkDir j)), (''HookCheckpoint'', jstr (HookCheckpoint j)),
       (''HookResume'', jstr (HookResume j)), (''Status'', jstr (status_text (Status j))),
       (''FailureReason'', jstr (FailureReason j)), (''Owner'', jstr (Owner j)), (''Tag'', jstr (Tag j)),
       (''RegisteredAt'', ra), (''UpdatedAt'', ua)])
   | _ \<Rightarrow> None)"

definition enc_history :: "HistoryEntry \<Rightarrow> json option" where
  "enc_history h = map_option (\<lambda>at. JObj [(''JobID'', jstr (JobID h)),
     (''FromStatus'', jstr (status_text (FromStatus h))), (''ToStatus'', jstr (status_text (ToStatus h))),
     (''ChangedBy'', jstr (ChangedBy h)), (''ChangedAt'', at)]) (enc_time (ChangedAt h))"

text \<open>A response whose jobs and history entries are already written.\<close>

definition response_object :: "Response \<Rightarrow> json option \<Rightarrow> json list \<Rightarrow> json list \<Rightarrow> json" where
  "response_object r job jobs hist = JObj ([(''ok'', JBool (rs_OK r))] @
     opt_str ''error'' (rs_Error r) @ opt_str ''job_id'' (rs_JobID r) @ opt_ptr ''job'' (\<lambda>v. v) job @
     unless_empty (jobs = []) ''jobs'' (JArr jobs) @ unless_empty (hist = []) ''history'' (JArr hist) @
     opt_str ''message'' (rs_Message r) @
     unless_empty (rs_Failures r = []) ''failures'' (JArr (map jstr (rs_Failures r))))"

definition enc_response :: "Response \<Rightarrow> json option" where
  "enc_response r =
     (case (case rs_Job r of None \<Rightarrow> Some None | Some j \<Rightarrow> map_option Some (enc_job j),
            those (map enc_job (rs_Jobs r)), those (map enc_history (rs_History r))) of
        (Some job, Some jobs, Some hist) \<Rightarrow> Some (response_object r job jobs hist)
      | _ \<Rightarrow> None)"

section \<open>Reading\<close>

text \<open>
  Keys match up to simple case folding: beyond ASCII, the Kelvin sign folds to K and the long s
  to S.
\<close>

definition fold_rune :: "nat \<Rightarrow> nat" where
  "fold_rune r = (if 97 \<le> r \<and> r \<le> 122 then r - 32 else if r = 383 then 83 else if r = 8490 then 75 else r)"

definition fold_name :: "string \<Rightarrow> nat list" where
  "fold_name k = map (\<lambda>(r, _). fold_rune r) (runes k)"

definition find_field :: "string list \<Rightarrow> string \<Rightarrow> string option" where
  "find_field names k = (if k \<in> set names then Some k else find (\<lambda>n. fold_name n = fold_name k) names)"

fun dec_members :: "string list \<Rightarrow> (string \<Rightarrow> json \<Rightarrow> 'a \<Rightarrow> 'a option) \<Rightarrow> members \<Rightarrow> 'a \<Rightarrow> 'a option" where
  "dec_members names store [] x = Some x"
| "dec_members names store ((k, v) # ms) x = (case find_field names k of
     None \<Rightarrow> dec_members names store ms x
   | Some name \<Rightarrow> (case store name v x of None \<Rightarrow> None | Some x \<Rightarrow> dec_members names store ms x))"

declare dec_members.simps(2) [simp del]

definition dec_struct :: "string list \<Rightarrow> (string \<Rightarrow> json \<Rightarrow> 'a \<Rightarrow> 'a option) \<Rightarrow> json \<Rightarrow> 'a \<Rightarrow> 'a option" where
  "dec_struct names store v x = (case v of
     JObj ms \<Rightarrow> dec_members names store ms x | JNull \<Rightarrow> Some x | _ \<Rightarrow> None)"

definition dec_ptr :: "'a \<Rightarrow> (json \<Rightarrow> 'a \<Rightarrow> 'a option) \<Rightarrow> json \<Rightarrow> 'a option \<Rightarrow> 'a option option" where
  "dec_ptr zero dec v p = (if v = JNull then Some None
     else map_option Some (dec v (case p of None \<Rightarrow> zero | Some x \<Rightarrow> x)))"

definition dec_str :: "json \<Rightarrow> string \<Rightarrow> string option" where
  "dec_str v x = (case v of JStr s _ \<Rightarrow> Some s | JNull \<Rightarrow> Some x | _ \<Rightarrow> None)"

definition dec_int :: "json \<Rightarrow> int \<Rightarrow> int option" where
  "dec_int v x = (case v of
     JNum s \<Rightarrow> (case ParseInt s of Inr n \<Rightarrow> Some n | Inl _ \<Rightarrow> None) | JNull \<Rightarrow> Some x | _ \<Rightarrow> None)"

definition dec_bool :: "json \<Rightarrow> bool \<Rightarrow> bool option" where
  "dec_bool v x = (case v of JBool b \<Rightarrow> Some b | JNull \<Rightarrow> Some x | _ \<Rightarrow> None)"

text \<open>\<open>time.Time\<close> reads the text between the quotes as it stands, escapes and all.\<close>

definition dec_time :: "(string \<Rightarrow> time option) \<Rightarrow> json \<Rightarrow> time \<Rightarrow> time option" where
  "dec_time lenient v x = (case v of JStr _ raw \<Rightarrow> UnmarshalTime lenient raw | JNull \<Rightarrow> Some x | _ \<Rightarrow> None)"

definition dec_slice :: "(json \<Rightarrow> 'a option) \<Rightarrow> json \<Rightarrow> 'a list option option" where
  "dec_slice dec v = (case v of
     JNull \<Rightarrow> Some None | JArr vs \<Rightarrow> map_option Some (those (map dec vs)) | _ \<Rightarrow> None)"

definition dec_strings :: "json \<Rightarrow> string list option option" where
  "dec_strings v = dec_slice (\<lambda>v. dec_str v []) v"

definition register0 :: RegisterJob where
  "register0 = \<lparr>rj_PID = 0, rj_PGID = 0, rj_Command = None, rj_WorkDir = [], rj_CheckpointDir = [],
     rj_HookCheckpoint = [], rj_HookResume = [], rj_Tag = []\<rparr>"

definition register_names :: "string list" where
  "register_names = [''pid'', ''pgid'', ''command'', ''work_dir'', ''checkpoint_dir'', ''hook_checkpoint'',
     ''hook_resume'', ''tag'']"

definition store_register :: "string \<Rightarrow> json \<Rightarrow> RegisterJob \<Rightarrow> RegisterJob option" where
  "store_register name v x =
     (if name = ''pid'' then map_option (\<lambda>n. x\<lparr>rj_PID := n\<rparr>) (dec_int v (rj_PID x))
      else if name = ''pgid'' then map_option (\<lambda>n. x\<lparr>rj_PGID := n\<rparr>) (dec_int v (rj_PGID x))
      else if name = ''command'' then map_option (\<lambda>c. x\<lparr>rj_Command := c\<rparr>) (dec_strings v)
      else if name = ''work_dir'' then map_option (\<lambda>s. x\<lparr>rj_WorkDir := s\<rparr>) (dec_str v (rj_WorkDir x))
      else if name = ''checkpoint_dir'' then map_option (\<lambda>s. x\<lparr>rj_CheckpointDir := s\<rparr>) (dec_str v (rj_CheckpointDir x))
      else if name = ''hook_checkpoint'' then map_option (\<lambda>s. x\<lparr>rj_HookCheckpoint := s\<rparr>) (dec_str v (rj_HookCheckpoint x))
      else if name = ''hook_resume'' then map_option (\<lambda>s. x\<lparr>rj_HookResume := s\<rparr>) (dec_str v (rj_HookResume x))
      else map_option (\<lambda>s. x\<lparr>rj_Tag := s\<rparr>) (dec_str v (rj_Tag x)))"

definition dec_register :: "json \<Rightarrow> RegisterJob \<Rightarrow> RegisterJob option" where
  "dec_register = dec_struct register_names store_register"

definition adopt0 :: AdoptCheckpoint where
  "adopt0 = \<lparr>ac_CheckpointDir = [], ac_HookResume = [], ac_HookCheckpoint = [], ac_Tag = []\<rparr>"

definition adopt_names :: "string list" where
  "adopt_names = [''checkpoint_dir'', ''hook_resume'', ''hook_checkpoint'', ''tag'']"

definition store_adopt :: "string \<Rightarrow> json \<Rightarrow> AdoptCheckpoint \<Rightarrow> AdoptCheckpoint option" where
  "store_adopt name v x =
     (if name = ''checkpoint_dir'' then map_option (\<lambda>s. x\<lparr>ac_CheckpointDir := s\<rparr>) (dec_str v (ac_CheckpointDir x))
      else if name = ''hook_resume'' then map_option (\<lambda>s. x\<lparr>ac_HookResume := s\<rparr>) (dec_str v (ac_HookResume x))
      else if name = ''hook_checkpoint'' then map_option (\<lambda>s. x\<lparr>ac_HookCheckpoint := s\<rparr>) (dec_str v (ac_HookCheckpoint x))
      else map_option (\<lambda>s. x\<lparr>ac_Tag := s\<rparr>) (dec_str v (ac_Tag x)))"

definition dec_adopt :: "json \<Rightarrow> AdoptCheckpoint \<Rightarrow> AdoptCheckpoint option" where
  "dec_adopt = dec_struct adopt_names store_adopt"

definition zero_request :: Request where
  "zero_request = \<lparr>rq_Action = [], rq_Job = None, rq_Adopt = None, rq_JobID = [], rq_RequestedBy = [],
     rq_IncludeHistory = False, rq_ExitCode = 0, rq_ErrMsg = []\<rparr>"

definition request_names :: "string list" where
  "request_names = [''action'', ''job'', ''adopt'', ''job_id'', ''requested_by'', ''include_history'',
     ''exit_code'', ''err_msg'']"

definition store_request :: "string \<Rightarrow> json \<Rightarrow> Request \<Rightarrow> Request option" where
  "store_request name v x =
     (if name = ''action'' then map_option (\<lambda>s. x\<lparr>rq_Action := s\<rparr>) (dec_str v (rq_Action x))
      else if name = ''job'' then map_option (\<lambda>p. x\<lparr>rq_Job := p\<rparr>) (dec_ptr register0 dec_register v (rq_Job x))
      else if name = ''adopt'' then map_option (\<lambda>p. x\<lparr>rq_Adopt := p\<rparr>) (dec_ptr adopt0 dec_adopt v (rq_Adopt x))
      else if name = ''job_id'' then map_option (\<lambda>s. x\<lparr>rq_JobID := s\<rparr>) (dec_str v (rq_JobID x))
      else if name = ''requested_by'' then map_option (\<lambda>s. x\<lparr>rq_RequestedBy := s\<rparr>) (dec_str v (rq_RequestedBy x))
      else if name = ''include_history'' then
        map_option (\<lambda>b. x\<lparr>rq_IncludeHistory := b\<rparr>) (dec_bool v (rq_IncludeHistory x))
      else if name = ''exit_code'' then map_option (\<lambda>n. x\<lparr>rq_ExitCode := n\<rparr>) (dec_int v (rq_ExitCode x))
      else map_option (\<lambda>s. x\<lparr>rq_ErrMsg := s\<rparr>) (dec_str v (rq_ErrMsg x)))"

definition dec_request :: "json \<Rightarrow> Request \<Rightarrow> Request option" where
  "dec_request = dec_struct request_names store_request"

definition job0 :: Job where
  "job0 = \<lparr>ID = [], PID = 0, PGID = 0, CheckpointDir = [], Command = None, WorkDir = [],
     HookCheckpoint = [], HookResume = [], Status = StatusOther [], FailureReason = [], Owner = [],
     Tag = [], RegisteredAt = 0, UpdatedAt = 0\<rparr>"

definition job_names :: "string list" where
  "job_names = [''ID'', ''PID'', ''PGID'', ''CheckpointDir'', ''Command'', ''WorkDir'', ''HookCheckpoint'',
     ''HookResume'', ''Status'', ''FailureReason'', ''Owner'', ''Tag'', ''RegisteredAt'', ''UpdatedAt'']"

definition dec_status :: "json \<Rightarrow> Status \<Rightarrow> Status option" where
  "dec_status v x = map_option status_of_text (dec_str v (status_text x))"

definition store_job :: "(string \<Rightarrow> time option) \<Rightarrow> string \<Rightarrow> json \<Rightarrow> Job \<Rightarrow> Job option" where
  "store_job lenient name v x =
     (if name = ''ID'' then map_option (\<lambda>s. x\<lparr>ID := s\<rparr>) (dec_str v (ID x))
      else if name = ''PID'' then map_option (\<lambda>n. x\<lparr>PID := n\<rparr>) (dec_int v (PID x))
      else if name = ''PGID'' then map_option (\<lambda>n. x\<lparr>PGID := n\<rparr>) (dec_int v (PGID x))
      else if name = ''CheckpointDir'' then map_option (\<lambda>s. x\<lparr>CheckpointDir := s\<rparr>) (dec_str v (CheckpointDir x))
      else if name = ''Command'' then map_option (\<lambda>c. x\<lparr>Command := c\<rparr>) (dec_strings v)
      else if name = ''WorkDir'' then map_option (\<lambda>s. x\<lparr>WorkDir := s\<rparr>) (dec_str v (WorkDir x))
      else if name = ''HookCheckpoint'' then map_option (\<lambda>s. x\<lparr>HookCheckpoint := s\<rparr>) (dec_str v (HookCheckpoint x))
      else if name = ''HookResume'' then map_option (\<lambda>s. x\<lparr>HookResume := s\<rparr>) (dec_str v (HookResume x))
      else if name = ''Status'' then map_option (\<lambda>s. x\<lparr>Status := s\<rparr>) (dec_status v (Status x))
      else if name = ''FailureReason'' then map_option (\<lambda>s. x\<lparr>FailureReason := s\<rparr>) (dec_str v (FailureReason x))
      else if name = ''Owner'' then map_option (\<lambda>s. x\<lparr>Owner := s\<rparr>) (dec_str v (Owner x))
      else if name = ''Tag'' then map_option (\<lambda>s. x\<lparr>Tag := s\<rparr>) (dec_str v (Tag x))
      else if name = ''RegisteredAt'' then map_option (\<lambda>t. x\<lparr>RegisteredAt := t\<rparr>) (dec_time lenient v (RegisteredAt x))
      else map_option (\<lambda>t. x\<lparr>UpdatedAt := t\<rparr>) (dec_time lenient v (UpdatedAt x)))"

definition dec_job :: "(string \<Rightarrow> time option) \<Rightarrow> json \<Rightarrow> Job \<Rightarrow> Job option" where
  "dec_job lenient = dec_struct job_names (store_job lenient)"

definition history0 :: HistoryEntry where
  "history0 = \<lparr>JobID = [], FromStatus = StatusOther [], ToStatus = StatusOther [], ChangedBy = [], ChangedAt = 0\<rparr>"

definition history_names :: "string list" where
  "history_names = [''JobID'', ''FromStatus'', ''ToStatus'', ''ChangedBy'', ''ChangedAt'']"

definition store_history :: "(string \<Rightarrow> time option) \<Rightarrow> string \<Rightarrow> json \<Rightarrow> HistoryEntry \<Rightarrow> HistoryEntry option" where
  "store_history lenient name v x =
     (if name = ''JobID'' then map_option (\<lambda>s. x\<lparr>JobID := s\<rparr>) (dec_str v (JobID x))
      else if name = ''FromStatus'' then map_option (\<lambda>s. x\<lparr>FromStatus := s\<rparr>) (dec_status v (FromStatus x))
      else if name = ''ToStatus'' then map_option (\<lambda>s. x\<lparr>ToStatus := s\<rparr>) (dec_status v (ToStatus x))
      else if name = ''ChangedBy'' then map_option (\<lambda>s. x\<lparr>ChangedBy := s\<rparr>) (dec_str v (ChangedBy x))
      else map_option (\<lambda>t. x\<lparr>ChangedAt := t\<rparr>) (dec_time lenient v (ChangedAt x)))"

definition dec_history :: "(string \<Rightarrow> time option) \<Rightarrow> json \<Rightarrow> HistoryEntry \<Rightarrow> HistoryEntry option" where
  "dec_history lenient = dec_struct history_names (store_history lenient)"

definition response_names :: "string list" where
  "response_names = [''ok'', ''error'', ''job_id'', ''job'', ''jobs'', ''history'', ''message'', ''failures'']"

definition or_empty :: "'a list option \<Rightarrow> 'a list" where
  "or_empty xs = (case xs of None \<Rightarrow> [] | Some xs \<Rightarrow> xs)"

definition store_response :: "(string \<Rightarrow> time option) \<Rightarrow> string \<Rightarrow> json \<Rightarrow> Response \<Rightarrow> Response option" where
  "store_response lenient name v x =
     (if name = ''ok'' then map_option (\<lambda>b. x\<lparr>rs_OK := b\<rparr>) (dec_bool v (rs_OK x))
      else if name = ''error'' then map_option (\<lambda>s. x\<lparr>rs_Error := s\<rparr>) (dec_str v (rs_Error x))
      else if name = ''job_id'' then map_option (\<lambda>s. x\<lparr>rs_JobID := s\<rparr>) (dec_str v (rs_JobID x))
      else if name = ''job'' then map_option (\<lambda>p. x\<lparr>rs_Job := p\<rparr>) (dec_ptr job0 (dec_job lenient) v (rs_Job x))
      else if name = ''jobs'' then map_option (\<lambda>js. x\<lparr>rs_Jobs := or_empty js\<rparr>) (dec_slice (\<lambda>v. dec_job lenient v job0) v)
      else if name = ''history'' then
        map_option (\<lambda>hs. x\<lparr>rs_History := or_empty hs\<rparr>) (dec_slice (\<lambda>v. dec_history lenient v history0) v)
      else if name = ''message'' then map_option (\<lambda>s. x\<lparr>rs_Message := s\<rparr>) (dec_str v (rs_Message x))
      else map_option (\<lambda>fs. x\<lparr>rs_Failures := or_empty fs\<rparr>) (dec_strings v))"

definition dec_response :: "(string \<Rightarrow> time option) \<Rightarrow> json \<Rightarrow> Response \<Rightarrow> Response option" where
  "dec_response lenient = dec_struct response_names (store_response lenient)"

section \<open>On the wire\<close>

text \<open>\<open>Encode\<close> writes the value and a line break.\<close>

definition write_request :: "Request \<Rightarrow> string" where
  "write_request r = print_json (enc_request r) @ newline"

definition write_response :: "Response \<Rightarrow> string option" where
  "write_response r = map_option (\<lambda>v. print_json v @ newline) (enc_response r)"

definition read_request :: "string \<Rightarrow> Request option" where
  "read_request s = Option.bind (decode_stream s) (\<lambda>v. dec_request v zero_request)"

definition read_response :: "(string \<Rightarrow> time option) \<Rightarrow> string \<Rightarrow> Response option" where
  "read_response lenient s = Option.bind (decode_stream s) (\<lambda>v. dec_response lenient v response0)"

end
