(* ===== verification/MessagesProps.thy ===== *)
theory MessagesProps
  imports Messages
begin

text \<open>
  What one side writes the other side reads: requests and responses survive the socket,
  with ill-formed UTF-8 in their strings replaced.
\<close>

section \<open>ASCII names\<close>

definition ascii :: "string \<Rightarrow> bool" where
  "ascii s \<longleftrightarrow> list_all (\<lambda>c. (of_char c :: nat) < 128) s"

lemma sanitize_ascii: "ascii s \<Longrightarrow> sanitize s = s"
proof (induction s)
  case (Cons c cs)
  then have c: "decode_rune (c # cs) = (of_char c, 1)" "(of_char c :: nat) < 128"
    by (simp_all add: ascii_def decode_rune_ascii)
  then have "runes (c # cs) = (of_char c, [c]) # runes cs" by (simp add: runes_nonempty)
  moreover have "\<not> ill_formed (of_char c, [c])" using c(2) by (simp add: ill_formed_def RuneError_def)
  ultimately show ?case using Cons by (simp add: sanitize_def sanitize_rune_def ascii_def)
qed (simp add: sanitize_def)

lemma escaped_Nil [simp]: "escaped [] = []"
  by (simp add: escaped_def)

lemma sanitize_Nil [simp]: "sanitize [] = []"
  by (simp add: sanitize_def)

section \<open>Members\<close>

abbreviation members_back :: "members \<Rightarrow> members" where
  "members_back \<equiv> map (\<lambda>(k, v). (sanitize k, reread v))"

lemma dec_members_append:
  "dec_members names st (xs @ ys) x = Option.bind (dec_members names st xs x) (dec_members names st ys)"
  by (induction names st xs x rule: dec_members.induct) (auto simp: dec_members.simps(2) split: option.splits)

lemma dec_member:
  assumes "list_ex ((=) name) names" and "ascii name"
  shows "dec_members names st [(sanitize name, v)] x = st name v x"
proof -
  have "name \<in> set names" using assms(1) by (auto simp: list_ex_iff)
  then show ?thesis using assms(2) 
    by (simp add: sanitize_ascii find_field_def dec_members.simps(2) split: option.splits)
qed

lemma dec_member_Cons:
  assumes "list_ex ((=) name) names" and "ascii name"
  shows "dec_members names st ((sanitize name, v) # ms) x = Option.bind (st name v x) (dec_members names st ms)"
  using dec_members_append [of names st "[(sanitize name, v)]" ms x] by (simp add: dec_member [OF assms])

text \<open>An omitted member reads like one that repeats the zero value.\<close>

lemma dec_opt_str:
  assumes "list_ex ((=) name) names" and "ascii name" and "st name (JStr [] []) x = Some x"
  shows "dec_members names st (members_back (opt_str name t)) x = st name (JStr (sanitize t) (escaped t)) x"
  using assms(3) by (simp add: opt_str_def unless_empty_def dec_member [OF assms(1,2)])

lemma dec_unless_empty:
  assumes "list_ex ((=) name) names" and "ascii name" and "omit \<Longrightarrow> st name (reread v) x = Some x"
  shows "dec_members names st (members_back (unless_empty omit name v)) x = st name (reread v) x"
  using assms(3) by (simp add: unless_empty_def dec_member [OF assms(1,2)])

lemma dec_opt_ptr:
  assumes "list_ex ((=) name) names" and "ascii name"
  shows "dec_members names st (members_back (opt_ptr name enc p)) x =
    (case p of None \<Rightarrow> Some x | Some y \<Rightarrow> st name (reread (enc y)) x)"
  by (simp add: opt_ptr_def dec_member [OF assms] split: option.splits)

lemmas dec_simps = dec_struct_def dec_members_append dec_member dec_member_Cons dec_opt_str dec_unless_empty
  dec_opt_ptr ascii_def

lemma dec_basic [simp]:
  "dec_str (JStr s r) x = Some s" "dec_bool (JBool b) y = Some b"
  "in_int64 n \<Longrightarrow> dec_int (jint n) z = Some n"
  by (simp_all add: dec_str_def dec_bool_def dec_int_def ParseInt_FormatInt)

lemma those_map_Some: "(\<And>x. x \<in> set xs \<Longrightarrow> f x = Some (g x)) \<Longrightarrow> those (map f xs) = Some (map g xs)"
  by (induction xs) simp_all

lemma dec_strings_back [simp]: "dec_strings (reread (enc_strings xs)) = Some (map_option (map sanitize) xs)"
proof (cases xs)
  case (Some ys)
  have "those (map (\<lambda>v. dec_str v []) (map (reread \<circ> jstr) ys)) = Some (map sanitize ys)"
    unfolding map_map by (rule those_map_Some) simp
  then show ?thesis by (simp add: Some enc_strings_def dec_strings_def dec_slice_def)
qed (simp add: enc_strings_def dec_strings_def dec_slice_def)

section \<open>Requests\<close>

definition sane_register :: "RegisterJob \<Rightarrow> RegisterJob" where
  "sane_register r = \<lparr>rj_PID = rj_PID r, rj_PGID = rj_PGID r, rj_Command = map_option (map sanitize) (rj_Command r),
     rj_WorkDir = sanitize (rj_WorkDir r), rj_CheckpointDir = sanitize (rj_CheckpointDir r),
     rj_HookCheckpoint = sanitize (rj_HookCheckpoint r), rj_HookResume = sanitize (rj_HookResume r),
     rj_Tag = sanitize (rj_Tag r)\<rparr>"

lemma dec_register_back:
  assumes "in_int64 (rj_PID r)" and "in_int64 (rj_PGID r)"
  shows "dec_register (reread (enc_register r)) register0 = Some (sane_register r)"
  using assms
  by (simp add: enc_register_def dec_register_def dec_simps register_names_def store_register_def
      register0_def sane_register_def)

definition sane_adopt :: "AdoptCheckpoint \<Rightarrow> AdoptCheckpoint" where
  "sane_adopt a = \<lparr>ac_CheckpointDir = sanitize (ac_CheckpointDir a), ac_HookResume = sanitize (ac_HookResume a),
     ac_HookCheckpoint = sanitize (ac_HookCheckpoint a), ac_Tag = sanitize (ac_Tag a)\<rparr>"

lemma dec_adopt_back: "dec_adopt (reread (enc_adopt a)) adopt0 = Some (sane_adopt a)"
  by (simp add: enc_adopt_def dec_adopt_def dec_simps adopt_names_def store_adopt_def adopt0_def sane_adopt_def)

definition sane_request :: "Request \<Rightarrow> Request" where
  "sane_request r = \<lparr>rq_Action = sanitize (rq_Action r), rq_Job = map_option sane_register (rq_Job r),
     rq_Adopt = map_option sane_adopt (rq_Adopt r), rq_JobID = sanitize (rq_JobID r),
     rq_RequestedBy = sanitize (rq_RequestedBy r), rq_IncludeHistory = rq_IncludeHistory r,
     rq_ExitCode = rq_ExitCode r, rq_ErrMsg = sanitize (rq_ErrMsg r)\<rparr>"

text \<open>The integers of a message are Go \<open>int\<close>s.\<close>

definition request_ints_ok :: "Request \<Rightarrow> bool" where
  "request_ints_ok r \<longleftrightarrow> in_int64 (rq_ExitCode r) \<and>
     (case rq_Job r of None \<Rightarrow> True | Some j \<Rightarrow> in_int64 (rj_PID j) \<and> in_int64 (rj_PGID j))"

lemma enc_objects [simp]: "reread (enc_register j) \<noteq> JNull" "reread (enc_adopt a) \<noteq> JNull"
  by (simp_all add: enc_register_def enc_adopt_def)

lemma in_int64_0 [simp]: "in_int64 0"
  by (simp add: in_int64_def int64_bounds_values)

lemma dec_request_back:
  assumes "request_ints_ok r"
  shows "dec_request (reread (enc_request r)) zero_request = Some (sane_request r)"
proof -
  have ptrs: "dec_ptr register0 dec_register (reread (enc_register j)) None = Some (Some (sane_register j))"
    if "rq_Job r = Some j" for j
    using assms that by (simp add: dec_ptr_def dec_register_back request_ints_ok_def)
  have ptra: "dec_ptr adopt0 dec_adopt (reread (enc_adopt a)) None = Some (Some (sane_adopt a))" for a
    by (simp add: dec_ptr_def dec_adopt_back)
  have code: "in_int64 (rq_ExitCode r)" using assms by (simp add: request_ints_ok_def)
  show ?thesis
    using ptrs ptra code
    by (cases "rq_Job r"; cases "rq_Adopt r")
      (simp_all add: enc_request_def dec_request_def dec_simps request_names_def store_request_def
        zero_request_def sane_request_def)
qed

section \<open>Responses\<close>

text \<open>A printed time needs no escapes, so it reads back exactly.\<close>

definition plain_char :: "char \<Rightarrow> bool" where
  "plain_char c \<longleftrightarrow> (let b = of_char c :: nat in 32 \<le> b \<and> b < 128 \<and> b \<notin> {34, 38, 60, 62, 92})"

lemma escaped_plain: "list_all plain_char s \<Longrightarrow> escaped s = s"
proof (induction s)
  case (Cons c cs)
  then have c: "decode_rune (c # cs) = (of_char c, 1)" "plain_char c"
    by (simp_all add: plain_char_def Let_def decode_rune_ascii)
  then have "runes (c # cs) = (of_char c, [c]) # runes cs" by (simp add: runes_nonempty)
  moreover have "json_escape (of_char c, [c]) = [c]"
    using c(2) by (simp add: plain_char_def Let_def json_escape_def ill_formed_def RuneError_def)
  ultimately show ?case using Cons by (simp add: escaped_def)
qed simp

lemma digit_plain: "digit_value c \<noteq> None \<Longrightarrow> plain_char c"
  by (auto simp: digit_value_def plain_char_def Let_def split: if_splits)

lemma FormatInt_plain_chars: "list_all plain_char (FormatInt n)"
  using digits_of_all_digits digit_plain
  by (auto simp: FormatInt_def all_digits_def list_all_iff plain_char_def Let_def)

lemma pad_int_plain: "list_all plain_char (pad_int k n)"
  using FormatInt_plain_chars [of n]
  by (auto simp: pad_int_def Let_def list_all_iff) (simp add: plain_char_def Let_def)

lemma fraction_plain: "list_all plain_char (fraction ns)"
  using pad_int_plain [of 9 ns]
  by (auto simp: fraction_def drop_trailing_zeros_def list_all_iff dest: set_dropWhileD)
    (simp add: plain_char_def Let_def)

lemma plain_layout: "plain_char (CHR ''-'')" "plain_char (CHR '':'')" "plain_char (CHR ''T'')" "plain_char (CHR ''Z'')"
  by (simp_all add: plain_char_def)

lemma rfc3339_plain:
  assumes "rfc3339_nano t = Some s" shows "list_all plain_char s"
proof -
  obtain y m d hr mi sec ns where "s = pad_int 4 y @ ''-'' @ pad_int 2 m @ ''-'' @ pad_int 2 d @ ''T'' @
      pad_int 2 hr @ '':'' @ pad_int 2 mi @ '':'' @ pad_int 2 sec @ fraction ns @ ''Z''"
    using assms unfolding rfc3339_nano_def Let_def split_beta by (metis option.distinct(1) option.inject)
  then show ?thesis by (simp add: pad_int_plain fraction_plain plain_layout)
qed

lemma dec_time_back:
  assumes "enc_time t = Some v" shows "dec_time lenient (reread v) x = Some t"
proof -
  obtain s where s: "rfc3339_nano t = Some s" "v = jstr s" using assms by (auto simp: enc_time_def)
  have "escaped s = s" by (rule escaped_plain [OF rfc3339_plain [OF s(1)]])
  then show ?thesis using rfc3339_round_trip [OF s(1)] by (simp add: s(2) dec_time_def UnmarshalTime_def)
qed

definition sane_status :: "Status \<Rightarrow> Status" where
  "sane_status s = status_of_text (sanitize (status_text s))"

definition sane_job :: "Job \<Rightarrow> Job" where
  "sane_job j = \<lparr>ID = sanitize (ID j), PID = PID j, PGID = PGID j, CheckpointDir = sanitize (CheckpointDir j),
     Command = map_option (map sanitize) (Command j), WorkDir = sanitize (WorkDir j),
     HookCheckpoint = sanitize (HookCheckpoint j), HookResume = sanitize (HookResume j),
     Status = sane_status (Status j), FailureReason = sanitize (FailureReason j), Owner = sanitize (Owner j),
     Tag = sanitize (Tag j), RegisteredAt = RegisteredAt j, UpdatedAt = UpdatedAt j\<rparr>"

lemma dec_status_back [simp]: "dec_status (JStr (sanitize (status_text s)) r) x = Some (sane_status s)"
  by (simp add: dec_status_def sane_status_def)

lemma dec_job_back:
  assumes "enc_job j = Some v" and "in_int64 (PID j)" and "in_int64 (PGID j)"
  shows "dec_job lenient (reread v) job0 = Some (sane_job j)" and "reread v \<noteq> JNull"
proof -
  obtain ra ua where t: "enc_time (RegisteredAt j) = Some ra" "enc_time (UpdatedAt j) = Some ua"
    using assms(1) by (auto simp: enc_job_def split: option.splits)
  show "dec_job lenient (reread v) job0 = Some (sane_job j)"
    using assms
    by (auto simp: enc_job_def t dec_job_def dec_simps job_names_def store_job_def job0_def sane_job_def
        dec_time_back [OF t(1)] dec_time_back [OF t(2)])
  show "reread v \<noteq> JNull" using assms(1) by (auto simp: enc_job_def t)
qed

definition sane_history :: "HistoryEntry \<Rightarrow> HistoryEntry" where
  "sane_history h = \<lparr>JobID = sanitize (JobID h), FromStatus = sane_status (FromStatus h),
     ToStatus = sane_status (ToStatus h), ChangedBy = sanitize (ChangedBy h), ChangedAt = ChangedAt h\<rparr>"

lemma dec_history_back:
  assumes "enc_history h = Some v"
  shows "dec_history lenient (reread v) history0 = Some (sane_history h)"
proof -
  obtain at where t: "enc_time (ChangedAt h) = Some at"
    using assms by (auto simp: enc_history_def)
  show ?thesis
    using assms
    by (auto simp: enc_history_def t dec_history_def dec_simps history_names_def store_history_def history0_def
        sane_history_def dec_time_back [OF t])
qed

lemma those_back:
  assumes "those (map f xs) = Some ys" and "\<And>x v. x \<in> set xs \<Longrightarrow> f x = Some v \<Longrightarrow> g (reread v) = Some (h x)"
  shows "those (map g (map reread ys)) = Some (map h xs)"
  using assms
proof (induction xs arbitrary: ys)
  case (Cons x xs)
  then obtain v vs where v: "f x = Some v" "those (map f xs) = Some vs" "ys = v # vs" by (auto split: option.splits)
  have "g (reread v) = Some (h x)" using Cons.prems(2) [of x v] v(1) by simp
  with Cons.IH [OF v(2)] Cons.prems(2) v(3) show ?case by simp
qed simp

lemma those_Nil: "those (map f xs) = Some ys \<Longrightarrow> ys = [] \<longleftrightarrow> xs = []"
  by (cases xs) (auto split: option.splits)

definition sane_response :: "Response \<Rightarrow> Response" where
  "sane_response r = \<lparr>rs_OK = rs_OK r, rs_Error = sanitize (rs_Error r), rs_JobID = sanitize (rs_JobID r),
     rs_Job = map_option sane_job (rs_Job r), rs_Jobs = map sane_job (rs_Jobs r),
     rs_History = map sane_history (rs_History r), rs_Message = sanitize (rs_Message r),
     rs_Failures = map sanitize (rs_Failures r)\<rparr>"

definition response_ints_ok :: "Response \<Rightarrow> bool" where
  "response_ints_ok r \<longleftrightarrow> list_all (\<lambda>j. in_int64 (PID j) \<and> in_int64 (PGID j))
     (rs_Jobs r @ (case rs_Job r of None \<Rightarrow> [] | Some j \<Rightarrow> [j]))"

lemma dec_strings_list [simp]: "dec_strings (JArr (map (reread \<circ> jstr) xs)) = Some (Some (map sanitize xs))"
  using dec_strings_back [of "Some xs"] by (simp add: enc_strings_def)

lemma dec_slice_Nil [simp]: "dec_slice dec (JArr []) = Some (Some [])" "dec_strings (JArr []) = Some (Some [])"
  by (simp_all add: dec_slice_def dec_strings_def)

lemma enc_response_Some:
  assumes "enc_response r = Some v"
  obtains job jobs hist where "job = Option.bind (rs_Job r) enc_job" and "job = None \<longleftrightarrow> rs_Job r = None"
    and "those (map enc_job (rs_Jobs r)) = Some jobs" and "those (map enc_history (rs_History r)) = Some hist"
    and "v = response_object r job jobs hist"
  using assms that by (cases "rs_Job r") (auto simp: enc_response_def split: option.splits)

lemma dec_response_back:
  assumes "enc_response r = Some v" and "response_ints_ok r"
  shows "dec_response lenient (reread v) response0 = Some (sane_response r)"
proof -
  obtain job jobs hist where job: "job = Option.bind (rs_Job r) enc_job" "job = None \<longleftrightarrow> rs_Job r = None"
    and jobs: "those (map enc_job (rs_Jobs r)) = Some jobs" and hist: "those (map enc_history (rs_History r)) = Some hist"
    and v: "v = response_object r job jobs hist"
    by (rule enc_response_Some [OF assms(1)])
  have ints: "in_int64 (PID j) \<and> in_int64 (PGID j)" if "j \<in> set (rs_Jobs r) \<or> rs_Job r = Some j" for j
    using assms(2) that by (auto simp: response_ints_ok_def list_all_iff)
  have "those (map (\<lambda>v. dec_job lenient v job0) (map reread jobs)) = Some (map sane_job (rs_Jobs r))"
    using jobs by (rule those_back) (use ints dec_job_back(1) in auto)
  then have js: "dec_slice (\<lambda>v. dec_job lenient v job0) (JArr (map reread jobs)) = Some (Some (map sane_job (rs_Jobs r)))"
    by (simp add: dec_slice_def)
  have "those (map (\<lambda>v. dec_history lenient v history0) (map reread hist)) = Some (map sane_history (rs_History r))"
    using hist by (rule those_back) (rule dec_history_back)
  then have hs: "dec_slice (\<lambda>v. dec_history lenient v history0) (JArr (map reread hist)) =
      Some (Some (map sane_history (rs_History r)))" by (simp add: dec_slice_def)
  have ptr: "dec_ptr job0 (dec_job lenient) (reread w) None = Some (Some (sane_job j))"
    if "rs_Job r = Some j" "enc_job j = Some w" for j w
    using dec_job_back [OF that(2)] ints that(1) by (simp add: dec_ptr_def)
  have empty: "jobs = [] \<Longrightarrow> rs_Jobs r = []" "hist = [] \<Longrightarrow> rs_History r = []"
    using those_Nil [OF jobs] those_Nil [OF hist] by simp_all
  note eval = v response_object_def dec_response_def dec_simps response_names_def store_response_def
    response0_def sane_response_def or_empty_def js hs
  show ?thesis
  proof (cases "rs_Job r")
    case None
    then show ?thesis using empty job by (simp add: eval)
  next
    case (Some j)
    then obtain w where "enc_job j = Some w" using job by (cases "enc_job j") auto
    then show ?thesis using empty ptr [OF Some] job(1) Some by (simp add: eval)
  qed
qed

section \<open>Shape\<close>

text \<open>Messages nest four deep at most, and their numbers are integers.\<close>

lemma depth_JObj: "depth (JObj ms) \<le> Suc d \<longleftrightarrow> (\<forall>(_, v) \<in> set ms. depth v \<le> d)"
  by (auto simp: fold_max_le)

lemma depth_JArr: "depth (JArr vs) \<le> Suc d \<longleftrightarrow> (\<forall>v \<in> set vs. depth v \<le> d)"
  by (auto simp: fold_max_le)

definition shaped :: "nat \<Rightarrow> json \<Rightarrow> bool" where
  "shaped d v \<longleftrightarrow> integral v \<and> depth v \<le> d"

lemma shaped_scalars [simp]: "shaped d (JStr s r)" "shaped d (JBool b)" "shaped d JNull" "shaped d (jint n)"
  by (auto simp: shaped_def)

lemma shaped_JObj: "shaped (Suc d) (JObj ms) \<longleftrightarrow> (\<forall>(_, v) \<in> set ms. shaped d v)"
  using depth_JObj [of ms d] by (auto simp: shaped_def list_all_iff)

lemma shaped_JArr: "shaped (Suc d) (JArr vs) \<longleftrightarrow> (\<forall>v \<in> set vs. shaped d v)"
  using depth_JArr [of vs d] by (auto simp: shaped_def list_all_iff)

lemma members_shaped:
  "(k, v) \<in> set (opt_str name s) \<Longrightarrow> shaped d v"
  "(k, v) \<in> set (unless_empty omit name w) \<Longrightarrow> shaped d w \<Longrightarrow> shaped d v"
  "(k, v) \<in> set (opt_ptr name enc p) \<Longrightarrow> (\<And>x. p = Some x \<Longrightarrow> shaped d (enc x)) \<Longrightarrow> shaped d v"
  by (auto simp: opt_str_def unless_empty_def opt_ptr_def split: if_splits option.splits)

lemma shaped_strings: "shaped (Suc d) (enc_strings xs)"
  by (auto simp: enc_strings_def shaped_JArr split: option.splits)

lemma shaped_time: "enc_time t = Some v \<Longrightarrow> shaped d v"
  by (auto simp: enc_time_def)

lemma shaped_register: "shaped (Suc (Suc d)) (enc_register r)"
  by (auto simp: enc_register_def shaped_JObj shaped_strings dest: members_shaped(1))

lemma shaped_adopt: "shaped (Suc d) (enc_adopt a)"
  by (auto simp: enc_adopt_def shaped_JObj dest: members_shaped(1))

lemma shaped_request: "shaped 3 (enc_request r)"
  using shaped_register [of 0] shaped_adopt [of 1]
  by (auto simp: enc_request_def numeral_eq_Suc shaped_JObj dest!: members_shaped(1)
      elim!: members_shaped(2,3))

lemma shaped_job: "enc_job j = Some v \<Longrightarrow> shaped (Suc (Suc d)) v"
  by (auto simp: enc_job_def shaped_JObj shaped_strings split: option.splits intro: shaped_time)

lemma shaped_history: "enc_history h = Some v \<Longrightarrow> shaped (Suc d) v"
  by (auto simp: enc_history_def shaped_JObj intro: shaped_time)

lemma those_shaped:
  "those (map f xs) = Some ys \<Longrightarrow> (\<And>x v. f x = Some v \<Longrightarrow> P v) \<Longrightarrow> y \<in> set ys \<Longrightarrow> P y"
  by (induction xs arbitrary: ys) (auto split: option.splits)

lemma shaped_response:
  assumes "enc_response r = Some v" shows "shaped 4 v"
proof -
  obtain job jobs hist where job: "job = Option.bind (rs_Job r) enc_job" "job = None \<longleftrightarrow> rs_Job r = None"
    and jobs: "those (map enc_job (rs_Jobs r)) = Some jobs" and hist: "those (map enc_history (rs_History r)) = Some hist"
    and v: "v = response_object r job jobs hist"
    by (rule enc_response_Some [OF assms])
  have "shaped 3 (JArr jobs)" "shaped 3 (JArr hist)"
    using those_shaped [OF jobs, of "shaped 2"] those_shaped [OF hist, of "shaped 2"] shaped_job [of _ _ 0]
      shaped_history [of _ _ 1] by (auto simp: numeral_eq_Suc shaped_JArr)
  moreover have "shaped 3 w" if "job = Some w" for w
    using that job shaped_job [of _ w 1] by (cases "rs_Job r") (auto simp: numeral_eq_Suc)
  moreover have "shaped 3 (JArr (map jstr (rs_Failures r)))" by (simp add: numeral_eq_Suc shaped_JArr)
  ultimately show ?thesis unfolding v response_object_def
    by (auto simp: numeral_eq_Suc shaped_JObj dest!: members_shaped(1) elim!: members_shaped(2,3))
qed

lemma stops_newline: "stops newline"
  by (simp add: stops_def newline_def is_digit_def digit_value_def)

lemma decode_shaped:
  assumes "shaped k v" and "k \<le> max_nesting"
  shows "decode_stream (print_json v @ newline) = Some (reread v)"
  using assms stops_newline by (intro decode_stream_print) (auto simp: shaped_def)

lemma decode_request: "request_ints_ok r \<Longrightarrow> read_request (write_request r) = Some (sane_request r)"
  using decode_shaped [OF shaped_request, of r] dec_request_back [of r]
  by (simp add: read_request_def write_request_def max_nesting_def)

lemma decode_response:
  assumes "write_response r = Some s" and "response_ints_ok r"
  shows "read_response lenient s = Some (sane_response r)"
proof -
  obtain v where v: "enc_response r = Some v" "s = print_json v @ newline"
    using assms(1) by (auto simp: write_response_def)
  show ?thesis
    using decode_shaped [OF shaped_response [OF v(1)]] dec_response_back [OF v(1) assms(2)]
    by (simp add: read_response_def v(2) max_nesting_def)
qed

section \<open>The properties\<close>

text \<open>
  Claim C30. A request the client writes to the socket is the request the daemon reads, whatever its
  strings contain, up to the replacement of ill-formed UTF-8.
\<close>

theorem request_round_trip:
  assumes "request_ints_ok r"
  shows "read_request (write_request r) = Some (sane_request r)"
  using assms by (rule decode_request)

theorem request_round_trip_witness:
  "read_request (write_request (zero_request\<lparr>rq_Action := ''complete'', rq_JobID := ''7'', rq_ExitCode := 3\<rparr>)) =
     Some (sane_request (zero_request\<lparr>rq_Action := ''complete'', rq_JobID := ''7'', rq_ExitCode := 3\<rparr>))"
  by (rule request_round_trip)
    (simp add: request_ints_ok_def zero_request_def in_int64_def int64_bounds_values)

text \<open>
  Claim C31. A response the daemon can write is the response the client reads: the answer, the jobs
  with their times to the nanosecond, the history and the failures, up to the replacement of
  ill-formed UTF-8, however the reader treats other spellings of a time.
\<close>

theorem response_round_trip:
  assumes "write_response r = Some s" and "response_ints_ok r"
  shows "read_response lenient s = Some (sane_response r)"
  using assms by (rule decode_response)

theorem response_round_trip_witness:
  "\<exists>s. write_response (resp_ok\<lparr>rs_JobID := ''7''\<rparr>) = Some s \<and>
     read_response (\<lambda>_. None) s = Some (sane_response (resp_ok\<lparr>rs_JobID := ''7''\<rparr>))"
proof -
  have ints: "response_ints_ok (resp_ok\<lparr>rs_JobID := ''7''\<rparr>)"
    by (simp add: response_ints_ok_def resp_ok_def response0_def)
  obtain s where s: "write_response (resp_ok\<lparr>rs_JobID := ''7''\<rparr>) = Some s"
    by (simp add: write_response_def enc_response_def resp_ok_def response0_def)
  from response_round_trip [OF s ints] s show ?thesis by blast
qed

end
