(* ===== verification/Ipc.thy ===== *)
theory Ipc
  imports MessagesProps DaemonProps
begin

text \<open>
  The two ends of the socket: the daemon's listener and connection handler
  (\<open>internal/daemon/daemon.go\<close>) and the client (\<open>internal/ipc/client.go\<close>).

  What the network and the file system answer is in \<open>net_env\<close>. The socket's file is a state
  of its own: its group, and its permission bits, both \<open>None\<close> as long as they are what
  \<open>net.Listen\<close> left. A connection that is cut while the client writes has delivered some
  prefix of the request. \<open>serve\<close> handles connections and signals one after the other; the daemon
  runs each in a goroutine, and theory \<open>Concurrent\<close> interleaves them.
\<close>

section \<open>The listener\<close>

record socket_file =
  sf_listening :: bool
  sf_gid :: "int option"
  sf_mode :: "32 word option"

record net_env =
  ne_mkdir :: "string \<Rightarrow> string option"
  ne_listen :: "string \<Rightarrow> string option"
  ne_lookup_group :: "string \<Rightarrow> string + string" \<comment> \<open>the error's text, or the group id as text\<close>
  ne_chown :: "string \<Rightarrow> int \<Rightarrow> string option"
  ne_chmod :: "string \<Rightarrow> 32 word \<Rightarrow> string option"
  ne_dial :: "call list \<Rightarrow> string \<Rightarrow> string option"
  ne_send :: "call list \<Rightarrow> string \<Rightarrow> (nat \<times> string) option" \<comment> \<open>bytes delivered, and the error's text\<close>
  ne_read_error :: "string option \<Rightarrow> string" \<comment> \<open>the decoder's text for an answer it cannot read\<close>
  ne_lenient :: "string \<Rightarrow> time option" \<comment> \<open>times that are not of the fixed RFC 3339 layout\<close>

text \<open>\<open>applySocketGroup\<close>.\<close>

definition applySocketGroup ::
  "unicode_tables \<Rightarrow> net_env \<Rightarrow> string \<Rightarrow> string \<Rightarrow> socket_file \<Rightarrow> string option \<times> socket_file" where
  "applySocketGroup u ne socketPath grp sf = (case ne_lookup_group ne grp of
     Inl t \<Rightarrow> (Some (''lookup group '' @ quote u grp @ '': '' @ t), sf)
   | Inr gid_text \<Rightarrow> (case Atoi gid_text of
        Inl err \<Rightarrow> (Some (''group '' @ quote u grp @ '' has non-numeric gid '' @ quote u gid_text @ '': '' @
          atoi_error_text u gid_text err), sf)
      | Inr gid \<Rightarrow> (case ne_chown ne socketPath gid of
           Some t \<Rightarrow> (Some (''chown '' @ socketPath @ '' to group '' @ quote u grp @ '': '' @ t), sf)
         | None \<Rightarrow> (let sf = sf\<lparr>sf_gid := Some gid\<rparr> in
             case ne_chmod ne socketPath 0x1B0 of
               Some t \<Rightarrow> (Some (''chmod '' @ socketPath @ '': '' @ t), sf)
             | None \<Rightarrow> (None, sf\<lparr>sf_mode := Some 0x1B0\<rparr>)))))"

text \<open>
  \<open>Run\<close> up to its accept loop: an error, or a socket that is listening. A stale socket is
  removed first, whatever comes of it, so \<open>none\<close> is what \<open>Listen\<close> starts from; the deferred
  \<open>Close\<close> takes the socket away on every error after \<open>Listen\<close>.
\<close>

definition listen_socket ::
  "Daemon \<Rightarrow> unicode_tables \<Rightarrow> net_env \<Rightarrow> string \<Rightarrow> string option \<times> socket_file" where
  "listen_socket d u ne socketPath =
     (let none = \<lparr>sf_listening = False, sf_gid = None, sf_mode = None\<rparr> in
      case ne_mkdir ne (Dir socketPath) of
        Some t \<Rightarrow> (Some (''create socket dir: '' @ t), none)
      | None \<Rightarrow> (case ne_listen ne socketPath of
           Some t \<Rightarrow> (Some (''listen on '' @ socketPath @ '': '' @ t), none)
         | None \<Rightarrow> (let sf = none\<lparr>sf_listening := True\<rparr> in
             if d_socketGroup d = [] then (None, sf)
             else (case applySocketGroup u ne socketPath (d_socketGroup d) sf of
                (Some t, sf) \<Rightarrow> (Some (''apply SocketGroup: '' @ t), none)
              | (None, sf) \<Rightarrow> (None, sf)))))"

section \<open>A connection\<close>

text \<open>The bytes the daemon answers with; \<open>None\<close> if it closes the connection without an answer.\<close>

definition handleConn :: "Daemon \<Rightarrow> env \<Rightarrow> string \<Rightarrow> world \<Rightarrow> string option \<times> world" where
  "handleConn d e bytes w = (case read_request bytes of
     None \<Rightarrow> (write_response (resp_error (json_error e bytes)), w)
   | Some req \<Rightarrow> (case dispatch d e req w of (resp, w) \<Rightarrow> (write_response resp, w)))"

text \<open>
  The accept loop, and the provider's goroutine beside it: what happens to a daemon, in order.
  \<open>AcceptError\<close> carries whether the context is done.
\<close>

datatype accept_event = Accepted string | AcceptError bool | Interrupted Signal

fun serve :: "Daemon \<Rightarrow> env \<Rightarrow> accept_event list \<Rightarrow> world \<Rightarrow> string option list \<times> world" where
  "serve d e [] w = ([], w)"
| "serve d e (Accepted bytes # evs) w = (case handleConn d e bytes w of
     (out, w) \<Rightarrow> (case serve d e evs w of (outs, w) \<Rightarrow> (out # outs, w)))"
| "serve d e (AcceptError cancelled # evs) w = (if cancelled then ([], w) else serve d e evs w)"
| "serve d e (Interrupted sig # evs) w = serve d e evs (handleInterruption d e sig w)"

section \<open>The client\<close>

text \<open>\<open>DefaultSocketPath\<close>: \<open>getenv\<close> is the environment variable, empty when unset.\<close>

definition DefaultSocketPath :: "(string \<Rightarrow> string) \<Rightarrow> string \<Rightarrow> string \<Rightarrow> string" where
  "DefaultSocketPath getenv goos tempDir =
     (if getenv ''SURVIVA_SOCKET'' \<noteq> [] then getenv ''SURVIVA_SOCKET''
      else if goos = ''windows'' then Join [tempDir, ''surviva.sock'']
      else ''/var/run/surviva/surviva.sock'')"

text \<open>The other end of the connection, as the client sees it.\<close>

type_synonym peer = "string \<Rightarrow> world \<Rightarrow> string option \<times> world"

definition client_call :: "net_env \<Rightarrow> string \<Rightarrow> peer \<Rightarrow> Request \<Rightarrow> world \<Rightarrow> (string + Response) \<times> world" where
  "client_call ne socketPath peer req w = (case ne_dial ne (calls w) socketPath of
     Some t \<Rightarrow> (Inl (''connect to daemon at '' @ socketPath @ '': '' @ t @ '' (is `surviva daemon` running?)''), w)
   | None \<Rightarrow> (let bytes = write_request req in
       case ne_send ne (calls w) bytes of
         Some (n, t) \<Rightarrow> (Inl (''send request: '' @ t), snd (peer (take n bytes) w))
       | None \<Rightarrow> (case peer bytes w of (answer, w) \<Rightarrow>
           (case Option.bind answer (read_response (ne_lenient ne)) of
              None \<Rightarrow> (Inl (''read response: '' @ ne_read_error ne answer), w)
            | Some resp \<Rightarrow> (if \<not> rs_OK resp then Inl (''daemon error: '' @ rs_Error resp) else Inr resp, w)))))"

definition map_right :: "('b \<Rightarrow> 'c) \<Rightarrow> 'a + 'b \<Rightarrow> 'a + 'c" where
  "map_right f r = (case r of Inl e \<Rightarrow> Inl e | Inr x \<Rightarrow> Inr (f x))"

definition Client_Ping :: "net_env \<Rightarrow> string \<Rightarrow> peer \<Rightarrow> world \<Rightarrow> (string + unit) \<times> world" where
  "Client_Ping ne path peer w =
     (case client_call ne path peer (zero_request\<lparr>rq_Action := ''ping''\<rparr>) w of (r, w) \<Rightarrow> (map_right (\<lambda>_. ()) r, w))"

definition Client_Register ::
  "net_env \<Rightarrow> string \<Rightarrow> peer \<Rightarrow> RegisterJob \<Rightarrow> string \<Rightarrow> world \<Rightarrow> (string + string) \<times> world" where
  "Client_Register ne path peer j requestedBy w =
     (case client_call ne path peer
        (zero_request\<lparr>rq_Action := ''register'', rq_Job := Some j, rq_RequestedBy := requestedBy\<rparr>) w of
        (r, w) \<Rightarrow> (map_right rs_JobID r, w))"

definition Client_Adopt ::
  "net_env \<Rightarrow> string \<Rightarrow> peer \<Rightarrow> AdoptCheckpoint \<Rightarrow> string \<Rightarrow> world \<Rightarrow> (string + string) \<times> world" where
  "Client_Adopt ne path peer a requestedBy w =
     (case client_call ne path peer
        (zero_request\<lparr>rq_Action := ''adopt'', rq_Adopt := Some a, rq_RequestedBy := requestedBy\<rparr>) w of
        (r, w) \<Rightarrow> (map_right rs_JobID r, w))"

definition Client_List :: "net_env \<Rightarrow> string \<Rightarrow> peer \<Rightarrow> world \<Rightarrow> (string + Job list) \<times> world" where
  "Client_List ne path peer w =
     (case client_call ne path peer (zero_request\<lparr>rq_Action := ''list''\<rparr>) w of (r, w) \<Rightarrow> (map_right rs_Jobs r, w))"

definition Client_Show ::
  "net_env \<Rightarrow> string \<Rightarrow> peer \<Rightarrow> string \<Rightarrow> bool \<Rightarrow> world \<Rightarrow> (string + Job \<times> HistoryEntry list) \<times> world" where
  "Client_Show ne path peer jobID includeHistory w =
     (case client_call ne path peer
        (zero_request\<lparr>rq_Action := ''show'', rq_JobID := jobID, rq_IncludeHistory := includeHistory\<rparr>) w of
        (Inl t, w) \<Rightarrow> (Inl t, w)
      | (Inr resp, w) \<Rightarrow> (case rs_Job resp of
           None \<Rightarrow> (Inl (''daemon returned no job for '' @ jobID), w)
         | Some j \<Rightarrow> (Inr (j, rs_History resp), w)))"

definition Client_Pause ::
  "net_env \<Rightarrow> string \<Rightarrow> peer \<Rightarrow> string \<Rightarrow> string \<Rightarrow> world \<Rightarrow> (string + string) \<times> world" where
  "Client_Pause ne path peer jobID requestedBy w =
     (case client_call ne path peer
        (zero_request\<lparr>rq_Action := ''pause'', rq_JobID := jobID, rq_RequestedBy := requestedBy\<rparr>) w of
        (r, w) \<Rightarrow> (map_right rs_Message r, w))"

definition Client_Resume ::
  "net_env \<Rightarrow> string \<Rightarrow> peer \<Rightarrow> string \<Rightarrow> string \<Rightarrow> world \<Rightarrow> (string + string) \<times> world" where
  "Client_Resume ne path peer jobID requestedBy w =
     (case client_call ne path peer
        (zero_request\<lparr>rq_Action := ''resume'', rq_JobID := jobID, rq_RequestedBy := requestedBy\<rparr>) w of
        (r, w) \<Rightarrow> (map_right rs_Message r, w))"

definition Client_Cancel ::
  "net_env \<Rightarrow> string \<Rightarrow> peer \<Rightarrow> string \<Rightarrow> string \<Rightarrow> world \<Rightarrow> (string + unit) \<times> world" where
  "Client_Cancel ne path peer jobID requestedBy w =
     (case client_call ne path peer
        (zero_request\<lparr>rq_Action := ''cancel'', rq_JobID := jobID, rq_RequestedBy := requestedBy\<rparr>) w of
        (r, w) \<Rightarrow> (map_right (\<lambda>_. ()) r, w))"

definition Client_Complete ::
  "net_env \<Rightarrow> string \<Rightarrow> peer \<Rightarrow> string \<Rightarrow> int \<Rightarrow> string \<Rightarrow> string \<Rightarrow> world \<Rightarrow> (string + unit) \<times> world" where
  "Client_Complete ne path peer jobID exitCode errMsg requestedBy w =
     (case client_call ne path peer
        (zero_request\<lparr>rq_Action := ''complete'', rq_JobID := jobID, rq_ExitCode := exitCode,
           rq_ErrMsg := errMsg, rq_RequestedBy := requestedBy\<rparr>) w of
        (r, w) \<Rightarrow> (map_right (\<lambda>_. ()) r, w))"

definition Client_Prune ::
  "net_env \<Rightarrow> string \<Rightarrow> peer \<Rightarrow> string \<Rightarrow> world \<Rightarrow> (string + string \<times> string list) \<times> world" where
  "Client_Prune ne path peer jobID w =
     (case client_call ne path peer (zero_request\<lparr>rq_Action := ''prune'', rq_JobID := jobID\<rparr>) w of
        (r, w) \<Rightarrow> (map_right (\<lambda>resp. (rs_Message resp, rs_Failures resp)) r, w))"

section \<open>Client against server\<close>

text \<open>
  What the client relies on: the peer reads the request as it was written, up to ill-formed
  UTF-8, and writes the answer to it.
\<close>

locale request_server =
  fixes peer :: peer and answer :: "Request \<Rightarrow> world \<Rightarrow> Response \<times> world"
  assumes answers: "request_ints_ok req \<Longrightarrow> peer (write_request req) w =
    (write_response (fst (answer (sane_request req) w)), snd (answer (sane_request req) w))"
begin

lemma call_answer:
  assumes "ne_dial ne (calls w) path = None" and "ne_send ne (calls w) (write_request req) = None"
    and "request_ints_ok req" and "answer (sane_request req) w = (rs, w')"
    and "write_response rs = Some s" and "response_ints_ok rs"
  shows "client_call ne path peer req w =
    (if rs_OK rs then Inr (sane_response rs) else Inl (''daemon error: '' @ sanitize (rs_Error rs)), w')"
proof -
  have "peer (write_request req) w = (Some s, w')" using answers [OF assms(3), of w] assms(4,5) by simp
  moreover have "read_response (ne_lenient ne) s = Some (sane_response rs)"
    using decode_response [OF assms(5,6)] .
  moreover have "rs_OK (sane_response rs) = rs_OK rs" "rs_Error (sane_response rs) = sanitize (rs_Error rs)"
    by (simp_all add: sane_response_def)
  ultimately show ?thesis using assms(1,2) by (simp add: client_call_def Let_def)
qed

lemma call_unanswered:
  assumes "ne_dial ne (calls w) path = None" and "ne_send ne (calls w) (write_request req) = None"
    and "request_ints_ok req" and "answer (sane_request req) w = (rs, w')" and "write_response rs = None"
  shows "client_call ne path peer req w = (Inl (''read response: '' @ ne_read_error ne None), w')"
  using answers [OF assms(3), of w] assms by (simp add: client_call_def Let_def)

end

interpretation daemon_server: request_server "handleConn d e" "dispatch d e" for d e
proof
  show "handleConn d e (write_request req) w =
      (write_response (fst (dispatch d e (sane_request req) w)), snd (dispatch d e (sane_request req) w))"
    if "request_ints_ok req" for req w
    using decode_request [OF that] by (simp add: handleConn_def case_prod_unfold)
qed

section \<open>The properties\<close>

text \<open>
  Claim C8. A client call over the socket is a call of the daemon's \<open>dispatch\<close>: when the connection
  holds and the answer can be written, the daemon ends in exactly the world \<open>dispatch\<close>
  leaves for the request, and the client gets exactly its answer, an error when it is
  not OK, both up to the replacement of ill-formed UTF-8.
\<close>

theorem client_call_is_dispatch:
  assumes "ne_dial ne (calls w) path = None" and "ne_send ne (calls w) (write_request req) = None"
    and "request_ints_ok req" and "dispatch d e (sane_request req) w = (rs, w')"
    and "write_response rs = Some s" and "response_ints_ok rs"
  shows "client_call ne path (handleConn d e) req w =
    (if rs_OK rs then Inr (sane_response rs) else Inl (''daemon error: '' @ sanitize (rs_Error rs)), w')"
  using assms by (rule daemon_server.call_answer)

definition quiet_net :: net_env where
  "quiet_net = \<lparr>ne_mkdir = (\<lambda>_. None), ne_listen = (\<lambda>_. None), ne_lookup_group = (\<lambda>_. Inr ''1000''),
     ne_chown = (\<lambda>_ _. None), ne_chmod = (\<lambda>_ _. None), ne_dial = (\<lambda>_ _. None), ne_send = (\<lambda>_ _. None),
     ne_read_error = (\<lambda>_. ''EOF''), ne_lenient = (\<lambda>_. None)\<rparr>"

lemma sane_ping: "sane_request (zero_request\<lparr>rq_Action := ''ping''\<rparr>) = zero_request\<lparr>rq_Action := ''ping''\<rparr>"
  by (simp add: sane_request_def zero_request_def sanitize_ascii ascii_def)

theorem client_call_is_dispatch_witness:
  "client_call quiet_net ''/s'' (handleConn sample_daemon quiet_env)
     (zero_request\<lparr>rq_Action := ''ping''\<rparr>) empty_world = (Inr (sane_response resp_ok), empty_world)"
proof -
  have ping: "dispatch sample_daemon quiet_env (sane_request (zero_request\<lparr>rq_Action := ''ping''\<rparr>)) empty_world =
      (resp_ok, empty_world)" by (simp add: sane_ping dispatch_def)
  obtain s where s: "write_response resp_ok = Some s"
    by (simp add: write_response_def enc_response_def resp_ok_def response0_def)
  have "client_call quiet_net ''/s'' (handleConn sample_daemon quiet_env)
      (zero_request\<lparr>rq_Action := ''ping''\<rparr>) empty_world =
    (if rs_OK resp_ok then Inr (sane_response resp_ok) else Inl (''daemon error: '' @ sanitize (rs_Error resp_ok)),
     empty_world)"
    by (rule client_call_is_dispatch [OF _ _ _ ping s])
      (simp_all add: quiet_net_def request_ints_ok_def response_ints_ok_def zero_request_def resp_ok_def response0_def)
  then show ?thesis by (simp add: resp_ok_def)
qed

text \<open>Serving one event after the other is a run of the daemon's steps.\<close>

lemma handleConn_step: "snd (handleConn d e bytes w) = w \<or> daemon_step d e w (snd (handleConn d e bytes w))"
  by (auto simp: handleConn_def case_prod_unfold intro: daemon_step.request split: option.splits)

lemma checkpoints_run: "(daemon_step d e)\<^sup>*\<^sup>* w (fold (\<lambda>j w. snd (checkpointJob d e j daemonActor w)) js w)"
proof (induction js arbitrary: w)
  case (Cons j js)
  from converse_rtranclp_into_rtranclp [of "daemon_step d e", OF daemon_step.auto_checkpoint Cons.IH]
  show ?case by simp
qed simp

lemma handleInterruption_run: "(daemon_step d e)\<^sup>*\<^sup>* w (handleInterruption d e sig w)"
proof -
  obtain js payload w1 where 1: "interruption_start d e sig w = ((js, payload), w1)" by (metis prod.exhaust)
  let ?w2 = "case payload of None \<Rightarrow> w1 | Some p \<Rightarrow> notify_deliver d e p w1"
  have "daemon_step d e w w1" using daemon_step.signal [of d e w sig] 1 by simp
  also have "(daemon_step d e)\<^sup>*\<^sup>* w1 ?w2" by (auto intro: daemon_step.delivery split: option.split)
  also have "(daemon_step d e)\<^sup>*\<^sup>* ?w2 (handleInterruption d e sig w)"
    using checkpoints_run by (simp add: handleInterruption_def 1)
  finally (converse_rtranclp_into_rtranclp rtranclp_trans) show ?thesis .
qed

lemma serve_run: "(daemon_step d e)\<^sup>*\<^sup>* w (snd (serve d e evs w))"
proof (induction d e evs w rule: serve.induct)
  case (2 d e bytes evs w)
  obtain out w1 where 1: "handleConn d e bytes w = (out, w1)" by fastforce
  then have "(daemon_step d e)\<^sup>*\<^sup>* w w1" using handleConn_step [of d e bytes w] by auto
  also have "(daemon_step d e)\<^sup>*\<^sup>* w1 (snd (serve d e evs w1))" using "2.IH" [OF 1 [symmetric]] by simp
  finally show ?case by (simp add: 1 case_prod_unfold)
next
  case (4 d e sig evs w)
  with handleInterruption_run [of d e w sig] show ?case by (simp add: rtranclp_trans)
qed auto

text \<open>
  With \<open>SocketGroup\<close> configured the daemon never serves on a socket with other permissions:
  it listens only if the group exists, its id is a number, and the socket has been given to
  that group with mode 0660; otherwise it fails with an error and does not listen.
\<close>

theorem socket_group_enforced:
  assumes "d_socketGroup d \<noteq> []" and "listen_socket d u ne path = (err, sf)"
  shows "(err \<noteq> None \<longrightarrow> \<not> sf_listening sf) \<and>
    (err = None \<longrightarrow> (\<exists>gid_text gid. ne_lookup_group ne (d_socketGroup d) = Inr gid_text \<and>
       Atoi gid_text = Inr gid \<and> sf = \<lparr>sf_listening = True, sf_gid = Some gid, sf_mode = Some 0x1B0\<rparr>))"
  using assms by (auto simp: listen_socket_def applySocketGroup_def Let_def split: option.splits sum.splits)

theorem socket_group_enforced_witness:
  "\<exists>sf. listen_socket (daemon_New 4 (sample_daemon_config\<lparr>cfg_SocketGroup := ''staff''\<rparr>)) ascii_tables quiet_net ''/s'' =
     (None, sf) \<and> sf_mode sf = Some 0x1B0"
proof -
  let ?d = "daemon_New 4 (sample_daemon_config\<lparr>cfg_SocketGroup := ''staff''\<rparr>)"
  have grp: "d_socketGroup ?d \<noteq> []" by (simp add: daemon_New_def)
  have "Atoi ''1000'' = Inr 1000" by (simp add: Atoi_def ParseInt_eval)
  then obtain sf where sf: "listen_socket ?d ascii_tables quiet_net ''/s'' = (None, sf)"
    by (simp add: listen_socket_def applySocketGroup_def Let_def quiet_net_def daemon_New_def)
  from socket_group_enforced [OF grp sf] sf show ?thesis by auto
qed

end
