(* ===== verification/Concurrent.thy ===== *)
theory Concurrent
  imports Fanout DaemonRegister Ipc
begin

text \<open>
  The daemon as it runs: every connection in a goroutine of its own (\<open>Run\<close>), the provider's
  signals in another, and every checkpoint of an interruption in one more
  (\<open>handleInterruption\<close>). A goroutine is a program of atomic actions on the world; the handlers
  of theory \<open>Daemon\<close> are written out again as such programs, one action for each access to state
  that goroutines share: the latch, each query and each transaction of the store, each audit
  entry, each command run, each directory removed. \<open>Store.UpdateStatus\<close> is two actions, the
  read that validates the transition and the transaction that writes it.

  A transaction is one action: with SQLite the store opens a single connection, which a
  transaction holds to its end; with MySQL the row stays locked from the update to the commit.

  Run without interruption, each program is the function of theory \<open>Daemon\<close> it stands for
  (\<open>dispatch_p_run\<close>). The pool of goroutines takes any interleaving of their actions; an action
  may also never be taken, as when a hook does not return.
\<close>

section \<open>Programs of atomic actions\<close>

datatype 'a prog = Ret 'a | Step "world \<Rightarrow> world" "world \<Rightarrow> 'a prog"

primrec bindp :: "'a prog \<Rightarrow> ('a \<Rightarrow> 'b prog) \<Rightarrow> 'b prog" where
  "bindp (Ret x) g = g x"
| "bindp (Step u c) g = Step u (\<lambda>w. bindp (c w) g)"

definition act :: "(world \<Rightarrow> 'a \<times> world) \<Rightarrow> 'a prog" where
  "act f = Step (\<lambda>w. snd (f w)) (\<lambda>w. Ret (fst (f w)))"

primrec run :: "'a prog \<Rightarrow> world \<Rightarrow> 'a \<times> world" where
  "run (Ret x) = (\<lambda>w. (x, w))"
| "run (Step u c) = (\<lambda>w. run (c w) (u w))"

lemma run_act [simp]: "run (act f) w = f w"
  by (simp add: act_def)

lemma run_bindp [simp]: "run (bindp p g) w = (case run p w of (x, w) \<Rightarrow> run (g x) w)"
  by (induction p arbitrary: w) simp_all

lemma bindp_act: "bindp (act f) g = Step (\<lambda>w. snd (f w)) (\<lambda>w. g (fst (f w)))"
  by (simp add: act_def)

section \<open>The store's updates\<close>

definition UpdateStatus_p :: "env \<Rightarrow> string \<Rightarrow> Status \<Rightarrow> string \<Rightarrow> string \<Rightarrow> store_error option prog" where
  "UpdateStatus_p e jid to_st failureReason changedBy =
     bindp (act (update_read e jid to_st)) (\<lambda>r. case r of
       Inl err \<Rightarrow> Ret (Some err)
     | Inr (n, a) \<Rightarrow> act (update_write e jid n a to_st failureReason changedBy))"

definition update_pid_write ::
  "env \<Rightarrow> string \<Rightarrow> int \<Rightarrow> Status \<Rightarrow> int \<Rightarrow> int \<Rightarrow> string \<Rightarrow> world \<Rightarrow> store_error option \<times> world" where
  "update_pid_write e jid n from_st pid pgid changedBy w =
     update_tx e jid n SqlUpdatePid (set_pid pid pgid) from_st StatusRunning changedBy w"

definition UpdatePID_p :: "env \<Rightarrow> string \<Rightarrow> int \<Rightarrow> int \<Rightarrow> string \<Rightarrow> store_error option prog" where
  "UpdatePID_p e jid pid pgid changedBy =
     bindp (act (update_read e jid StatusRunning)) (\<lambda>r. case r of
       Inl err \<Rightarrow> Ret (Some err)
     | Inr (n, a) \<Rightarrow> act (update_pid_write e jid n a pid pgid changedBy))"

lemma UpdateStatus_p_run [simp]: "run (UpdateStatus_p e jid b why by_whom) w = Store_UpdateStatus e jid b why by_whom w"
  by (auto simp: UpdateStatus_p_def UpdateStatus_halves split: prod.splits sum.splits)

lemma UpdatePID_p_run [simp]: "run (UpdatePID_p e jid pid pgid by_whom) w = Store_UpdatePID e jid pid pgid by_whom w"
  by (auto simp: UpdatePID_p_def update_pid_write_def Store_UpdatePID_def update_read_def split: store_splits)

section \<open>The handlers\<close>

definition log_p :: "Daemon \<Rightarrow> env \<Rightarrow> string \<Rightarrow> string \<Rightarrow> string \<Rightarrow> string \<Rightarrow> unit prog" where
  "log_p d e action jobID outcome detail = act (\<lambda>w. ((), logDaemon d e action jobID outcome detail w))"

definition latched_p :: "bool prog" where
  "latched_p = act (\<lambda>w. (interrupted w, w))"

lemma log_p_run [simp]: "run (log_p d e a j out det) w = ((), logDaemon d e a j out det w)"
  by (simp add: log_p_def)

lemma latched_p_run [simp]: "run latched_p w = (interrupted w, w)"
  by (simp add: latched_p_def)

definition handleRegister_p :: "Daemon \<Rightarrow> env \<Rightarrow> Request \<Rightarrow> Response prog" where
  "handleRegister_p d e req = (case rq_Job req of
     None \<Rightarrow> Ret (resp_error ''missing job payload'')
   | Some r \<Rightarrow> bindp latched_p (\<lambda>latched.
       if latched then Ret (resp_error refusing_new)
       else bindp (act (validateHookPath e ''hook-checkpoint'' (rj_HookCheckpoint r))) (\<lambda>v. case v of
          Some t \<Rightarrow> Ret (resp_error t)
        | None \<Rightarrow> bindp (act (validateHookPath e ''hook-resume'' (rj_HookResume r))) (\<lambda>v. case v of
             Some t \<Rightarrow> Ret (resp_error t)
           | None \<Rightarrow> bindp (act (now_utc e)) (\<lambda>now.
               bindp (act (Store_Insert e (registered_job req r now))) (\<lambda>i. case i of
                  Inl err \<Rightarrow> Ret (resp_error (store_error_text (unicode e) err))
                | Inr jid \<Rightarrow>
                    if rj_CheckpointDir r = [] then
                      bindp (act (Store_UpdateCheckpointDir e jid (Join [d_checkpointBaseDir d, jid])))
                        (\<lambda>_. Ret (resp_ok\<lparr>rs_JobID := jid\<rparr>))
                    else Ret (resp_ok\<lparr>rs_JobID := jid\<rparr>)))))))"

definition handleAdopt_p :: "Daemon \<Rightarrow> env \<Rightarrow> Request \<Rightarrow> Response prog" where
  "handleAdopt_p d e req = (case rq_Adopt req of
     None \<Rightarrow> Ret (resp_error ''missing adopt payload'')
   | Some a \<Rightarrow> bindp latched_p (\<lambda>latched.
       if latched then Ret (resp_error refusing_new)
       else if ac_CheckpointDir a = [] then Ret (resp_error ''checkpoint-dir is required for adopt'')
       else bindp (act (validateCheckpointDir e (ac_CheckpointDir a) (ac_HookResume a))) (\<lambda>v. case v of
          Some t \<Rightarrow> Ret (resp_error t)
        | None \<Rightarrow> bindp (act (validateHookPath e ''hook-checkpoint'' (ac_HookCheckpoint a))) (\<lambda>v. case v of
             Some t \<Rightarrow> Ret (resp_error t)
           | None \<Rightarrow> bindp (act (validateHookPath e ''hook-resume'' (ac_HookResume a))) (\<lambda>v. case v of
                Some t \<Rightarrow> Ret (resp_error t)
              | None \<Rightarrow> bindp (act (Store_List e)) (\<lambda>l. case l of
                   Inl err \<Rightarrow> Ret (resp_error (store_error_text (unicode e) err))
                 | Inr jobs \<Rightarrow>
                     (case find (\<lambda>ej. CheckpointDir ej = ac_CheckpointDir a) jobs of
                        Some ej \<Rightarrow> Ret (resp_error (already_tracked (unicode e) (ac_CheckpointDir a) ej))
                      | None \<Rightarrow> bindp (act (now_utc e)) (\<lambda>now.
                          bindp (act (Store_Insert e (adopted_job req a now))) (\<lambda>i. case i of
                             Inl err \<Rightarrow> Ret (resp_error (store_error_text (unicode e) err))
                           | Inr jid \<Rightarrow> Ret (resp_ok\<lparr>rs_JobID := jid\<rparr>))))))))))"

definition handleList_p :: "env \<Rightarrow> Response prog" where
  "handleList_p e = bindp (act (Store_List e)) (\<lambda>l. case l of
     Inl err \<Rightarrow> Ret (resp_error (store_error_text (unicode e) err))
   | Inr jobs \<Rightarrow> Ret (resp_ok\<lparr>rs_Jobs := jobs\<rparr>))"

definition handleShow_p :: "env \<Rightarrow> Request \<Rightarrow> Response prog" where
  "handleShow_p e req =
     (if rq_JobID req = [] then Ret (resp_error ''missing job_id'')
      else bindp (act (Store_Get e (rq_JobID req))) (\<lambda>g. case g of
         Inl _ \<Rightarrow> Ret (resp_error (no_such_job (rq_JobID req)))
       | Inr j \<Rightarrow>
           if rq_IncludeHistory req then
             bindp (act (Store_History e (rq_JobID req))) (\<lambda>h. case h of
                Inl err \<Rightarrow> Ret (resp_error (store_error_text (unicode e) err))
              | Inr hs \<Rightarrow> Ret (resp_ok\<lparr>rs_Job := Some j, rs_History := hs\<rparr>))
           else Ret (resp_ok\<lparr>rs_Job := Some j\<rparr>)))"

definition checkpointJob_p :: "Daemon \<Rightarrow> env \<Rightarrow> Job \<Rightarrow> string \<Rightarrow> string option prog" where
  "checkpointJob_p d e j requestedBy =
     bindp (UpdateStatus_p e (ID j) StatusCheckpointInProgress [] requestedBy) (\<lambda>_.
     bindp (log_p d e ''checkpoint_started'' (ID j) ''ok'' []) (\<lambda>_.
     bindp (act (d_checkpointFunc d e (CheckpointDir j) j)) (\<lambda>res. case res of
        Some t \<Rightarrow>
          bindp (UpdateStatus_p e (ID j) StatusCheckpointCreationFailed t requestedBy) (\<lambda>_.
          bindp (log_p d e ''checkpoint_failed'' (ID j) ''error'' t) (\<lambda>_. Ret (Some t)))
      | None \<Rightarrow>
          bindp (UpdateStatus_p e (ID j) StatusCheckpointCreated [] requestedBy) (\<lambda>_.
          bindp (log_p d e ''checkpoint_succeeded'' (ID j) ''ok'' []) (\<lambda>_. Ret None)))))"

definition resumeJob_p :: "Daemon \<Rightarrow> env \<Rightarrow> Job \<Rightarrow> string \<Rightarrow> string option prog" where
  "resumeJob_p d e j requestedBy =
     bindp (UpdateStatus_p e (ID j) StatusRestorePending [] requestedBy) (\<lambda>_.
     bindp (log_p d e ''restore_started'' (ID j) ''ok'' []) (\<lambda>_.
     bindp (act (d_resumeFunc d e (CheckpointDir j) (HookResume j) (ID j))) (\<lambda>res. case res of
        Inl t \<Rightarrow>
          bindp (UpdateStatus_p e (ID j) StatusRestoreFailed t requestedBy) (\<lambda>_.
          bindp (log_p d e ''restore_failed'' (ID j) ''error'' t) (\<lambda>_. Ret (Some t)))
      | Inr pid \<Rightarrow>
          bindp (UpdatePID_p e (ID j) pid pid requestedBy) (\<lambda>_.
          bindp (log_p d e ''restore_succeeded'' (ID j) ''ok'' (''pid='' @ FormatInt pid)) (\<lambda>_. Ret None)))))"

definition handlePause_p :: "Daemon \<Rightarrow> env \<Rightarrow> Request \<Rightarrow> Response prog" where
  "handlePause_p d e req =
     (if rq_JobID req = [] then Ret (resp_error ''missing job_id'')
      else bindp latched_p (\<lambda>latched.
        if latched then
          Ret (resp_error ''daemon has already received an interruption signal; automatic checkpointing is in progress, refusing manual pause'')
        else bindp (act (Store_Get e (rq_JobID req))) (\<lambda>g. case g of
           Inl _ \<Rightarrow> Ret (resp_error (no_such_job (rq_JobID req)))
         | Inr j \<Rightarrow>
             if Status j \<noteq> StatusRunning then
               Ret (resp_error (''refusing to pause job '' @ rq_JobID req @ '': status is '' @
                  status_text (Status j) @ '', not '' @ status_text StatusRunning))
             else bindp (checkpointJob_p d e j (rq_RequestedBy req)) (\<lambda>r. case r of
                Some t \<Rightarrow> Ret (resp_error (''pause job '' @ rq_JobID req @ '': '' @ t))
              | None \<Rightarrow> Ret (resp_ok\<lparr>rs_JobID := rq_JobID req, rs_Message := ''checkpoint created''\<rparr>)))))"

definition handleResume_p :: "Daemon \<Rightarrow> env \<Rightarrow> Request \<Rightarrow> Response prog" where
  "handleResume_p d e req =
     (if rq_JobID req = [] then Ret (resp_error ''missing job_id'')
      else bindp (act (Store_Get e (rq_JobID req))) (\<lambda>g. case g of
         Inl _ \<Rightarrow> Ret (resp_error (no_such_job (rq_JobID req)))
       | Inr j \<Rightarrow>
           if Status j \<noteq> StatusCheckpointCreated \<and> Status j \<noteq> StatusRestoreFailed then
             Ret (resp_error (''refusing to resume job '' @ rq_JobID req @ '': status is '' @
                status_text (Status j) @ '', not '' @ status_text StatusCheckpointCreated @ '' or '' @
                status_text StatusRestoreFailed))
           else bindp (resumeJob_p d e j (rq_RequestedBy req)) (\<lambda>r. case r of
              Some t \<Rightarrow> Ret (resp_error (''resume job '' @ rq_JobID req @ '': '' @ t))
            | None \<Rightarrow> bindp (act (Store_Get e (rq_JobID req))) (\<lambda>g. case g of
                 Inl err \<Rightarrow> Ret (resp_error (store_error_text (unicode e) err))
               | Inr updated \<Rightarrow>
                   Ret (resp_ok\<lparr>rs_JobID := rq_JobID req,
                      rs_Message := ''resumed as pid '' @ FormatInt (PID updated)\<rparr>)))))"

text \<open>The answer to an update's result, shared by the two handlers that end a job.\<close>

definition update_answer :: "env \<Rightarrow> string \<Rightarrow> store_error option \<Rightarrow> Response prog" where
  "update_answer e jid u = (case u of
     Some err \<Rightarrow> Ret (resp_error (store_error_text (unicode e) err))
   | None \<Rightarrow> Ret (resp_ok\<lparr>rs_JobID := jid\<rparr>))"

definition handleCancel_p :: "env \<Rightarrow> Request \<Rightarrow> Response prog" where
  "handleCancel_p e req =
     (if rq_JobID req = [] then Ret (resp_error ''missing job_id'')
      else bindp (act (Store_Get e (rq_JobID req))) (\<lambda>g. case g of
         Inl _ \<Rightarrow> Ret (resp_error (no_such_job (rq_JobID req)))
       | Inr j \<Rightarrow>
           bindp (if Status j = StatusRunning then act (KillGroup e (PGID j) SIGTERM) else Ret None) (\<lambda>k. case k of
              Some t \<Rightarrow> Ret (resp_error (''signal job '' @ rq_JobID req @ '': '' @ t))
            | None \<Rightarrow> bindp (UpdateStatus_p e (rq_JobID req) StatusCanceled [] (rq_RequestedBy req))
                (update_answer e (rq_JobID req)))))"

definition handleComplete_p :: "env \<Rightarrow> Request \<Rightarrow> Response prog" where
  "handleComplete_p e req =
     (if rq_JobID req = [] then Ret (resp_error ''missing job_id'')
      else bindp (act (Store_Get e (rq_JobID req))) (\<lambda>g. case g of
         Inl _ \<Rightarrow> Ret (resp_error (no_such_job (rq_JobID req)))
       | Inr j \<Rightarrow>
           if Status j \<noteq> StatusRunning then
             Ret (resp_ok\<lparr>rs_JobID := rq_JobID req,
                rs_Message := ''job already past RUNNING, ignoring stale completion report''\<rparr>)
           else if rq_ExitCode req = 0 then
             bindp (UpdateStatus_p e (rq_JobID req) StatusCompleted [] (rq_RequestedBy req))
               (update_answer e (rq_JobID req))
           else (let reason = (if rq_ErrMsg req = [] then ''exited with code '' @ FormatInt (rq_ExitCode req)
                               else rq_ErrMsg req) in
             bindp (UpdateStatus_p e (rq_JobID req) StatusFailed reason (rq_RequestedBy req))
               (update_answer e (rq_JobID req)))))"

fun prune_jobs_p :: "env \<Rightarrow> Job list \<Rightarrow> (nat \<times> string list) prog" where
  "prune_jobs_p e [] = Ret (0, [])"
| "prune_jobs_p e (j # js) = bindp (act (os_RemoveAll e (CheckpointDir j))) (\<lambda>r. case r of
     Some t \<Rightarrow> bindp (prune_jobs_p e js) (\<lambda>(n, fs). Ret (n, (ID j @ '': '' @ t) # fs))
   | None \<Rightarrow> bindp (prune_jobs_p e js) (\<lambda>(n, fs). Ret (Suc n, fs)))"

definition handlePrune_p :: "env \<Rightarrow> Request \<Rightarrow> Response prog" where
  "handlePrune_p e req =
     (if rq_JobID req \<noteq> [] then
        bindp (act (Store_Get e (rq_JobID req))) (\<lambda>g. case g of
           Inl _ \<Rightarrow> Ret (resp_error (no_such_job (rq_JobID req)))
         | Inr j \<Rightarrow>
             if \<not> IsTerminal (Status j) then
               Ret (resp_error (''job '' @ rq_JobID req @ '' is not terminal (status '' @
                  status_text (Status j) @ ''), refusing to prune''))
             else bindp (act (os_RemoveAll e (CheckpointDir j))) (\<lambda>r. case r of
                Some t \<Rightarrow> Ret (resp_error (''prune job '' @ rq_JobID req @ '': '' @ t))
              | None \<Rightarrow> Ret (resp_ok\<lparr>rs_JobID := rq_JobID req, rs_Message := ''pruned''\<rparr>)))
      else bindp (act (Store_ListTerminal e)) (\<lambda>l. case l of
         Inl err \<Rightarrow> Ret (resp_error (store_error_text (unicode e) err))
       | Inr jobs \<Rightarrow> bindp (prune_jobs_p e jobs) (\<lambda>(pruned, failures).
            Ret (resp_ok\<lparr>rs_Message := ''pruned '' @ FormatInt (int pruned) @ '' job(s)'',
                 rs_Failures := failures\<rparr>))))"

definition dispatch_p :: "Daemon \<Rightarrow> env \<Rightarrow> Request \<Rightarrow> Response prog" where
  "dispatch_p d e req =
     (if rq_Action req = ''ping'' then Ret resp_ok
      else if rq_Action req = ''register'' then handleRegister_p d e req
      else if rq_Action req = ''list'' then handleList_p e
      else if rq_Action req = ''show'' then handleShow_p e req
      else if rq_Action req = ''pause'' then handlePause_p d e req
      else if rq_Action req = ''resume'' then handleResume_p d e req
      else if rq_Action req = ''cancel'' then handleCancel_p e req
      else if rq_Action req = ''complete'' then handleComplete_p e req
      else if rq_Action req = ''prune'' then handlePrune_p e req
      else if rq_Action req = ''adopt'' then handleAdopt_p d e req
      else Ret (resp_error (''unknown action '' @ quote (unicode e) (rq_Action req))))"

section \<open>Run alone, a program is the function it stands for\<close>

lemma checkpointJob_p_run [simp]: "run (checkpointJob_p d e j by_whom) w = checkpointJob d e j by_whom w"
  by (simp add: checkpointJob_p_def checkpointJob_def Let_def case_prod_unfold split: option.splits)

lemma resumeJob_p_run [simp]: "run (resumeJob_p d e j by_whom) w = resumeJob d e j by_whom w"
  by (simp add: resumeJob_p_def resumeJob_def Let_def case_prod_unfold split: sum.splits)

lemma prune_jobs_p_run: "run (prune_jobs_p e js) w = (case prune_jobs e js w of (n, fs, w) \<Rightarrow> ((n, fs), w))"
  by (induction js arbitrary: w) (simp_all add: case_prod_unfold split: option.splits)

lemma handleRegister_p_run: "run (handleRegister_p d e req) w = handleRegister d e req w"
  by (simp add: handleRegister_p_def handleRegister_def case_prod_unfold split: option.splits sum.splits)

lemma handleAdopt_p_run: "run (handleAdopt_p d e req) w = handleAdopt d e req w"
  by (simp add: handleAdopt_p_def handleAdopt_def case_prod_unfold split: option.splits sum.splits)

lemma handleList_p_run: "run (handleList_p e) w = handleList e w"
  by (simp add: handleList_p_def handleList_def case_prod_unfold split: sum.splits)

lemma handleShow_p_run: "run (handleShow_p e req) w = handleShow e req w"
  by (simp add: handleShow_p_def handleShow_def case_prod_unfold split: sum.splits)

lemma handlePause_p_run: "run (handlePause_p d e req) w = handlePause d e req w"
  by (simp add: handlePause_p_def handlePause_def case_prod_unfold split: option.splits sum.splits)

lemma handleResume_p_run: "run (handleResume_p d e req) w = handleResume d e req w"
  by (simp add: handleResume_p_def handleResume_def case_prod_unfold split: option.splits sum.splits)

lemma handleCancel_p_run: "run (handleCancel_p e req) w = handleCancel e req w"
  by (simp add: handleCancel_p_def handleCancel_def update_answer_def case_prod_unfold split: option.splits sum.splits)

lemma handleComplete_p_run: "run (handleComplete_p e req) w = handleComplete e req w"
  by (simp add: handleComplete_p_def handleComplete_def update_answer_def Let_def case_prod_unfold
      split: option.splits sum.splits)

lemma handlePrune_p_run: "run (handlePrune_p e req) w = handlePrune e req w"
  by (simp add: handlePrune_p_def handlePrune_def prune_jobs_p_run case_prod_unfold split: option.splits sum.splits)

lemma dispatch_p_run: "run (dispatch_p d e req) w = dispatch d e req w"
  by (simp add: dispatch_p_def dispatch_def handleRegister_p_run handleAdopt_p_run handleList_p_run handleShow_p_run
      handlePause_p_run handleResume_p_run handleCancel_p_run handleComplete_p_run handlePrune_p_run)

section \<open>The goroutines\<close>

text \<open>
  How a goroutine ends: with the bytes it answered, with the jobs whose checkpoints it starts and
  the notification it sends, or without a result anyone uses.
\<close>

datatype thread_end = Answered "string option" | Fanned "Job list" "notify_payload option" | Ended

datatype thread_label = Conn string | Provider Signal | Checkpointing Job | Notifying notify_payload

definition handleConn_p :: "Daemon \<Rightarrow> env \<Rightarrow> string \<Rightarrow> thread_end prog" where
  "handleConn_p d e bytes = (case read_request bytes of
     None \<Rightarrow> Ret (Answered (write_response (resp_error (json_error e bytes))))
   | Some req \<Rightarrow> bindp (dispatch_p d e req) (\<lambda>resp. Ret (Answered (write_response resp))))"

definition set_latch_p :: "unit prog" where
  "set_latch_p = act (\<lambda>w. ((), w\<lparr>interrupted := True\<rparr>))"

definition handleInterruption_p :: "Daemon \<Rightarrow> env \<Rightarrow> Signal \<Rightarrow> thread_end prog" where
  "handleInterruption_p d e sig =
     bindp set_latch_p (\<lambda>_.
     bindp (log_p d e ''interruption_detected'' [] ''ok'' (sig_Trigger sig)) (\<lambda>_.
     bindp (act (Store_List e)) (\<lambda>l. case l of
       Inl _ \<Rightarrow> Ret Ended
     | Inr jobs \<Rightarrow> (let runnable = filter (\<lambda>j. Status j = StatusRunning) jobs in
         bindp (act (notify_build d e sig runnable)) (\<lambda>payload. Ret (Fanned runnable payload))))))"

definition checkpoint_thread :: "Daemon \<Rightarrow> env \<Rightarrow> Job \<Rightarrow> thread_end prog" where
  "checkpoint_thread d e j = bindp (checkpointJob_p d e j daemonActor) (\<lambda>_. Ret Ended)"

definition notify_thread :: "Daemon \<Rightarrow> env \<Rightarrow> notify_payload \<Rightarrow> thread_end prog" where
  "notify_thread d e payload =
     bindp (log_p d e ''notify_started'' [] ''ok'' (np_Trigger payload)) (\<lambda>_.
     bindp (act (\<lambda>w. (notify_target e (calls w) payload, record_call (NotifyCall payload) w))) (\<lambda>res.
     bindp (case res of
         Some t \<Rightarrow> log_p d e ''notify_failed'' [] ''error'' t
       | None \<Rightarrow> log_p d e ''notify_succeeded'' [] ''ok'' []) (\<lambda>_. Ret Ended)))"

fun goroutine :: "Daemon \<Rightarrow> env \<Rightarrow> thread_label \<Rightarrow> thread_end prog" where
  "goroutine d e (Conn bytes) = handleConn_p d e bytes"
| "goroutine d e (Provider sig) = handleInterruption_p d e sig"
| "goroutine d e (Checkpointing j) = checkpoint_thread d e j"
| "goroutine d e (Notifying payload) = notify_thread d e payload"

definition start_thread :: "Daemon \<Rightarrow> env \<Rightarrow> thread_label \<Rightarrow> thread_label \<times> thread_end prog" where
  "start_thread d e l = (l, goroutine d e l)"

text \<open>What the fan-out starts: one goroutine per job, and the delivery of the notification.\<close>

definition fanned :: "Job list \<Rightarrow> notify_payload option \<Rightarrow> thread_label list" where
  "fanned js payload = (case payload of None \<Rightarrow> [] | Some p \<Rightarrow> [Notifying p]) @ map Checkpointing js"

record pool =
  pl_world :: world
  pl_threads :: "(thread_label \<times> thread_end prog) list"

text \<open>
  A step of the daemon: a connection is accepted, the provider delivers a signal, a goroutine
  takes its next action, or the goroutine of a signal starts its fan-out. The checkpoints of a
  fan-out start all at once and a second signal may come before the first is done: the
  semaphore and the wait only take schedules away (theory \<open>Fanout\<close> has them).
\<close>

inductive pool_step :: "Daemon \<Rightarrow> env \<Rightarrow> pool \<Rightarrow> pool \<Rightarrow> bool" for d e where
  accept: "pool_step d e P (P\<lparr>pl_threads := pl_threads P @ [start_thread d e (Conn bytes)]\<rparr>)"
| signal: "pool_step d e P (P\<lparr>pl_threads := pl_threads P @ [start_thread d e (Provider sig)]\<rparr>)"
| action: "i < length (pl_threads P) \<Longrightarrow> pl_threads P ! i = (l, Step u c) \<Longrightarrow>
    pool_step d e P \<lparr>pl_world = u (pl_world P), pl_threads = (pl_threads P)[i := (l, c (pl_world P))]\<rparr>"
| fan: "i < length (pl_threads P) \<Longrightarrow> pl_threads P ! i = (l, Ret (Fanned js payload)) \<Longrightarrow>
    pool_step d e P (P\<lparr>pl_threads := (pl_threads P)[i := (l, Ret Ended)] @ map (start_thread d e) (fanned js payload)\<rparr>)"

text \<open>A daemon that has just started.\<close>

definition idle :: "world \<Rightarrow> pool" where
  "idle w = \<lparr>pl_world = w, pl_threads = []\<rparr>"

lemma idle_simps [simp]: "pl_world (idle w) = w" "pl_threads (idle w) = []"
  by (simp_all add: idle_def)

lemma handleConn_p_run: "run (handleConn_p d e bytes) w =
    (Answered (fst (handleConn d e bytes w)), snd (handleConn d e bytes w))"
  by (simp add: handleConn_p_def handleConn_def dispatch_p_run case_prod_unfold split: option.splits)

text \<open>The pool can run one goroutine to its end before any other moves.\<close>

lemma pool_runs_alone:
  assumes "i < length ts" and "ts ! i = (l, p)"
  shows "(pool_step d e)\<^sup>*\<^sup>* \<lparr>pl_world = w, pl_threads = ts\<rparr>
    \<lparr>pl_world = snd (run p w), pl_threads = ts[i := (l, Ret (fst (run p w)))]\<rparr>"
  using assms
proof (induction p arbitrary: w ts)
  case (Ret x)
  then have "ts[i := (l, Ret x)] = ts" by (metis list_update_id)
  then show ?case by simp
next
  case (Step u c)
  let ?P = "\<lparr>pl_world = w, pl_threads = ts\<rparr>" and ?ts = "ts[i := (l, c w)]"
  have "pool_step d e ?P \<lparr>pl_world = u w, pl_threads = ?ts\<rparr>"
    using pool_step.action [of i ?P l u c d e] Step.prems by simp
  moreover have "(pool_step d e)\<^sup>*\<^sup>* \<lparr>pl_world = u w, pl_threads = ?ts\<rparr>
      \<lparr>pl_world = snd (run (c w) (u w)), pl_threads = ?ts[i := (l, Ret (fst (run (c w) (u w))))]\<rparr>"
    by (rule Step.IH) (use Step.prems in simp_all)
  ultimately show ?case by (simp add: converse_rtranclp_into_rtranclp)
qed

end
