(* ===== verification/ConcurrentInv.thy ===== *)
theory ConcurrentInv
  imports Concurrent
begin

text \<open>
  What the job table keeps under every interleaving. A goroutine may write a transition that was
  validated against a status the job has since left, so the history of a job need not be an
  unbroken walk; it is still a record of legal transitions, each from a status the job has been
  in, and the current status is where the last of them led (\<open>traced\<close>). Every action is one of
  the database steps \<open>loose_step\<close>, and \<open>careful\<close> says so of whole programs.
\<close>

section \<open>Histories under interleaving\<close>

text \<open>
  \<open>traced s0 h a\<close>: a job inserted in \<open>s0\<close> has the history \<open>h\<close> and is now in \<open>a\<close>. Every entry is a
  transition of the table and leaves a status the job was in before.
\<close>

inductive traced :: "Status \<Rightarrow> (Status \<times> Status) list \<Rightarrow> Status \<Rightarrow> bool" for s0 where
  start: "traced s0 [] s0"
| move: "traced s0 h c \<Longrightarrow> a = s0 \<or> a \<in> snd ` set h \<Longrightarrow> ValidTransition a b \<Longrightarrow> traced s0 (h @ [(a, b)]) b"

lemma traced_first: "traced s0 h c \<Longrightarrow> (h = [] \<longrightarrow> c = s0) \<and> (h \<noteq> [] \<longrightarrow> fst (hd h) = s0 \<and> c = snd (last h))"
proof (induction rule: traced.induct)
  case (move h c a b)
  then show ?case by (cases h) auto
qed simp

lemma status_run_traced: "status_run s0 h a \<Longrightarrow> traced s0 h a"
proof (induction h arbitrary: a rule: rev_induct)
  case Nil
  then show ?case by (auto intro: traced.start)
next
  case (snoc x h)
  obtain p q where x: "x = (p, q)" by fastforce
  have "status_run s0 h p \<and> ValidTransition p q \<and> q = a" using snoc.prems unfolding x status_run_snoc .
  then have st: "status_run s0 h p" "ValidTransition p q" "q = a" by blast+
  have "traced s0 h p" by (rule snoc.IH [OF st(1)])
  moreover from traced_first [OF this] have "p = s0 \<or> p \<in> snd ` set h"
    by (cases "h = []") auto
  ultimately show ?case unfolding x using st(2,3) traced.move by blast
qed

text \<open>The statuses a job has been in.\<close>

definition visited :: "database \<Rightarrow> int \<Rightarrow> Status set" where
  "visited d n = (if job_history d n = [] then set_option (status_at d n)
     else insert (fst (hd (job_history d n))) (snd ` set (job_history d n)))"

definition row_traced :: "Status list \<Rightarrow> database \<Rightarrow> job_row \<Rightarrow> bool" where
  "row_traced S d r \<longleftrightarrow> 1 \<le> row_id r \<and> row_id r \<le> jobs_seq d \<and>
     json_read_strings (row_command r) \<noteq> None \<and>
     (\<exists>s0 \<in> set S. traced s0 (job_history d (row_id r)) (status_of_text (row_status r)))"

definition table_wf :: "Status list \<Rightarrow> database \<Rightarrow> bool" where
  "table_wf S d \<longleftrightarrow> schema_ready d \<and> 0 \<le> jobs_seq d \<and> jobs_seq d \<le> int64_max \<and>
     distinct (map row_id (jobs_rows d)) \<and> (\<forall>r \<in> set (jobs_rows d). row_traced S d r) \<and>
     (\<forall>h \<in> set (history_rows d). hrow_job_id h \<le> jobs_seq d \<and> hrow_id h \<le> history_seq d) \<and>
     sorted_wrt (<) (map hrow_id (history_rows d))"

lemma row_ok_traced: "row_ok S d r \<Longrightarrow> row_traced S d r"
  unfolding row_ok_def row_traced_def by (blast intro: status_run_traced)

lemma store_wf_table: "store_wf S d \<Longrightarrow> table_wf S d"
  by (simp add: store_wf_def table_wf_def row_ok_traced)

lemma table_wfD:
  assumes "table_wf S d"
  shows "schema_ready d" and "distinct (map row_id (jobs_rows d))"
    and "\<And>r. r \<in> set (jobs_rows d) \<Longrightarrow> row_traced S d r" and "0 \<le> jobs_seq d" and "jobs_seq d \<le> int64_max"
    and "sorted_wrt (<) (map hrow_id (history_rows d))"
  using assms by (auto simp: table_wf_def)

lemma table_row_unique:
  "table_wf S d \<Longrightarrow> r \<in> set (jobs_rows d) \<Longrightarrow> r' \<in> set (jobs_rows d) \<Longrightarrow> row_id r = row_id r' \<Longrightarrow> r = r'"
  by (auto simp: table_wf_def distinct_map dest: inj_onD)

lemma table_fresh_id: "table_wf S d \<Longrightarrow> jobs_seq d + 1 \<notin> row_id ` set (jobs_rows d)"
  by (fastforce simp: table_wf_def row_traced_def)

lemma current_visited:
  assumes "table_wf S d" and "status_at d n = Some a"
  shows "a \<in> visited d n"
proof -
  obtain r where r: "select_row row_id n (jobs_rows d) = Some r" "status_of_text (row_status r) = a"
    using assms(2) by (auto simp: status_at_def)
  note row = select_row_SomeD [OF r(1)]
  have "row_traced S d r" by (rule table_wfD(3) [OF assms(1) row(1)])
  then obtain s0 where "traced s0 (job_history d n) a" unfolding row_traced_def row(2) r(2) by blast
  note first = traced_first [OF this]
  show ?thesis
  proof (cases "job_history d n = []")
    case False
    with first have "a = snd (last (job_history d n))" by blast
    with False show ?thesis by (simp add: visited_def)
  qed (simp add: visited_def assms(2))
qed

section \<open>The steps the database takes\<close>

inductive loose_step :: "Status list \<Rightarrow> database \<Rightarrow> database \<Rightarrow> bool" for S where
  insert: "Status j \<in> set S \<Longrightarrow> is_named (Status j) \<Longrightarrow> jobs_seq d < int64_max \<Longrightarrow>
    loose_step S d (insert_job_row e j d)"
| transition: "select_row row_id n (jobs_rows d) = Some r \<Longrightarrow> a \<in> visited d n \<Longrightarrow>
    ValidTransition a b \<Longrightarrow> (\<And>r. row_id (f r) = row_id r) \<Longrightarrow>
    (\<And>r. row_command (f r) = row_command r) \<Longrightarrow> (\<And>r. row_status (f r) = status_text b) \<Longrightarrow>
    loose_step S d (committed n f a b by_whom now d)"
| directory: "loose_step S d (update_jobs n (\<lambda>r. r\<lparr>row_checkpoint_dir := dir, row_updated_at := now\<rparr>) d)"

abbreviation later :: "Status list \<Rightarrow> database \<Rightarrow> database \<Rightarrow> bool" where
  "later S \<equiv> (loose_step S)\<^sup>*\<^sup>*"

lemma row_traced_cong:
  assumes "row_traced S d r" and "row_id r' = row_id r" and "row_command r' = row_command r"
    and "row_status r' = row_status r" and "jobs_seq d \<le> jobs_seq d'" and "job_history d' (row_id r) = job_history d (row_id r)"
  shows "row_traced S d' r'"
  using assms by (auto simp: row_traced_def)

lemma insert_traced:
  assumes wf: "table_wf S d" and "jobs_seq d < int64_max" and "Status j \<in> set S" and "is_named (Status j)"
  shows "table_wf S (insert_job_row e j d)" (is "table_wf S ?d")
proof -
  have hist: "job_history ?d m = job_history d m" for m
    by (simp add: job_history_def insert_job_row_def)
  have none: "job_history d (jobs_seq d + 1) = []"
    using wf by (force simp: job_history_def table_wf_def filter_empty_conv)
  have old: "row_traced S ?d r" if "r \<in> set (jobs_rows d)" for r
    using row_traced_cong [OF table_wfD(3) [OF wf that], of r ?d] hist by (simp add: insert_job_row_def)
  have new: "row_traced S ?d r" if "r \<in> set (jobs_rows ?d)" "r \<notin> set (jobs_rows d)" for r
    using that assms none hist table_wfD(4) [OF wf] traced.start
    by (auto simp: row_traced_def insert_job_row_def json_strings_round_trip job_history_def)
  have "row_traced S ?d r" if "r \<in> set (jobs_rows ?d)" for r
    using old new that by blast
  with assms table_fresh_id [OF wf] show ?thesis
    by (auto simp: table_wf_def insert_job_row_def schema_ready_def)
qed

lemma transition_traced:
  assumes wf: "table_wf S d" and sel: "select_row row_id n (jobs_rows d) = Some r0"
    and a: "a \<in> visited d n" and ab: "ValidTransition a b"
    and f: "\<And>r. row_id (f r) = row_id r" "\<And>r. row_command (f r) = row_command r"
      "\<And>r. row_status (f r) = status_text b"
  shows "table_wf S (committed n f a b by_whom now d)" (is "table_wf S ?d")
proof -
  note r0 = select_row_SomeD [OF sel]
  have named: "status_of_text (status_text a) = a" "status_of_text (status_text b) = b"
    using ValidTransition_named [OF ab] by simp_all
  have rows: "row_traced S ?d r'" if "r' \<in> set (update_rows row_id n f (jobs_rows d))" for r'
    using that
  proof (cases rule: in_update_rows_cases)
    case same
    with row_traced_cong [OF table_wfD(3) [OF wf same(1)], of r' ?d] show ?thesis
      by (simp add: committed_def) (simp add: insert_history_row_def update_jobs_def)
  next
    case (changed r)
    then have "r = r0" using r0 table_row_unique [OF wf] by blast
    with changed have ok: "row_traced S d r0" by (blast intro: table_wfD(3) [OF wf])
    then obtain s0 where s0: "s0 \<in> set S" "traced s0 (job_history d n) (status_of_text (row_status r0))"
      using r0(2) by (auto simp: row_traced_def)
    have "status_at d n = Some (status_of_text (row_status r0))" using sel by (simp add: status_at_def)
    then have "a = s0 \<or> a \<in> snd ` set (job_history d n)"
      using a traced_first [OF s0(2)] by (auto simp: visited_def split: if_splits)
    then have "traced s0 (job_history ?d n) b"
      using traced.move [OF s0(2) _ ab] by (simp add: committed_def named)
    with s0(1) ok changed \<open>r = r0\<close> r0(2) f named show ?thesis by (auto simp: row_traced_def)
  qed
  have "n \<le> jobs_seq d" using table_wfD(3) [OF wf r0(1)] r0(2) by (simp add: row_traced_def)
  with wf rows f(1) show ?thesis
    by (auto simp: table_wf_def schema_ready_def sorted_wrt_append committed_def insert_history_row_def
        update_jobs_def less_Suc_eq_le) (fastforce)?
qed

lemma directory_traced:
  assumes "table_wf S d"
  shows "table_wf S (update_jobs n (\<lambda>r. r\<lparr>row_checkpoint_dir := dir, row_updated_at := now\<rparr>) d)" (is "table_wf S ?d")
proof -
  let ?f = "\<lambda>r. r\<lparr>row_checkpoint_dir := dir, row_updated_at := now\<rparr>"
  have "row_traced S ?d r'" if "r' \<in> set (update_rows row_id n ?f (jobs_rows d))" for r'
    using that
  proof (cases rule: in_update_rows_cases)
    case same
    with row_traced_cong [OF table_wfD(3) [OF assms same(1)], of r' ?d] show ?thesis by (simp add: update_jobs_def job_history_def)
  next
    case (changed r)
    then show ?thesis using row_traced_cong [OF table_wfD(3) [OF assms], of r r' ?d]
      by (simp add: update_jobs_def job_history_def)
  qed
  with assms show ?thesis by (auto simp: table_wf_def update_jobs_def schema_ready_def)
qed

lemma loose_step_wf: "loose_step S d d' \<Longrightarrow> table_wf S d \<Longrightarrow> table_wf S d'"
  by (induction rule: loose_step.induct) (simp_all add: insert_traced transition_traced directory_traced)

lemma later_wf: "later S d d' \<Longrightarrow> table_wf S d \<Longrightarrow> table_wf S d'"
  by (induction rule: rtranclp_induct) (auto intro: loose_step_wf)

section \<open>What a later database still knows\<close>

text \<open>
  \<open>extends d d'\<close>: no job and no history row has gone, new jobs have larger ids than every id
  handed out before, and a job has been in every status it had been in.
\<close>

definition extends :: "database \<Rightarrow> database \<Rightarrow> bool" where
  "extends d d' \<longleftrightarrow> jobs_seq d \<le> jobs_seq d' \<and> (\<exists>hs. history_rows d' = history_rows d @ hs) \<and>
     (\<exists>ns. map row_id (jobs_rows d') = map row_id (jobs_rows d) @ ns \<and> (\<forall>n \<in> set ns. jobs_seq d < n))"

lemma extends_refl [simp]: "extends d d"
  by (simp add: extends_def)

lemma extends_trans:
  assumes "extends d d'" and "extends d' d''" shows "extends d d''"
proof -
  obtain hs ns where 1: "history_rows d' = history_rows d @ hs" "map row_id (jobs_rows d') = map row_id (jobs_rows d) @ ns"
    "\<forall>n \<in> set ns. jobs_seq d < n" using assms(1) by (auto simp: extends_def)
  obtain ks ms where 2: "history_rows d'' = history_rows d' @ ks" "map row_id (jobs_rows d'') = map row_id (jobs_rows d') @ ms"
    "\<forall>n \<in> set ms. jobs_seq d' < n" using assms(2) by (auto simp: extends_def)
  have le: "jobs_seq d \<le> jobs_seq d'" "jobs_seq d' \<le> jobs_seq d''" using assms by (auto simp: extends_def)
  have "\<forall>n \<in> set (ns @ ms). jobs_seq d < n" using 1(3) 2(3) le by auto
  then show ?thesis using 1 2 le unfolding extends_def
    by (intro conjI exI [of _ "hs @ ks"] exI [of _ "ns @ ms"]) simp_all
qed

lemma loose_step_extends: "loose_step S d d' \<Longrightarrow> extends d d'"
  by (induction rule: loose_step.induct)
    (auto simp: extends_def insert_job_row_def committed_def insert_history_row_def update_jobs_def)

lemma later_extends: "later S d d' \<Longrightarrow> extends d d'"
  by (induction rule: rtranclp_induct) (auto dest: loose_step_extends intro: extends_trans)

lemma extends_row: "extends d d' \<Longrightarrow> status_at d n \<noteq> None \<Longrightarrow> status_at d' n \<noteq> None"
proof -
  assume "extends d d'" and "status_at d n \<noteq> None"
  then obtain ns where "map row_id (jobs_rows d') = map row_id (jobs_rows d) @ ns" "n \<in> set (map row_id (jobs_rows d))"
    by (auto simp: extends_def status_at_def select_row_None_iff)
  then have "n \<in> set (map row_id (jobs_rows d'))" by simp
  then show "status_at d' n \<noteq> None" by (simp add: status_at_def select_row_None_iff)
qed

lemma loose_step_visited:
  assumes "loose_step S d d'" and "table_wf S d" and "a \<in> visited d n"
  shows "a \<in> visited d' n"
  using assms
proof (cases rule: loose_step.cases)
  case (insert j e)
  have "job_history d' m = job_history d m" for m by (simp add: insert(1) job_history_def insert_job_row_def)
  moreover have "status_at d' n = status_at d n \<or> status_at d n = None"
    using status_at_insert [OF insert(3) table_fresh_id [OF assms(2)]] table_fresh_id [OF assms(2)] insert(1)
    by (auto simp: status_at_def select_row_None_iff)
  ultimately show ?thesis using assms(3) by (auto simp: visited_def split: if_splits)
next
  case (transition m r p q f by_whom now)
  have named: "status_of_text (status_text p) = p" "status_of_text (status_text q) = q"
    using ValidTransition_named [OF transition(4)] by simp_all
  have hist: "job_history d' n = job_history d n @ (if n = m then [(p, q)] else [])"
    by (simp add: transition(1) committed_def named)
  show ?thesis
  proof (cases "n = m")
    case True
    show ?thesis
    proof (cases "job_history d n = []")
      case no: True
      then have "visited d n = set_option (status_at d n)" by (simp add: visited_def)
      then have "p = a" using transition(3) assms(3) True by auto
      then show ?thesis using hist no True by (simp add: visited_def)
    next
      case False
      then show ?thesis using hist True assms(3) by (auto simp: visited_def)
    qed
  next
    case False
    have "status_at d' n = status_at d n"
      using status_at_committed [of f q m d p by_whom now] transition ValidTransition_named(2) [OF transition(4)] False
      by auto
    moreover have "job_history d' n = job_history d n" using hist False by simp
    ultimately have "visited d' n = visited d n" by (simp only: visited_def)
    then show ?thesis using assms(3) by simp
  qed
next
  case (directory m dir now)
  have "status_at d' = status_at d" unfolding directory(1) by (rule status_at_update_jobs) simp_all
  moreover have "job_history d' n = job_history d n" by (simp add: directory)
  ultimately have "visited d' n = visited d n" by (simp only: visited_def)
  then show ?thesis using assms(3) by simp
qed

lemma later_visited: "later S d d' \<Longrightarrow> table_wf S d \<Longrightarrow> a \<in> visited d n \<Longrightarrow> a \<in> visited d' n"
proof (induction rule: rtranclp_induct)
  case (step y z)
  then show ?case using loose_step_visited [OF step.hyps(2) later_wf [OF step.hyps(1)]] by simp
qed simp

section \<open>Programs that take only such steps\<close>

text \<open>
  \<open>careful S p d\<close>: started when the database is \<open>d\<close> or any later one, each action of \<open>p\<close> takes the
  database to a later one, whatever others have done to it between two actions.
\<close>

primrec careful :: "Status list \<Rightarrow> 'a prog \<Rightarrow> database \<Rightarrow> bool" where
  "careful S (Ret x) = (\<lambda>d. True)"
| "careful S (Step u c) = (\<lambda>d. \<forall>w. later S d (db w) \<longrightarrow> table_wf S (db w) \<longrightarrow>
     later S (db w) (db (u w)) \<and> careful S (c w) (db (u w)))"

lemma careful_mono: "careful S p d \<Longrightarrow> later S d d' \<Longrightarrow> careful S p d'"
  by (cases p) (auto intro: rtranclp_trans)

lemma careful_bindp: "careful S p d \<Longrightarrow> (\<And>x d'. careful S (g x) d') \<Longrightarrow> careful S (bindp p g) d"
  by (induction p arbitrary: d) auto

lemma careful_later: "(\<And>w. later S (db w) (db (snd (f w)))) \<Longrightarrow> careful S (act f) d"
  by (simp add: act_def)

lemma careful_quiet: "(\<And>w. db (snd (f w)) = db w) \<Longrightarrow> careful S (act f) d"
  by (rule careful_later) simp

lemma update_read_Inr:
  assumes "update_read e jid b w = (Inr (n, a), w')"
  shows "status_at (db w) n = Some a" and "ValidTransition a b" and "db w' = db w"
  using assms by (auto simp: update_read_def status_at_def scanJob_InrD(2) split: store_splits elim!: Store_Get_InrD)

lemma update_tx_later:
  assumes "a \<in> visited (db w) n" and "ValidTransition a b" and "\<And>t r. row_id (f t r) = row_id r"
    and "\<And>t r. row_command (f t r) = row_command r" and "\<And>t r. row_status (f t r) = status_text b"
  shows "later S (db w) (db (snd (update_tx e jid n st f a b by_whom w)))"
proof -
  obtain res w' where m: "update_tx e jid n st f a b by_whom w = (res, w')" by fastforce
  show ?thesis
  proof (cases res)
    case None
    obtain now where now: "db w' = committed n (f now) a b by_whom now (db w)"
        "select_row row_id n (jobs_rows (db w)) \<noteq> None"
      by (rule update_tx_None [OF m [unfolded None]])
    then obtain r where "select_row row_id n (jobs_rows (db w)) = Some r" by blast
    then have "loose_step S (db w) (db w')"
      unfolding now(1) by (rule loose_step.transition [OF _ assms(1,2)]) (simp_all add: assms(3-5))
    then show ?thesis by (simp add: m)
  next
    case (Some err)
    with update_tx_Some [OF m [unfolded Some]] m show ?thesis by simp
  qed
qed

text \<open>The read finds a status the job is in; it has still been in it when the transaction comes.\<close>

lemma careful_update:
  assumes "\<And>n a w. a \<in> visited (db w) n \<Longrightarrow> ValidTransition a b \<Longrightarrow> later S (db w) (db (snd (g n a w)))"
  shows "careful S (bindp (act (update_read e jid b)) (\<lambda>r. case r of
      Inl err \<Rightarrow> Ret (Some err) | Inr (n, a) \<Rightarrow> act (g n a))) d"
proof -
  have "careful S (case fst (update_read e jid b w) of Inl err \<Rightarrow> Ret (Some err) | Inr (n, a) \<Rightarrow> act (g n a)) (db w)"
    if wf: "table_wf S (db w)" for w
  proof (cases "update_read e jid b w")
    case (Pair r w1)
    show ?thesis
    proof (cases r)
      case (Inr x)
      obtain n a where x: "x = (n, a)" by fastforce
      note rd = update_read_Inr [OF Pair [unfolded Inr x]]
      have "later S (db v) (db (snd (g n a v)))" if "later S (db w) (db v)" for v
        using assms [OF later_visited [OF that wf current_visited [OF wf rd(1)]] rd(2)] .
      then show ?thesis by (simp add: Pair Inr x act_def)
    qed (simp add: Pair)
  qed
  then show ?thesis by (simp add: bindp_act)
qed

lemma careful_UpdateStatus_p: "careful S (UpdateStatus_p e jid b why by_whom) d"
  unfolding UpdateStatus_p_def
  by (rule careful_update) (simp add: update_write_def update_tx_later)

lemma careful_UpdatePID_p: "careful S (UpdatePID_p e jid pid pgid by_whom) d"
  unfolding UpdatePID_p_def
  by (rule careful_update) (simp add: update_pid_write_def update_tx_later)

lemma Store_Insert_later:
  assumes "Status j \<in> set S" and "is_named (Status j)"
  shows "later S (db w) (db (snd (Store_Insert e j w)))"
  using Store_Insert_cases [of e j w "fst (Store_Insert e j w)" "snd (Store_Insert e j w)"]
    loose_step.insert [OF assms, of "db w"] by auto

lemma Store_UpdateCheckpointDir_later: "later S (db w) (db (snd (Store_UpdateCheckpointDir e jid dir w)))"
proof (cases "Store_UpdateCheckpointDir e jid dir w")
  case (Pair res w')
  have "later S (db w) (update_jobs n (\<lambda>r. r\<lparr>row_checkpoint_dir := dir, row_updated_at := now\<rparr>) (db w))"
    for n now by (rule r_into_rtranclp) (rule loose_step.directory)
  with Store_UpdateCheckpointDir_cases [OF Pair] Pair show ?thesis by auto
qed

lemma careful_reads:
  "careful S (act (Store_Get e jid)) d" "careful S (act (Store_List e)) d"
  "careful S (act (Store_ListTerminal e)) d" "careful S (act (Store_History e jid)) d"
  "careful S (act (validateHookPath e fl p)) d" "careful S (act (validateCheckpointDir e p h)) d"
  "careful S (act (os_RemoveAll e p)) d" "careful S (act (KillGroup e pid sig)) d"
  "careful S (act (now_utc e)) d" "careful S latched_p d" "careful S set_latch_p d"
  "careful S (log_p dm e a j out det) d" "careful S (act (notify_build dm e sg js)) d"
  by (simp_all add: careful_quiet latched_p_def log_p_def set_latch_p_def)

lemma careful_inserts:
  "Status j \<in> set S \<Longrightarrow> is_named (Status j) \<Longrightarrow> careful S (act (Store_Insert e j)) d"
  "careful S (act (Store_UpdateCheckpointDir e jid dir)) d"
  by (simp_all add: careful_later Store_Insert_later Store_UpdateCheckpointDir_later)

lemma careful_runner:
  "runner_ok dm \<Longrightarrow> careful S (act (d_checkpointFunc dm e dir j)) d"
  "runner_ok dm \<Longrightarrow> careful S (act (d_resumeFunc dm e dir hook jid)) d"
  by (rule careful_quiet, metis prod.collapse runner_db(1), rule careful_quiet, metis prod.collapse runner_db(2))

lemma careful_Ret: "careful S (Ret x) d"
  by simp

lemmas careful_intros = careful_bindp careful_reads careful_runner careful_inserts(2)
  careful_UpdateStatus_p careful_UpdatePID_p careful_Ret

lemma careful_cases:
  "(\<And>t. careful S (f t) d) \<Longrightarrow> careful S g d \<Longrightarrow> careful S (case v of Some t \<Rightarrow> f t | None \<Rightarrow> g) d"
  "(\<And>x. careful S (h x) d) \<Longrightarrow> (\<And>y. careful S (k y) d) \<Longrightarrow> careful S (case s of Inl x \<Rightarrow> h x | Inr y \<Rightarrow> k y) d"
  "careful S p d \<Longrightarrow> careful S q d \<Longrightarrow> careful S (if b then p else q) d"
  "(\<And>x y. careful S (m x y) d) \<Longrightarrow> careful S (case z of (x, y) \<Rightarrow> m x y) d"
  by (simp_all split: option.split sum.split prod.split)

lemma careful_prune_jobs_p: "careful S (prune_jobs_p e js) d"
proof (induction js arbitrary: d)
  case (Cons j js)
  show ?case by (simp only: prune_jobs_p.simps) (intro careful_intros careful_cases Cons.IH)
qed simp

lemma careful_update_answer: "careful S (update_answer e jid u) d"
  unfolding update_answer_def by (intro careful_cases careful_intros)

lemma careful_jobs:
  assumes "runner_ok dm"
  shows "careful S (checkpointJob_p dm e j by_whom) d" "careful S (resumeJob_p dm e j by_whom) d"
  unfolding checkpointJob_p_def resumeJob_p_def by (intro careful_cases careful_intros assms)+

lemma careful_handlers:
  assumes "runner_ok dm"
  shows "careful S (handleList_p e) d" "careful S (handleShow_p e req) d"
    "careful S (handlePause_p dm e req) d" "careful S (handleResume_p dm e req) d"
    "careful S (handleCancel_p e req) d" "careful S (handleComplete_p e req) d" "careful S (handlePrune_p e req) d"
  unfolding handleList_p_def handleShow_p_def handlePause_p_def handleResume_p_def handleCancel_p_def
    handleComplete_p_def handlePrune_p_def Let_def
  by (intro careful_cases careful_intros careful_jobs careful_prune_jobs_p careful_update_answer assms)+

lemma careful_new_jobs:
  "careful start_statuses (handleRegister_p dm e req) d" "careful start_statuses (handleAdopt_p dm e req) d"
  unfolding handleRegister_p_def handleAdopt_p_def
  by (intro careful_cases careful_intros careful_inserts(1); simp add: registered_job_def adopted_job_def)+

lemma careful_goroutine:
  assumes "runner_ok dm"
  shows "careful start_statuses (goroutine dm e l) d"
proof -
  have "careful start_statuses (dispatch_p dm e req) d'" for req d'
    unfolding dispatch_p_def by (intro careful_cases careful_handlers [OF assms] careful_new_jobs careful_Ret)
  then have "careful start_statuses (handleConn_p dm e bytes) d" for bytes
    unfolding handleConn_p_def by (intro careful_cases careful_bindp careful_Ret)
  moreover have "careful start_statuses (handleInterruption_p dm e sg) d" for sg
    unfolding handleInterruption_p_def Let_def by (intro careful_cases careful_intros)
  moreover have "careful start_statuses (checkpoint_thread dm e j) d" for j
    unfolding checkpoint_thread_def by (intro careful_bindp careful_jobs careful_Ret assms)
  moreover have "careful start_statuses (notify_thread dm e payload) d" for payload
    unfolding notify_thread_def by (intro careful_cases careful_bindp careful_reads careful_Ret careful_quiet) simp
  ultimately show ?thesis by (cases l) simp_all
qed

end
