(* ===== verification/FanoutProps.thy ===== *)
theory FanoutProps
  imports Fanout
begin

text \<open>
  The properties of the fan-out, for every scheduling of its goroutines: the bound on
  concurrent checkpoints, that it always comes to an end, what it leaves behind, and that
  with a bound of one it is the sequential loop. Then what interleaving does to
  \<open>UpdateStatus\<close> itself, whose status check is outside its transaction.
\<close>

section \<open>Interference that leaves the jobs alone\<close>

lemma undisturbed_db: "db w' = db w \<Longrightarrow> undisturbed js w w'"
  by (simp add: undisturbed_def)

text \<open>Deliveries, reading requests, prunes and refused requests are such interference.\<close>

lemma reading_undisturbed:
  "undisturbed js w (notify_deliver d e payload w)"
  "undisturbed js w (snd (handleList e w))" "undisturbed js w (snd (handlePrune e req w))"
  "interrupted w \<Longrightarrow> undisturbed js w (snd (handleRegister d e req w))"
  "interrupted w \<Longrightarrow> undisturbed js w (snd (handleAdopt d e req w))"
  "interrupted w \<Longrightarrow> undisturbed js w (snd (handlePause d e req w))"
proof -
  have "db (snd (handleList e w)) = db w"
    using Store_List_db [of e w] by (cases "Store_List e w") (auto simp: handleList_def split: sum.splits)
  then show "undisturbed js w (snd (handleList e w))" by (rule undisturbed_db)
qed (simp_all add: undisturbed_db handlePrune_db handlers_refuse)

lemma New_max: "1 \<le> numCPU \<Longrightarrow> 1 \<le> d_maxConcurrentCheckpoints (daemon_New numCPU cfg)"
  by (simp add: daemon_New_def)

text \<open>Own steps are steps.\<close>

lemma fan_steps_any: "(fan_step d e)\<^sup>*\<^sup>* s s' \<Longrightarrow> (fan_any d e)\<^sup>*\<^sup>* s s'"
  by (induction rule: rtranclp_induct) (auto intro: rtranclp.rtrancl_into_rtrancl)

lemma New_completes:
  assumes "1 \<le> numCPU"
  obtains s where "(fan_step (daemon_New numCPU cfg) e)\<^sup>*\<^sup>* (fan_start js w) s" and "fan_complete s"
  using fan_can_complete [OF fan_start_sem New_max [OF assms], of cfg e js w] New_max [OF assms, of cfg] that
  by auto

section \<open>The properties\<close>

text \<open>
  Claim C6. However the goroutines of an interruption are scheduled, at no time are more of the
  checkpoints that this interruption starts under way than the configured maximum (the number
  of processors when none is configured), and the semaphore holds exactly one token for each of
  them. A manual pause that is under way when the signal comes takes no token; it runs beside
  them and is not counted here.
\<close>

theorem fanout_bounded:
  assumes "1 \<le> numCPU" and "(fan_any (daemon_New numCPU cfg) e)\<^sup>*\<^sup>* (fan_start js w) s"
  shows "fan_sem s = running s \<and>
    int (running s) \<le> (if cfg_MaxConcurrentCheckpoints cfg \<le> 0 then numCPU else cfg_MaxConcurrentCheckpoints cfg)"
proof -
  have "sem_ok (daemon_New numCPU cfg) s"
    by (rule fan_run_sem [OF assms(2) fan_start_sem]) (use New_max [OF assms(1), of cfg] in simp)
  then show ?thesis by (simp add: sem_ok_def daemon_New_def)
qed

theorem fanout_bounded_witness:
  "\<exists>s. fan_step sample_daemon quiet_env (fan_start [sample_job] world_one_job) s \<and> fan_sem s = 1 \<and>
     int (running s) \<le> 4"
proof -
  let ?s = "set_phase 0 MarkRead ((fan_start [sample_job] world_one_job)\<lparr>fan_sem := 1\<rparr>)"
  have step: "fan_step sample_daemon quiet_env (fan_start [sample_job] world_one_job) ?s"
    using fan_step.spawn [of 0 "fan_start [sample_job] world_one_job" sample_daemon quiet_env]
    by (simp add: fan_start_def daemon_New_def sample_daemon_config_def)
  have cpus: "1 \<le> (4 :: int)" by simp
  have "(fan_any sample_daemon quiet_env)\<^sup>*\<^sup>* (fan_start [sample_job] world_one_job) ?s"
    using fan_steps_any [OF r_into_rtranclp [of "fan_step sample_daemon quiet_env", OF step]] .
  from fanout_bounded [OF cpus this] step show ?thesis
    by (intro exI [of _ ?s]) (simp add: sample_daemon_config_def)
qed

text \<open>
  Claim C5. The fan-out always comes to an end, provided each checkpoint it calls returns: whatever
  the order in which its goroutines act, a run over \<open>k\<close> jobs takes at most \<open>9 k\<close> actions, and it
  never blocks before every job has been dealt with.
\<close>

theorem fanout_terminates:
  assumes "1 \<le> numCPU" and "(fan_step (daemon_New numCPU cfg) e ^^ n) (fan_start js w) s"
  shows "n \<le> 9 * length js \<and> (fan_complete s \<or> (\<exists>s'. fan_step (daemon_New numCPU cfg) e s s'))"
proof -
  have "(fan_any (daemon_New numCPU cfg) e)\<^sup>*\<^sup>* (fan_start js w) s"
    using relpowp_imp_rtranclp [OF assms(2)] by (rule fan_steps_any)
  then have "sem_ok (daemon_New numCPU cfg) s"
    by (rule fan_run_sem [OF _ fan_start_sem]) (use New_max [OF assms(1), of cfg] in simp)
  with fan_progress [OF _ New_max [OF assms(1)]] fan_run_measure [OF assms(2)] show ?thesis by auto
qed

theorem fanout_terminates_witness:
  "\<exists>n s. (fan_step sample_daemon quiet_env ^^ n) (fan_start [sample_job] world_one_job) s \<and>
     n \<le> 9 \<and> fan_complete s"
proof -
  have cpus: "1 \<le> (4 :: int)" by simp
  obtain s where s: "(fan_step sample_daemon quiet_env)\<^sup>*\<^sup>* (fan_start [sample_job] world_one_job) s" "fan_complete s"
    by (rule New_completes [OF cpus])
  then obtain n where n: "(fan_step sample_daemon quiet_env ^^ n) (fan_start [sample_job] world_one_job) s"
    using rtranclp_imp_relpowp by metis
  from fanout_terminates [OF cpus n] s(2) n show ?thesis by auto
qed

text \<open>
  Claim C4. When an interruption is signalled, the database works, and the other requests served
  meanwhile leave the jobs of the fan-out alone: every job that was RUNNING gets its checkpoint.
  Once the fan-out can go no further, under any scheduling, each of them has had its checkpoint
  taken at some time of the run, by its hook or by CRIU; if that call succeeded the job is in
  CHECKPOINT_CREATED, and if it failed the job is in CHECKPOINT_CREATION_FAILED with the error
  the call returned as its reason. Its history has grown by exactly the two transitions.
\<close>

theorem fanout_outcome:
  assumes "sql_ok e" and "store_wf S (db w)" and "1 \<le> numCPU"
    and "interruption_start (daemon_New numCPU cfg) e sig w = ((js, payload), w1)"
    and "(fan_any (daemon_New numCPU cfg) e)\<^sup>*\<^sup>* (fan_start js w1) s"
    and "\<nexists>s'. fan_step (daemon_New numCPU cfg) e s s'"
    and "status_at (db w) n = Some StatusRunning"
  shows "\<exists>j s1 res. j \<in> set js \<and> parseID (ID j) = Inr n \<and>
    (fan_any (daemon_New numCPU cfg) e)\<^sup>*\<^sup>* (fan_start js w1) s1 \<and> (fan_any (daemon_New numCPU cfg) e)\<^sup>*\<^sup>* s1 s \<and>
    (j, Dump) \<in> set (fan_jobs s1) \<and> fst (checkpoint_Run e (CheckpointDir j) j (fan_world s1)) = res \<and>
    recorded (db w) (db (fan_world s)) n res"
proof -
  let ?d = "daemon_New numCPU cfg"
  note js = runnable_jobs [OF assms(1,2,4)]
  have db1: "db w1 = db w" using interruption_start_frame(1) [of ?d e sig w] assms(4) by simp
  have "fan_ok S (db w) (fan_start js w1)"
    using assms(2) js(1,2) by (auto simp: fan_ok_def fan_start_def db1 gone_through_def comp_def)
  then have ok: "fan_ok S (db w) s" by (rule fan_run_ok [OF assms(5,1) New_runner_ok])
  have "sem_ok ?d s" by (rule fan_run_sem [OF assms(5) fan_start_sem]) (use New_max [OF assms(3), of cfg] in simp)
  then have complete: "fan_complete s" using fan_progress [OF _ New_max [OF assms(3)]] assms(6) by blast
  obtain j where j: "j \<in> set js" "parseID (ID j) = Inr n" using js(3) [OF assms(7)] by blast
  have jobs: "map fst (fan_jobs t) = js" if "(fan_any ?d e)\<^sup>*\<^sup>* (fan_start js w1) t" for t
    using fan_run_jobs [OF that] by (simp add: fan_start_def comp_def)
  obtain i where i: "i < length js" "js ! i = j" using j(1) by (auto simp: in_set_conv_nth)
  obtain p where at: "fan_jobs s ! i = (j, p)" "i < length (fan_jobs s)"
    using jobs [OF assms(5)] i by (metis length_map nth_map prod.collapse)
  then have p: "(j, p) \<in> set (fan_jobs s)" by (metis nth_mem)
  with ok j(2) have ph: "phase_ok (db w) (db (fan_world s)) n p" by (fastforce simp: fan_ok_def)
  have "remaining p = 0" using complete p by (fastforce simp: fan_complete_def list_all_iff)
  then obtain res where res: "p = Finished res" by (cases p) auto
  obtain s1 where s1: "(fan_any ?d e)\<^sup>*\<^sup>* (fan_start js w1) s1" "(fan_any ?d e)\<^sup>*\<^sup>* s1 s"
      "fan_jobs s1 ! i = (j, Dump)" "fst (d_checkpointFunc ?d e (CheckpointDir j) j (fan_world s1)) = res"
    using fan_run_result [OF assms(5) i(1), of res] at(1) res i(2) by auto
  have "(j, Dump) \<in> set (fan_jobs s1)" using s1(3) jobs [OF s1(1)] i(1) by (metis length_map nth_mem)
  moreover have "fst (checkpoint_Run e (CheckpointDir j) j (fan_world s1)) = res"
    using s1(4) by (simp add: daemon_New_def)
  ultimately show ?thesis using j s1(1,2) ph res by auto
qed

theorem fanout_outcome_witness:
  "\<exists>js payload w1 s res. interruption_start sample_daemon quiet_env
       \<lparr>sig_Trigger = ''interruption-notice'', sig_Detail = Map.empty\<rparr> world_one_job = ((js, payload), w1) \<and>
     (fan_any sample_daemon quiet_env)\<^sup>*\<^sup>* (fan_start js w1) s \<and>
     recorded (db world_one_job) (db (fan_world s)) 1 res"
proof -
  have cpus: "1 \<le> (4 :: int)" by simp
  obtain js payload w1 where start: "interruption_start sample_daemon quiet_env
       \<lparr>sig_Trigger = ''interruption-notice'', sig_Detail = Map.empty\<rparr> world_one_job = ((js, payload), w1)"
    by (metis surj_pair)
  obtain s where s: "(fan_step sample_daemon quiet_env)\<^sup>*\<^sup>* (fan_start js w1) s" "fan_complete s"
    by (rule New_completes [OF cpus])
  note run = fan_steps_any [OF s(1)]
  have "\<nexists>s'. fan_step sample_daemon quiet_env s s'" using fan_complete_stuck [OF s(2)] by simp
  from fanout_outcome [OF sql_ok_quiet world_one_job_wf cpus start run this world_one_job_status] start run
  show ?thesis by blast
qed

text \<open>
  Claim C7. With a maximum of one, the fan-out is the loop that checkpoints the jobs one after the
  other: every complete run ends in the world that \<open>checkpointJob\<close> leaves when it is called
  for each job in turn.
\<close>

theorem fanout_sequential:
  assumes "cfg_MaxConcurrentCheckpoints cfg = 1"
    and "(fan_step (daemon_New numCPU cfg) e)\<^sup>*\<^sup>* (fan_start js w) s" and "fan_complete s"
  shows "fan_world s = fold (\<lambda>j w. snd (checkpointJob (daemon_New numCPU cfg) e j daemonActor w)) js w"
proof -
  have "d_maxConcurrentCheckpoints (daemon_New numCPU cfg) = 1" using assms(1) by (simp add: daemon_New_def)
  moreover have "in_order (fan_start js w)" by (simp add: in_order_def fan_start_def)
  ultimately have "fan_rest (daemon_New numCPU cfg) e s = fan_rest (daemon_New numCPU cfg) e (fan_start js w)"
    using fan_run_rest [OF assms(2) _ fan_start_sem] by simp
  then show ?thesis by (simp add: fan_rest_complete [OF assms(3)] fan_rest_start)
qed

theorem fanout_sequential_witness:
  "\<exists>s. (fan_step (daemon_New 4 (sample_daemon_config\<lparr>cfg_MaxConcurrentCheckpoints := 1\<rparr>)) quiet_env)\<^sup>*\<^sup>*
       (fan_start [sample_job, sample_job] world_one_job) s \<and>
     fan_world s = fold (\<lambda>j w. snd (checkpointJob
       (daemon_New 4 (sample_daemon_config\<lparr>cfg_MaxConcurrentCheckpoints := 1\<rparr>)) quiet_env j daemonActor w))
       [sample_job, sample_job] world_one_job"
proof -
  let ?cfg = "sample_daemon_config\<lparr>cfg_MaxConcurrentCheckpoints := 1\<rparr>"
  have one: "cfg_MaxConcurrentCheckpoints ?cfg = 1" and cpus: "1 \<le> (4 :: int)" by simp_all
  obtain s where s: "(fan_step (daemon_New 4 ?cfg) quiet_env)\<^sup>*\<^sup>* (fan_start [sample_job, sample_job] world_one_job) s"
      "fan_complete s"
    by (rule New_completes [OF cpus])
  from fanout_sequential [OF one s] s(1) show ?thesis by blast
qed

section \<open>A check outside its transaction\<close>

text \<open>
  \<open>UpdateStatus\<close> reads the status and checks the transition before it opens its transaction,
  and its \<open>UPDATE\<close> does not repeat the check.

  Claim C26. Two overlapping updates can therefore take a job out of a terminal status: if a cancel
  commits between the read and the transaction of the update that marks a running job
  as being checkpointed, both succeed and the canceled job is CHECKPOINT_IN_PROGRESS.
\<close>

theorem canceled_job_revived:
  assumes "sql_ok e" and "store_wf S (db w)" and "parseID jid = Inr n"
    and "status_at (db w) n = Some StatusRunning"
  shows "\<exists>a w1 w2 w3. update_read e jid StatusCheckpointInProgress w = (Inr (n, a), w1) \<and>
    Store_UpdateStatus e jid StatusCanceled [] owner w1 = (None, w2) \<and>
    status_at (db w2) n = Some StatusCanceled \<and>
    update_write e jid n a StatusCheckpointInProgress [] by_whom w2 = (None, w3) \<and>
    status_at (db w3) n = Some StatusCheckpointInProgress"
proof -
  obtain w1 where w1: "update_read e jid StatusCheckpointInProgress w = (Inr (n, StatusRunning), w1)" "db w1 = db w"
    by (rule read_action_ok [OF assms(1-3) _ mark_transition, of "db w" "[]"])
      (simp add: gone_through_def assms(4))
  have wf1: "store_wf S (db w1)" and st1: "status_at (db w1) n = Some StatusRunning" using assms w1(2) by simp_all
  have cancel: "ValidTransition StatusRunning StatusCanceled" by simp
  obtain w2 where w2: "Store_UpdateStatus e jid StatusCanceled [] owner w1 = (None, w2)"
      "moved (db w1) n [(StatusRunning, StatusCanceled)] StatusCanceled (db w2)" "store_wf S (db w2)"
    by (rule UpdateStatus_moves [OF assms(1) wf1 assms(3) st1 cancel])
  have st2: "status_at (db w2) n = Some StatusCanceled" using w2(2) by (simp add: moved_def)
  obtain r where r: "select_row row_id n (jobs_rows (db w2)) = Some r" using status_at_row [OF st2] by blast
  let ?m = "update_write e jid n StatusRunning StatusCheckpointInProgress [] by_whom w2"
  have "fst ?m = None"
    unfolding update_write_def by (rule update_tx_succeeds [OF assms(1) store_wfD(1) [OF w2(3)] r])
  then have m: "?m = (None, snd ?m)" by (cases ?m) simp
  then obtain now where "db (snd ?m) = committed n (set_status StatusCheckpointInProgress [] now)
      StatusRunning StatusCheckpointInProgress by_whom now (db w2)"
    unfolding update_write_def by (rule update_tx_None)
  then have "status_at (db (snd ?m)) n = Some StatusCheckpointInProgress"
    using status_at_committed [of "set_status StatusCheckpointInProgress [] now"] r by simp
  with w1(1) w2(1) st2 m show ?thesis by blast
qed

theorem canceled_job_revived_witness:
  "\<exists>a w1 w2 w3. update_read quiet_env ''1'' StatusCheckpointInProgress world_one_job = (Inr (1, a), w1) \<and>
    Store_UpdateStatus quiet_env ''1'' StatusCanceled [] ''bob'' w1 = (None, w2) \<and>
    status_at (db w2) 1 = Some StatusCanceled \<and>
    update_write quiet_env ''1'' 1 a StatusCheckpointInProgress [] ''daemon'' w2 = (None, w3) \<and>
    status_at (db w3) 1 = Some StatusCheckpointInProgress"
  by (rule canceled_job_revived [OF sql_ok_quiet world_one_job_wf parseID_one world_one_job_status])

end
