(* ===== verification/ConcurrentProps.thy ===== *)
theory ConcurrentProps
  imports ConcurrentInv FanoutProps
begin

text \<open>
  The properties of the daemon that hold under every interleaving of its goroutines: what the
  job table keeps, what the interruption latch guarantees and what it does not, and that serving
  one request at a time is one of the schedules.
\<close>

section \<open>The contract of a pool\<close>

text \<open>
  What it takes for a fact to hold along every run of the pool: each goroutine starts \<open>good\<close>, its
  actions keep it good, keep \<open>invar\<close> and move the world along \<open>rel\<close>, and a good goroutine stays
  good when others move the world along \<open>rel\<close>.
\<close>

definition pool_good :: "(world \<Rightarrow> bool) \<Rightarrow> (world \<Rightarrow> thread_label \<Rightarrow> thread_end prog \<Rightarrow> bool) \<Rightarrow> pool \<Rightarrow> bool" where
  "pool_good invar good P \<longleftrightarrow> invar (pl_world P) \<and> (\<forall>(l, p) \<in> set (pl_threads P). good (pl_world P) l p)"

locale pool_contract =
  fixes d :: Daemon and e :: env and invar :: "world \<Rightarrow> bool" and rel :: "world \<Rightarrow> world \<Rightarrow> bool"
    and good :: "world \<Rightarrow> thread_label \<Rightarrow> thread_end prog \<Rightarrow> bool"
  assumes rel_refl: "rel w w"
    and rel_trans: "rel w w' \<Longrightarrow> rel w' w'' \<Longrightarrow> rel w w''"
    and good_start: "invar w \<Longrightarrow> good w l (goroutine d e l)"
    and good_ended: "good w l (Ret Ended)"
    and good_step: "invar w \<Longrightarrow> good w l (Step u c) \<Longrightarrow> invar (u w) \<and> rel w (u w) \<and> good (u w) l (c w)"
    and good_stable: "rel w w' \<Longrightarrow> good w l p \<Longrightarrow> good w' l p"
begin

lemma step_good:
  assumes "pool_step d e P P'" and "pool_good invar good P"
  shows "pool_good invar good P' \<and> rel (pl_world P) (pl_world P')"
  using assms
proof (induction rule: pool_step.induct)
  case (action i P l u c)
  let ?w = "pl_world P"
  have invar: "invar ?w" and ts: "\<And>l p. (l, p) \<in> set (pl_threads P) \<Longrightarrow> good ?w l p"
    using action.prems by (auto simp: pool_good_def)
  have "(l, Step u c) \<in> set (pl_threads P)" using action.hyps by (metis nth_mem)
  note step = good_step [OF invar ts [OF this]]
  have "good (u ?w) l' p'" if "(l', p') \<in> set ((pl_threads P)[i := (l, c ?w)])" for l' p'
    using set_update_subset_insert [THEN subsetD, OF that] step ts good_stable by blast
  with step show ?case by (auto simp: pool_good_def)
next
  case (fan i P l js payload)
  let ?w = "pl_world P"
  have invar: "invar ?w" and ts: "\<And>l p. (l, p) \<in> set (pl_threads P) \<Longrightarrow> good ?w l p"
    using fan.prems by (auto simp: pool_good_def)
  have "good ?w l' p'" if "(l', p') \<in> set ((pl_threads P)[i := (l, Ret Ended)])" for l' p'
    using set_update_subset_insert [THEN subsetD, OF that] ts good_ended by blast
  then show ?case using invar good_start rel_refl
    by (auto simp: pool_good_def start_thread_def simp del: goroutine.simps)
qed (auto simp: pool_good_def start_thread_def good_start rel_refl simp del: goroutine.simps)

lemma run_good:
  assumes "(pool_step d e)\<^sup>*\<^sup>* P P'" and "pool_good invar good P"
  shows "pool_good invar good P' \<and> rel (pl_world P) (pl_world P')"
  using assms
proof (induction rule: rtranclp_induct)
  case (step Q R)
  then show ?case using step_good [OF step.hyps(2)] rel_trans by blast
qed (simp add: rel_refl)

lemma idle_good: "invar w \<Longrightarrow> pool_good invar good (idle w)"
  by (simp add: pool_good_def)

end

section \<open>The job table\<close>

interpretation table_pool: pool_contract "daemon_New numCPU cfg" e "\<lambda>w. table_wf start_statuses (db w)"
  "\<lambda>w w'. later start_statuses (db w) (db w')" "\<lambda>w l p. careful start_statuses p (db w)" for numCPU cfg e
proof
  show "careful start_statuses (goroutine (daemon_New numCPU cfg) e l) (db w)" for w l
    by (rule careful_goroutine) simp
  show "table_wf start_statuses (db (u w)) \<and> later start_statuses (db w) (db (u w)) \<and> careful start_statuses (c w) (db (u w))"
    if "table_wf start_statuses (db w)" "careful start_statuses (Step u c) (db w)"
    for w u and c :: "world \<Rightarrow> thread_end prog"
    using that later_wf by auto
qed (auto intro: careful_mono)

lemma pool_table:
  assumes "(pool_step (daemon_New numCPU cfg) e)\<^sup>*\<^sup>* (idle w) P" and "table_wf start_statuses (db w)"
    and "(pool_step (daemon_New numCPU cfg) e)\<^sup>*\<^sup>* P P'"
  shows "table_wf start_statuses (db (pl_world P'))" and "extends (db (pl_world P)) (db (pl_world P'))"
proof -
  note 1 = table_pool.run_good [OF assms(1) table_pool.idle_good [OF assms(2)], THEN conjunct1]
  note 2 = table_pool.run_good [OF assms(3) 1]
  show "table_wf start_statuses (db (pl_world P'))" using 2 by (simp add: pool_good_def)
  show "extends (db (pl_world P)) (db (pl_world P'))" using 2 later_extends by blast
qed

text \<open>
  Claim C1. However the daemon's goroutines interleave, whatever requests and signals come in, and
  whatever the database, the hooks and the file system do, the job table stays in order: ids are
  unique and within what the counter has handed out, commands decode, and the history of each
  job records transitions the table allows, each from a status the job has been in, the last
  leading to its current status. No job and no history row is ever lost, and a new job never
  gets an id handed out before. (The history need not be an unbroken walk: two goroutines can
  write transitions validated against the same status.)
\<close>

theorem concurrent_lifecycle:
  assumes "(pool_step (daemon_New numCPU cfg) e)\<^sup>*\<^sup>* (idle w) P" and "table_wf start_statuses (db w)"
  shows "table_wf start_statuses (db (pl_world P)) \<and> extends (db w) (db (pl_world P))"
  using pool_table [OF rtranclp.rtrancl_refl assms(2,1)] by simp

lemma conn_schedule: "(pool_step d e)\<^sup>*\<^sup>* \<lparr>pl_world = w, pl_threads = ts\<rparr>
    \<lparr>pl_world = snd (handleConn d e bytes w),
     pl_threads = ts @ [(Conn bytes, Ret (Answered (fst (handleConn d e bytes w))))]\<rparr>"
proof -
  let ?ts = "ts @ [start_thread d e (Conn bytes)]"
  have "pool_step d e \<lparr>pl_world = w, pl_threads = ts\<rparr> \<lparr>pl_world = w, pl_threads = ?ts\<rparr>"
    using pool_step.accept [of d e "\<lparr>pl_world = w, pl_threads = ts\<rparr>" bytes] by simp
  moreover have "(pool_step d e)\<^sup>*\<^sup>* \<lparr>pl_world = w, pl_threads = ?ts\<rparr>
      \<lparr>pl_world = snd (run (handleConn_p d e bytes) w),
       pl_threads = ?ts[length ts := (Conn bytes, Ret (fst (run (handleConn_p d e bytes) w)))]\<rparr>"
    by (rule pool_runs_alone) (simp_all add: start_thread_def)
  ultimately show ?thesis by (simp add: handleConn_p_run converse_rtranclp_into_rtranclp)
qed

theorem concurrent_lifecycle_witness:
  "table_wf start_statuses (db (snd (handleConn sample_daemon quiet_env
     (write_request (zero_request\<lparr>rq_Action := ''pause'', rq_JobID := ''1''\<rparr>)) world_one_job)))"
  using concurrent_lifecycle [OF conn_schedule [of sample_daemon quiet_env world_one_job "[]", folded idle_def]
      store_wf_table [OF world_one_job_wf]] by simp


section \<open>The interruption latch\<close>

text \<open>
  How many jobs a program still inserts at most (\<open>adds\<close>), and the same of a program that runs
  after the signal, together with how it answers (\<open>latched_adds\<close>). No action resets the latch.
\<close>

definition job_count :: "world \<Rightarrow> nat" where
  "job_count w = length (jobs_rows (db w))"

definition keeps_latch :: "world \<Rightarrow> world \<Rightarrow> bool" where
  "keeps_latch w w' \<longleftrightarrow> (interrupted w \<longrightarrow> interrupted w')"

primrec adds :: "'a prog \<Rightarrow> nat \<Rightarrow> bool" where
  "adds (Ret x) = (\<lambda>m. True)"
| "adds (Step u c) = (\<lambda>m. \<forall>w. keeps_latch w (u w) \<and>
     (job_count (u w) = job_count w \<and> adds (c w) m \<or>
      (\<exists>k. m = Suc k \<and> job_count (u w) = Suc (job_count w) \<and> adds (c w) k)))"

primrec latched_adds :: "('a \<Rightarrow> bool) \<Rightarrow> 'a prog \<Rightarrow> nat \<Rightarrow> bool" where
  "latched_adds Q (Ret x) = (\<lambda>m. Q x)"
| "latched_adds Q (Step u c) = (\<lambda>m. \<forall>w. interrupted w \<longrightarrow> interrupted (u w) \<and>
     (job_count (u w) = job_count w \<and> latched_adds Q (c w) m \<or>
      (\<exists>k. m = Suc k \<and> job_count (u w) = Suc (job_count w) \<and> latched_adds Q (c w) k)))"

lemma adds_StepE:
  assumes "adds (Step u c) m"
  obtains (same) "keeps_latch w (u w)" "job_count (u w) = job_count w" "adds (c w) m"
    | (new) k where "keeps_latch w (u w)" "m = Suc k" "job_count (u w) = Suc (job_count w)" "adds (c w) k"
proof -
  from assms have "keeps_latch w (u w) \<and> (job_count (u w) = job_count w \<and> adds (c w) m \<or>
      (\<exists>k. m = Suc k \<and> job_count (u w) = Suc (job_count w) \<and> adds (c w) k))"
    unfolding adds.simps by (rule spec)
  then show thesis using same new by (elim conjE disjE exE)
qed

lemma adds_mono: "adds p m \<Longrightarrow> m \<le> n \<Longrightarrow> adds p n"
proof (induction p arbitrary: m n)
  case (Step u c)
  have "keeps_latch w (u w) \<and> (job_count (u w) = job_count w \<and> adds (c w) n \<or>
      (\<exists>k. n = Suc k \<and> job_count (u w) = Suc (job_count w) \<and> adds (c w) k))" for w
    using Step.prems(1)
  proof (cases rule: adds_StepE [where w = w])
    case same
    with Step.IH [OF rangeI same(3) Step.prems(2)] show ?thesis by simp
  next
    case (new k)
    then obtain k' where k': "n = Suc k'" "k \<le> k'" using Step.prems(2) by (cases n) auto
    from Step.IH [OF rangeI new(4) k'(2)] new k'(1) show ?thesis by simp
  qed
  then show ?case by simp
qed simp

lemma adds_latched: "adds p m \<Longrightarrow> latched_adds (\<lambda>_. True) p m"
proof (induction p arbitrary: m)
  case (Step u c)
  have "interrupted (u w) \<and> (job_count (u w) = job_count w \<and> latched_adds (\<lambda>_. True) (c w) m \<or>
      (\<exists>k. m = Suc k \<and> job_count (u w) = Suc (job_count w) \<and> latched_adds (\<lambda>_. True) (c w) k))"
    if "interrupted w" for w
    using Step.prems
  proof (cases rule: adds_StepE [where w = w])
    case same
    with Step.IH [OF rangeI same(3)] that show ?thesis by (simp add: keeps_latch_def)
  next
    case (new k)
    with Step.IH [OF rangeI new(4)] that show ?thesis by (simp add: keeps_latch_def)
  qed
  then show ?case by simp
qed simp

lemma adds_bindp: "adds p 0 \<Longrightarrow> (\<And>x. adds (g x) m) \<Longrightarrow> adds (bindp p g) m"
  by (induction p) auto

lemma adds_then_Ret: "adds p m \<Longrightarrow> adds (bindp p (\<lambda>x. Ret (h x))) m"
proof (induction p arbitrary: m)
  case (Step u c)
  have "keeps_latch w (u w) \<and> (job_count (u w) = job_count w \<and> adds (bindp (c w) (\<lambda>x. Ret (h x))) m \<or>
      (\<exists>k. m = Suc k \<and> job_count (u w) = Suc (job_count w) \<and> adds (bindp (c w) (\<lambda>x. Ret (h x))) k))" for w
    using Step.prems
  proof (cases rule: adds_StepE [where w = w])
    case same
    with Step.IH [OF rangeI same(3)] show ?thesis by simp
  next
    case (new k)
    with Step.IH [OF rangeI new(4)] show ?thesis by simp
  qed
  then show ?case by simp
qed simp

lemma latched_adds_weaken: "latched_adds Q p m \<Longrightarrow> (\<And>x. Q x \<Longrightarrow> Q' x) \<Longrightarrow> latched_adds Q' p m"
proof (induction p arbitrary: m)
  case (Step u c)
  have "latched_adds Q (c w) k \<longrightarrow> latched_adds Q' (c w) k" for w k
    using Step.IH [OF rangeI] Step.prems(2) by blast
  with Step.prems(1) show ?case by auto
qed simp

lemma adds_act: "(\<And>w. keeps_latch w (snd (f w)) \<and> job_count (snd (f w)) = job_count w) \<Longrightarrow> adds (act f) m"
  by (simp add: act_def)

lemma frame_keeps: "frame P w w' \<Longrightarrow> keeps_latch w w'"
  by (simp add: keeps_latch_def frame_def)

lemma adds_quiet: "(\<And>w. interrupted (snd (f w)) = interrupted w) \<Longrightarrow> (\<And>w. db (snd (f w)) = db w) \<Longrightarrow> adds (act f) m"
  by (rule adds_act) (simp add: keeps_latch_def job_count_def)

lemma adds_frame: "(\<And>w. frame P w (snd (f w))) \<Longrightarrow> (\<And>w. db (snd (f w)) = db w) \<Longrightarrow> adds (act f) m"
  by (rule adds_quiet) (simp_all add: frame_def)

lemma adds_Ret: "adds (Ret x) m"
  by simp

lemma update_tx_count: "job_count (snd (update_tx e jid n st f a b by_whom w)) = job_count w"
proof (cases "update_tx e jid n st f a b by_whom w")
  case (Pair res w')
  show ?thesis
  proof (cases res)
    case None
    obtain now where "db w' = committed n (f now) a b by_whom now (db w)"
      by (rule update_tx_None [OF Pair [unfolded None]])
    then show ?thesis by (simp add: Pair job_count_def)
  next
    case (Some err)
    with update_tx_Some [OF Pair [unfolded Some]] Pair show ?thesis by (simp add: job_count_def)
  qed
qed

lemma update_read_frame: "store_frame w (snd (update_read e jid b w))"
  using Store_Get_frame [of w e jid] by (auto simp: update_read_def split: store_splits)

lemma adds_updates:
  "adds (UpdateStatus_p e jid b why by_whom) m" "adds (UpdatePID_p e jid pid pgid by_whom) m"
proof -
  have rd: "adds (act (update_read e jid b')) 0" for b'
    by (rule adds_frame [OF update_read_frame]) simp
  have wr: "adds (act (update_write e jid n a b why by_whom)) m" "adds (act (update_pid_write e jid n a pid pgid by_whom)) m" for n a
    by (rule adds_act, simp add: update_write_def update_pid_write_def update_tx_count frame_keeps [OF update_tx_frame])+
  show "adds (UpdateStatus_p e jid b why by_whom) m" unfolding UpdateStatus_p_def
    by (rule adds_bindp [OF rd]) (simp add: wr split: sum.split prod.split)
  show "adds (UpdatePID_p e jid pid pgid by_whom) m" unfolding UpdatePID_p_def
    by (rule adds_bindp [OF rd]) (simp add: wr split: sum.split prod.split)
qed

lemma adds_reads:
  "adds (act (Store_Get e jid)) m" "adds (act (Store_List e)) m"
  "adds (act (Store_ListTerminal e)) m" "adds (act (Store_History e jid)) m"
  "adds (act (validateHookPath e fl p)) m" "adds (act (validateCheckpointDir e p h)) m"
  "adds (act (os_RemoveAll e p)) m" "adds (act (KillGroup e pid sig)) m"
  "adds (act (now_utc e)) m" "adds latched_p m" "adds set_latch_p m"
  "adds (log_p dm e a j out det) m" "adds (act (notify_build dm e sg js)) m"
proof -
  show "adds set_latch_p m" unfolding set_latch_p_def by (rule adds_act) (simp add: keeps_latch_def job_count_def)
qed (simp_all add: adds_quiet latched_p_def log_p_def adds_frame [OF Store_Get_frame] adds_frame [OF Store_List_frame]
    adds_frame [OF Store_ListTerminal_frame] adds_frame [OF Store_History_frame] adds_frame [OF KillGroup_frame])

lemma adds_runner:
  "runner_ok dm \<Longrightarrow> adds (act (d_checkpointFunc dm e dir j)) m"
  "runner_ok dm \<Longrightarrow> adds (act (d_resumeFunc dm e dir hook jid)) m"
  by (rule adds_quiet; metis prod.collapse runner_db(1))
    (rule adds_quiet; metis prod.collapse runner_db(2))

lemma adds_cases:
  "(\<And>t. adds (f t) m) \<Longrightarrow> adds g m \<Longrightarrow> adds (case v of Some t \<Rightarrow> f t | None \<Rightarrow> g) m"
  "(\<And>x. adds (h x) m) \<Longrightarrow> (\<And>y. adds (k y) m) \<Longrightarrow> adds (case s of Inl x \<Rightarrow> h x | Inr y \<Rightarrow> k y) m"
  "adds p m \<Longrightarrow> adds q m \<Longrightarrow> adds (if b then p else q) m"
  "(\<And>x y. adds (r x y) m) \<Longrightarrow> adds (case z of (x, y) \<Rightarrow> r x y) m"
  by (simp_all split: option.split sum.split prod.split)

lemmas adds_intros = adds_bindp adds_reads adds_runner adds_updates adds_Ret

lemma adds_prune_jobs_p: "adds (prune_jobs_p e js) m"
proof (induction js arbitrary: m)
  case (Cons j js)
  show ?case by (simp only: prune_jobs_p.simps) (intro adds_intros adds_cases Cons.IH)
qed simp

lemma adds_update_answer: "adds (update_answer e jid u) m"
  unfolding update_answer_def by (intro adds_cases adds_intros)

lemma adds_jobs:
  assumes "runner_ok dm"
  shows "adds (checkpointJob_p dm e j by_whom) m" "adds (resumeJob_p dm e j by_whom) m"
  unfolding checkpointJob_p_def resumeJob_p_def by (intro adds_cases adds_intros assms)+

lemma adds_handlers:
  assumes "runner_ok dm"
  shows "adds (handleList_p e) m" "adds (handleShow_p e req) m"
    "adds (handlePause_p dm e req) m" "adds (handleResume_p dm e req) m"
    "adds (handleCancel_p e req) m" "adds (handleComplete_p e req) m" "adds (handlePrune_p e req) m"
  unfolding handleList_p_def handleShow_p_def handlePause_p_def handleResume_p_def handleCancel_p_def
    handleComplete_p_def handlePrune_p_def Let_def
  by (intro adds_cases adds_intros adds_jobs adds_prune_jobs_p adds_update_answer assms)+

lemma adds_insert: "(\<And>x. adds (g x) 0) \<Longrightarrow> adds (bindp (act (Store_Insert e j)) g) 1"
proof -
  assume g: "\<And>x. adds (g x) 0"
  have "job_count (snd (Store_Insert e j w)) \<in> {job_count w, Suc (job_count w)}" for w
    using Store_Insert_cases [of e j w "fst (Store_Insert e j w)" "snd (Store_Insert e j w)"]
    by (auto simp: job_count_def insert_job_row_def)
  with g adds_mono [OF g] frame_keeps [OF Store_Insert_frame] show ?thesis
    by (auto simp: bindp_act)
qed

lemma adds_dir: "adds (act (Store_UpdateCheckpointDir e jid dir)) m"
proof (rule adds_act, intro conjI)
  show "keeps_latch w (snd (Store_UpdateCheckpointDir e jid dir w))" for w
    by (rule frame_keeps [OF Store_UpdateCheckpointDir_frame])
  show "job_count (snd (Store_UpdateCheckpointDir e jid dir w)) = job_count w" for w
    using Store_UpdateCheckpointDir_cases [of e jid dir w "fst (Store_UpdateCheckpointDir e jid dir w)"
        "snd (Store_UpdateCheckpointDir e jid dir w)"] by (auto simp: job_count_def update_jobs_def)
qed

lemma adds_new_jobs: "adds (handleRegister_p dm e req) 1" "adds (handleAdopt_p dm e req) 1"
  unfolding handleRegister_p_def handleAdopt_p_def
  by (intro adds_cases adds_insert adds_intros adds_dir)+

text \<open>Only a connection can insert a job, and it inserts one at most.\<close>

fun new_jobs :: "thread_label \<Rightarrow> nat" where
  "new_jobs (Conn _) = 1"
| "new_jobs _ = 0"

lemma adds_goroutine:
  assumes "runner_ok dm"
  shows "adds (goroutine dm e l) (new_jobs l)"
proof -
  have "adds (dispatch_p dm e req) 1" for req
    unfolding dispatch_p_def by (intro adds_cases adds_handlers [OF assms] adds_new_jobs adds_Ret)
  then have "adds (bindp (dispatch_p dm e req) (\<lambda>resp. Ret (h resp))) 1" for req and h :: "Response \<Rightarrow> thread_end"
    by (rule adds_then_Ret)
  then have "adds (handleConn_p dm e bytes) 1" for bytes
    unfolding handleConn_p_def by (intro adds_cases adds_Ret)
  moreover have "adds (handleInterruption_p dm e sg) 0" for sg
    unfolding handleInterruption_p_def Let_def by (intro adds_cases adds_intros)
  moreover have "adds (checkpoint_thread dm e j) 0" for j
    unfolding checkpoint_thread_def by (intro adds_bindp adds_jobs adds_Ret assms)
  moreover have "adds (notify_thread dm e payload) 0" for payload
    unfolding notify_thread_def by (intro adds_cases adds_bindp adds_reads adds_Ret adds_quiet) simp_all
  ultimately show ?thesis by (cases l) simp_all
qed

interpretation latch_pool: pool_contract "daemon_New numCPU cfg" e "\<lambda>_. True" keeps_latch
  "\<lambda>w l p. adds p (new_jobs l)" for numCPU cfg e
proof
  show "adds (goroutine (daemon_New numCPU cfg) e l) (new_jobs l)" for l
    by (rule adds_goroutine) simp
  show "True \<and> keeps_latch w (u w) \<and> adds (c w) (new_jobs l)"
    if "adds (Step u c) (new_jobs l)" for w l u and c :: "world \<Rightarrow> thread_end prog"
    using that by (cases rule: adds_StepE [where w = w]) (auto intro: adds_mono)
qed (auto simp: keeps_latch_def)

text \<open>After the signal, a connection inserts nothing, and the three requests are refused.\<close>

definition refused :: "thread_label \<Rightarrow> thread_end \<Rightarrow> bool" where
  "refused l t \<longleftrightarrow> (\<forall>bytes req. l = Conn bytes \<longrightarrow> read_request bytes = Some req \<longrightarrow>
     rq_Action req \<in> {''register'', ''adopt'', ''pause''} \<longrightarrow>
     (\<exists>rs. t = Answered (write_response rs) \<and> \<not> rs_OK rs))"

lemma latched_then_Ret:
  "latched_adds Q p m \<Longrightarrow> (\<And>x. Q x \<Longrightarrow> Q' (h x)) \<Longrightarrow> latched_adds Q' (bindp p (\<lambda>x. Ret (h x))) m"
proof (induction p arbitrary: m)
  case (Step u c)
  have "latched_adds Q (c w) k \<longrightarrow> latched_adds Q' (bindp (c w) (\<lambda>x. Ret (h x))) k" for w k
    using Step.IH [OF rangeI] Step.prems(2) by blast
  with Step.prems(1) show ?case by auto
qed simp

lemma latched_handlers:
  "latched_adds (\<lambda>rs. \<not> rs_OK rs) (handleRegister_p dm e req) 0"
  "latched_adds (\<lambda>rs. \<not> rs_OK rs) (handleAdopt_p dm e req) 0"
  "latched_adds (\<lambda>rs. \<not> rs_OK rs) (handlePause_p dm e req) 0"
  by (auto simp: handleRegister_p_def handleAdopt_p_def handlePause_p_def latched_p_def bindp_act split: option.split)

lemma latched_goroutine:
  assumes "runner_ok dm"
  shows "latched_adds (refused l) (goroutine dm e l) 0"
proof (cases "new_jobs l = 0")
  case True
  then have "latched_adds (\<lambda>_. True) (goroutine dm e l) 0" using adds_goroutine [OF assms, of e l] by (metis adds_latched)
  moreover have "refused l = (\<lambda>_. True)" using True by (cases l) (auto simp: refused_def)
  ultimately show ?thesis by simp
next
  case False
  then obtain bytes where l: "l = Conn bytes" by (cases l) auto
  show ?thesis
  proof (cases "read_request bytes")
    case None
    then show ?thesis by (simp add: l handleConn_p_def refused_def)
  next
    case (Some req)
    let ?answer = "\<lambda>rs. Answered (write_response rs)"
    have "latched_adds (\<lambda>rs. refused l (?answer rs)) (dispatch_p dm e req) 0"
    proof (cases "rq_Action req \<in> {''register'', ''adopt'', ''pause''}")
      case True
      then have "latched_adds (\<lambda>rs. \<not> rs_OK rs) (dispatch_p dm e req) 0"
        by (elim insertE emptyE) (simp_all add: dispatch_p_def latched_handlers)
      then show ?thesis by (rule latched_adds_weaken) (auto simp: refused_def)
    next
      case False
      then have "rq_Action req \<noteq> ''register''" "rq_Action req \<noteq> ''adopt''" by blast+
      then have "adds (dispatch_p dm e req) 0"
        unfolding dispatch_p_def by (simp add: adds_handlers [OF assms])
      then have "latched_adds (\<lambda>_. True) (dispatch_p dm e req) 0" by (rule adds_latched)
      then show ?thesis by (rule latched_adds_weaken) (use False Some in \<open>auto simp: refused_def l\<close>)
    qed
    then show ?thesis unfolding l goroutine.simps handleConn_p_def Some option.case
      by (rule latched_then_Ret) simp
  qed
qed

text \<open>Connections that are not done yet.\<close>

fun unfinished :: "thread_label \<times> thread_end prog \<Rightarrow> bool" where
  "unfinished (Conn _, Step _ _) = True"
| "unfinished _ = False"

definition in_flight :: "(thread_label \<times> thread_end prog) list \<Rightarrow> nat" where
  "in_flight ts = length (filter unfinished ts)"

lemma unfinished_budget:
  "adds p (new_jobs l) \<Longrightarrow> latched_adds (\<lambda>_. True) p (if unfinished (l, p) then 1 else 0)"
  by (rule adds_latched) (cases l; cases p; simp)

lemma in_flight_budgets:
  assumes "\<forall>(l, p) \<in> set ts. adds p (new_jobs l)"
  shows "\<exists>ms. length ms = length ts \<and> sum_list ms = in_flight ts \<and>
    (\<forall>i < length ts. latched_adds (\<lambda>_. True) (snd (ts ! i)) (ms ! i))"
proof -
  let ?m = "\<lambda>t. if unfinished t then 1 else 0 :: nat"
  have "sum_list (map ?m ts) = in_flight ts" by (induction ts) (simp_all add: in_flight_def)
  moreover have "latched_adds (\<lambda>_. True) (snd t) (?m t)" if "t \<in> set ts" for t
    using unfinished_budget [of "snd t" "fst t"] assms that by (auto simp: case_prod_unfold)
  ultimately show ?thesis by (intro exI [of _ "map ?m ts"]) simp
qed

text \<open>
  The state of the daemon after a signal that found the goroutines \<open>ts\<close> and \<open>n\<close> jobs: each of
  those goroutines has a budget of jobs it may still insert, and the later ones have none.
\<close>

definition after_signal :: "(thread_label \<times> thread_end prog) list \<Rightarrow> nat \<Rightarrow> pool \<Rightarrow> bool" where
  "after_signal ts n P \<longleftrightarrow> interrupted (pl_world P) \<and> length ts \<le> length (pl_threads P) \<and>
     (\<exists>ms. length ms = length ts \<and> job_count (pl_world P) + sum_list ms \<le> n + in_flight ts \<and>
       (\<forall>i < length ts. latched_adds (\<lambda>_. True) (snd (pl_threads P ! i)) (ms ! i))) \<and>
     (\<forall>i. length ts \<le> i \<longrightarrow> i < length (pl_threads P) \<longrightarrow>
       latched_adds (refused (fst (pl_threads P ! i))) (snd (pl_threads P ! i)) 0)"

lemma latched_StepE:
  assumes "latched_adds Q (Step u c) m" and "interrupted w"
  obtains (same) "interrupted (u w)" "job_count (u w) = job_count w" "latched_adds Q (c w) m"
    | (new) k where "interrupted (u w)" "m = Suc k" "job_count (u w) = Suc (job_count w)" "latched_adds Q (c w) k"
proof -
  from assms(1) have "interrupted w \<longrightarrow> interrupted (u w) \<and> (job_count (u w) = job_count w \<and> latched_adds Q (c w) m \<or>
      (\<exists>k. m = Suc k \<and> job_count (u w) = Suc (job_count w) \<and> latched_adds Q (c w) k))"
    unfolding latched_adds.simps by (rule spec)
  with assms(2) have "interrupted (u w) \<and> (job_count (u w) = job_count w \<and> latched_adds Q (c w) m \<or>
      (\<exists>k. m = Suc k \<and> job_count (u w) = Suc (job_count w) \<and> latched_adds Q (c w) k))" by (rule rev_mp)
  then show thesis using same new by (elim conjE disjE exE)
qed

lemma after_signal_action:
  assumes "after_signal ts n P" and "i < length (pl_threads P)" and "pl_threads P ! i = (l, Step u c)"
  shows "after_signal ts n \<lparr>pl_world = u (pl_world P), pl_threads = (pl_threads P)[i := (l, c (pl_world P))]\<rparr>"
    (is "after_signal ts n ?P")
proof -
  let ?w = "pl_world P" and ?ts = "pl_threads P"
  obtain ms where ms: "length ms = length ts" "job_count ?w + sum_list ms \<le> n + in_flight ts"
      "\<forall>i < length ts. latched_adds (\<lambda>_. True) (snd (?ts ! i)) (ms ! i)"
    using assms(1) unfolding after_signal_def by blast
  have latch: "interrupted ?w" and len: "length ts \<le> length ?ts"
    and rest: "\<And>i. length ts \<le> i \<Longrightarrow> i < length ?ts \<Longrightarrow> latched_adds (refused (fst (?ts ! i))) (snd (?ts ! i)) 0"
    using assms(1) unfolding after_signal_def by simp_all
  show ?thesis
  proof (cases "i < length ts")
    case True
    have "latched_adds (\<lambda>_. True) (Step u c) (ms ! i)" using ms(3) True assms(3) by fastforce
    then show ?thesis
      using latch
    proof (cases rule: latched_StepE)
      case same
      then have "\<forall>j < length ts. latched_adds (\<lambda>_. True) (snd (?ts[i := (l, c ?w)] ! j)) (ms ! j)"
        using ms(3) by (simp add: nth_list_update assms(2))
      with same ms(1,2) len rest True show ?thesis unfolding after_signal_def
        by (intro conjI exI [of _ ms]) simp_all
    next
      case (new k)
      have "sum_list (ms[i := k]) = sum_list ms + k - ms ! i" using True ms(1) by (simp add: sum_list_update)
      moreover have "ms ! i \<le> sum_list ms" using True ms(1) by (simp add: elem_le_sum_list)
      ultimately have "Suc (job_count ?w) + sum_list (ms[i := k]) \<le> n + in_flight ts" using ms(2) new(2) by linarith
      moreover have "\<forall>j < length ts. latched_adds (\<lambda>_. True) (snd (?ts[i := (l, c ?w)] ! j)) (ms[i := k] ! j)"
        using ms(1,3) new(4) by (simp add: nth_list_update assms(2))
      ultimately show ?thesis using new ms(1) len rest True unfolding after_signal_def
        by (intro conjI exI [of _ "ms[i := k]"]) simp_all
    qed
  next
    case False
    have "latched_adds (refused l) (Step u c) 0" using rest [of i] False assms(2,3) by simp
    then show ?thesis
      using latch
    proof (cases rule: latched_StepE)
      case same
      have "latched_adds (refused (fst (?ts[i := (l, c ?w)] ! j))) (snd (?ts[i := (l, c ?w)] ! j)) 0"
        if "length ts \<le> j" "j < length ?ts" for j
        using rest [OF that] same(3) that(2) by (cases "j = i") simp_all
      with same ms len False show ?thesis unfolding after_signal_def
        by (intro conjI exI [of _ ms]) simp_all
    qed simp
  qed
qed

lemma after_signal_start:
  assumes "after_signal ts n P" and "runner_ok dm"
  shows "after_signal ts n (P\<lparr>pl_threads := pl_threads P @ map (start_thread dm e) ls\<rparr>)"
proof -
  have "latched_adds (refused (fst (start_thread dm e l))) (snd (start_thread dm e l)) 0" for l
    using latched_goroutine [OF assms(2)] by (simp add: start_thread_def)
  with assms(1) show ?thesis unfolding after_signal_def by (auto simp: nth_append)
qed

lemma refused_fanned: "refused l (Fanned js payload) \<Longrightarrow> refused l Ended"
  by (fastforce simp: refused_def)

lemma after_signal_fanned:
  assumes "after_signal ts n P" and "i < length (pl_threads P)" and "pl_threads P ! i = (l, Ret (Fanned js payload))"
  shows "after_signal ts n (P\<lparr>pl_threads := (pl_threads P)[i := (l, Ret Ended)]\<rparr>)"
proof -
  have "length ts \<le> i \<longrightarrow> refused l Ended"
    using assms refused_fanned by (auto simp: after_signal_def)
  with assms show ?thesis unfolding after_signal_def
    by (elim conjE exE) (intro conjI exI; force simp: nth_list_update)
qed

lemma after_signal_run:
  assumes "(pool_step dm e)\<^sup>*\<^sup>* P P'" and "runner_ok dm" and "after_signal ts n P"
  shows "after_signal ts n P'"
  using assms(1,3)
proof (induction rule: rtranclp_induct)
  case (step Q R)
  then have Q: "after_signal ts n Q" by blast
  from step.hyps(2) Q show ?case
  proof (cases rule: pool_step.cases)
    case (accept bytes)
    with after_signal_start [OF Q assms(2), of e "[Conn bytes]"] show ?thesis by simp
  next
    case (signal sg)
    with after_signal_start [OF Q assms(2), of e "[Provider sg]"] show ?thesis by simp
  next
    case (action i l u c)
    with after_signal_action [OF Q] show ?thesis by simp
  next
    case (fan i l js payload)
    with after_signal_start [OF after_signal_fanned [OF Q] assms(2)] show ?thesis by simp
  qed
qed

text \<open>
  Claim C2. From an interruption signal on, under every interleaving: the latch stays set; every
  connection accepted after it that asks to register, adopt or pause is answered, when it is
  answered, with an error; and jobs are still added only by connections that were being served
  when the latch was set, at most one each, so none at all if there was none.
\<close>

theorem latch_concurrent:
  assumes "(pool_step (daemon_New numCPU cfg) e)\<^sup>*\<^sup>* (idle w) P" and "interrupted (pl_world P)"
    and "(pool_step (daemon_New numCPU cfg) e)\<^sup>*\<^sup>* P P'"
  shows "interrupted (pl_world P') \<and>
    length (jobs_rows (db (pl_world P'))) \<le> length (jobs_rows (db (pl_world P))) + in_flight (pl_threads P) \<and>
    (\<forall>i bytes req out. length (pl_threads P) \<le> i \<longrightarrow> i < length (pl_threads P') \<longrightarrow>
       pl_threads P' ! i = (Conn bytes, Ret (Answered out)) \<longrightarrow> read_request bytes = Some req \<longrightarrow>
       rq_Action req \<in> {''register'', ''adopt'', ''pause''} \<longrightarrow>
       (\<exists>rs. out = write_response rs \<and> \<not> rs_OK rs))"
proof -
  let ?ts = "pl_threads P" and ?n = "job_count (pl_world P)"
  have "\<forall>(l, p) \<in> set ?ts. adds p (new_jobs l)"
    using latch_pool.run_good [OF assms(1) latch_pool.idle_good] by (simp add: pool_good_def)
  from in_flight_budgets [OF this] assms(2) have "after_signal ?ts ?n P" by (auto simp: after_signal_def)
  from after_signal_run [OF assms(3) New_runner_ok this] have *: "after_signal ?ts ?n P'" .
  then obtain ms where "job_count (pl_world P') + sum_list ms \<le> ?n + in_flight ?ts"
    by (auto simp: after_signal_def)
  then have "length (jobs_rows (db (pl_world P'))) \<le> length (jobs_rows (db (pl_world P))) + in_flight ?ts"
    by (simp add: job_count_def)
  moreover have "\<exists>rs. out = write_response rs \<and> \<not> rs_OK rs"
    if "length ?ts \<le> i" "i < length (pl_threads P')" "pl_threads P' ! i = (Conn bytes, Ret (Answered out))"
      "read_request bytes = Some req" "rq_Action req \<in> {''register'', ''adopt'', ''pause''}" for i bytes req out
  proof -
    have "refused (Conn bytes) (Answered out)" using * that(1-3) by (fastforce simp: after_signal_def)
    then have "\<exists>rs. Answered out = Answered (write_response rs) \<and> \<not> rs_OK rs"
      unfolding refused_def using that(4,5) by blast
    then show ?thesis by simp
  qed
  ultimately show ?thesis using * by (simp add: after_signal_def)
qed

lemma provider_schedule: "(pool_step d e)\<^sup>*\<^sup>* (idle w)
    \<lparr>pl_world = snd (run (handleInterruption_p d e sig) w),
     pl_threads = [(Provider sig, Ret (fst (run (handleInterruption_p d e sig) w)))]\<rparr>"
proof -
  have "pool_step d e (idle w) \<lparr>pl_world = w, pl_threads = [start_thread d e (Provider sig)]\<rparr>"
    using pool_step.signal [of d e "idle w" sig] by (simp add: idle_def)
  moreover have "(pool_step d e)\<^sup>*\<^sup>* \<lparr>pl_world = w, pl_threads = [start_thread d e (Provider sig)]\<rparr>
      \<lparr>pl_world = snd (run (handleInterruption_p d e sig) w),
       pl_threads = [start_thread d e (Provider sig)][0 := (Provider sig, Ret (fst (run (handleInterruption_p d e sig) w)))]\<rparr>"
    by (rule pool_runs_alone) (simp_all add: start_thread_def)
  ultimately show ?thesis by (simp add: converse_rtranclp_into_rtranclp)
qed

text \<open>The goroutine of a signal, run alone, is \<open>interruption_start\<close>.\<close>

lemma handleInterruption_p_run:
  "run (handleInterruption_p d e sig) w =
     (let w1 = logDaemon d e ''interruption_detected'' [] ''ok'' (sig_Trigger sig) (w\<lparr>interrupted := True\<rparr>) in
      (case fst (Store_List e w1) of Inl _ \<Rightarrow> Ended
       | Inr jobs \<Rightarrow> Fanned (fst (fst (interruption_start d e sig w))) (snd (fst (interruption_start d e sig w))),
       snd (interruption_start d e sig w)))"
  by (simp add: handleInterruption_p_def interruption_start_def set_latch_p_def Let_def case_prod_unfold
      split: sum.split)

text \<open>A signal comes while one job runs, and a connection is served after it.\<close>

theorem latch_concurrent_witness:
  "\<exists>P P'. (pool_step sample_daemon quiet_env)\<^sup>*\<^sup>* (idle world_one_job) P \<and> interrupted (pl_world P) \<and>
     (pool_step sample_daemon quiet_env)\<^sup>*\<^sup>* P P' \<and> length (pl_threads P') = Suc (length (pl_threads P)) \<and>
     length (jobs_rows (db (pl_world P'))) \<le> length (jobs_rows (db (pl_world P))) + 0"
proof -
  let ?d = sample_daemon and ?e = quiet_env and ?sig = "\<lparr>sig_Trigger = ''interruption-notice'', sig_Detail = Map.empty\<rparr>"
  let ?v = "snd (run (handleInterruption_p ?d ?e ?sig) world_one_job)"
  let ?ts = "[(Provider ?sig, Ret (fst (run (handleInterruption_p ?d ?e ?sig) world_one_job)))]"
  have latch: "interrupted ?v" by (simp add: handleInterruption_p_run Let_def)
  from latch_concurrent [OF provider_schedule _ conn_schedule, of 4 sample_daemon_config ?e ?sig world_one_job
      "write_request (zero_request\<lparr>rq_Action := ''register''\<rparr>)"] latch
  have "length (jobs_rows (db (snd (handleConn ?d ?e (write_request (zero_request\<lparr>rq_Action := ''register''\<rparr>)) ?v))))
      \<le> length (jobs_rows (db ?v)) + 0" by (simp add: in_flight_def)
  with latch show ?thesis
    using provider_schedule [of ?d ?e world_one_job ?sig]
      conn_schedule [of ?d ?e ?v ?ts "write_request (zero_request\<lparr>rq_Action := ''register''\<rparr>)"]
    by (intro exI conjI) (assumption | simp)+
qed

section \<open>What the latch does not stop\<close>

text \<open>A registration without hooks and with a directory, after its check of the latch.\<close>

lemma register_after_check:
  assumes "rq_Action req = ''register''" and "rq_Job req = Some r" and "rj_HookCheckpoint r = []"
    and "rj_HookResume r = []" and "rj_CheckpointDir r \<noteq> []" and "read_request bytes = Some req"
  obtains c where "handleConn_p d e bytes = Step (\<lambda>w. w) c" and "\<And>w v jid w'. \<not> interrupted w \<Longrightarrow>
    Store_Insert e (registered_job req r (clock e (calls v))) (record_call NowCall v) = (Inr jid, w') \<Longrightarrow>
    run (c w) v = (Answered (write_response (resp_ok\<lparr>rs_JobID := jid\<rparr>)), w')"
  using assms
  by (intro that) (auto simp: handleConn_p_def dispatch_p_def handleRegister_p_def latched_p_def bindp_act
      validateHookPath_def now_utc_def)

lemma listed_before:
  assumes "sql_ok e" and "store_wf S (db w)" and "interruption_start d e sig w = ((js, payload), w')"
    and "jobs_seq (db w) < int64_max"
  shows "FormatInt (jobs_seq (db w) + 1) \<notin> ID ` set js"
proof
  let ?n = "jobs_seq (db w) + 1"
  assume "FormatInt ?n \<in> ID ` set js"
  then obtain j where j: "j \<in> set js" "ID j = FormatInt ?n" by auto
  obtain n where n: "parseID (ID j) = Inr n" "status_at (db w) n = Some StatusRunning"
    using runnable_jobs(2) [OF assms(1-3) j(1)] by blast
  have "in_int64 ?n" using store_wfD(4) [OF assms(2)] assms(4) by (simp add: in_int64_def int64_bounds_values)
  then have "n = ?n" using n(1) j(2) parseID_FormatInt by simp
  then have "select_row row_id ?n (jobs_rows (db w)) \<noteq> None" using n(2) by (auto simp: status_at_def)
  with fresh_id [OF assms(2)] show False by (simp add: select_row_None_iff)
qed

text \<open>
  Claim C22. What the latch does not stop: a registration that has passed its check of the latch when
  the signal comes is still accepted afterwards. There is a schedule in which the signal has set
  the latch and chosen the jobs to checkpoint, and then the registration is answered with OK and
  its job is RUNNING, but is not among the jobs the interruption checkpoints.
\<close>

theorem registration_escapes:
  assumes "sql_ok e" and "store_wf start_statuses (db w)" and "\<not> interrupted w"
    and "jobs_seq (db w) < int64_max" and "read_request bytes = Some req"
    and "rq_Action req = ''register''" and "rq_Job req = Some r" and "rj_HookCheckpoint r = []"
    and "rj_HookResume r = []" and "rj_CheckpointDir r \<noteq> []"
  shows "\<exists>P jid js payload. (pool_step d e)\<^sup>*\<^sup>* (idle w) P \<and> interrupted (pl_world P) \<and>
    pl_threads P = [(Conn bytes, Ret (Answered (write_response (resp_ok\<lparr>rs_JobID := jid\<rparr>)))),
      (Provider sig, Ret (Fanned js payload))] \<and>
    parseID jid = Inr (jobs_seq (db w) + 1) \<and> jid \<notin> ID ` set js \<and>
    status_at (db (pl_world P)) (jobs_seq (db w) + 1) = Some StatusRunning"
proof -
  obtain c where c: "handleConn_p d e bytes = Step (\<lambda>w. w) c" "\<And>w v jid w'. \<not> interrupted w \<Longrightarrow>
    Store_Insert e (registered_job req r (clock e (calls v))) (record_call NowCall v) = (Inr jid, w') \<Longrightarrow>
    run (c w) v = (Answered (write_response (resp_ok\<lparr>rs_JobID := jid\<rparr>)), w')"
    using register_after_check [OF assms(6-10,5)] by blast
  obtain js payload v where st: "interruption_start d e sig w = ((js, payload), v)" by (metis prod.exhaust)
  have v: "db v = db w" "interrupted v" using interruption_start_frame [of d e sig w] st by simp_all
  let ?n = "jobs_seq (db w) + 1" and ?j = "registered_job req r (clock e (calls v))"
  note ready = store_wfD(1) [OF assms(2)]
  obtain w' where ins: "Store_Insert e ?j (record_call NowCall v) = (Inr (FormatInt ?n), w')"
      "db w' = insert_job_row e ?j (db w)"
    using Store_Insert_succeeds [OF assms(1), of "record_call NowCall v" ?j] v(1) ready assms(4)
    by (cases "Store_Insert e ?j (record_call NowCall v)") simp
  have latch: "interrupted w'" using frameD(2) [OF Store_Insert_frame [of "record_call NowCall v" e ?j]] ins(1) v(2) by simp
  let ?w1 = "logDaemon d e ''interruption_detected'' [] ''ok'' (sig_Trigger sig) (w\<lparr>interrupted := True\<rparr>)"
  have wf1: "store_wf start_statuses (db (record_call cc ?w1))" for cc using assms(2) by simp
  have "set (active_rows (db w)) \<subseteq> set (jobs_rows (db w))" by (auto simp: active_rows_def)
  then have "\<exists>jobs. fst (Store_List e ?w1) = Inr jobs"
    using collect_jobs_ok [OF assms(1) wf1, of "active_rows (db w)" "SqlCall SqlSelectActive"] assms(1) ready
    by (auto simp: Store_List_def sql_error_ready sql_def)
  then have sig: "run (handleInterruption_p d e sig) w = (Fanned js payload, v)"
    using st by (auto simp: handleInterruption_p_run Let_def)
  let ?conn = "(Conn bytes, c w)" and ?prov = "(Provider sig, handleInterruption_p d e sig)"
  have "(pool_step d e)\<^sup>*\<^sup>* (idle w) \<lparr>pl_world = w, pl_threads = [(Conn bytes, Step (\<lambda>w. w) c)]\<rparr>"
    using r_into_rtranclp [of "pool_step d e", OF pool_step.accept [of d e "idle w" bytes]] c(1)
    by (simp add: start_thread_def idle_def)
  also have "(pool_step d e)\<^sup>*\<^sup>* \<dots> \<lparr>pl_world = w, pl_threads = [?conn]\<rparr>"
    using pool_step.action [of 0 "\<lparr>pl_world = w, pl_threads = [(Conn bytes, Step (\<lambda>w. w) c)]\<rparr>" "Conn bytes" "\<lambda>w. w" c d e]
    by (intro r_into_rtranclp) simp
  also have "(pool_step d e)\<^sup>*\<^sup>* \<dots> \<lparr>pl_world = w, pl_threads = [?conn, ?prov]\<rparr>"
    using pool_step.signal [of d e "\<lparr>pl_world = w, pl_threads = [?conn]\<rparr>" sig]
    by (intro r_into_rtranclp) (simp add: start_thread_def)
  also have "(pool_step d e)\<^sup>*\<^sup>* \<dots> \<lparr>pl_world = v, pl_threads = [?conn, (Provider sig, Ret (Fanned js payload))]\<rparr>"
    using pool_runs_alone [of 1 "[?conn, ?prov]" "Provider sig" "handleInterruption_p d e sig" d e w] sig by simp
  also have "(pool_step d e)\<^sup>*\<^sup>* \<dots> \<lparr>pl_world = w', pl_threads =
      [(Conn bytes, Ret (Answered (write_response (resp_ok\<lparr>rs_JobID := FormatInt ?n\<rparr>)))), (Provider sig, Ret (Fanned js payload))]\<rparr>"
    using pool_runs_alone [of 0 "[?conn, (Provider sig, Ret (Fanned js payload))]" "Conn bytes" "c w" d e v]
      c(2) [OF assms(3) ins(1)] by simp
  finally have run: "(pool_step d e)\<^sup>*\<^sup>* (idle w) \<lparr>pl_world = w', pl_threads =
      [(Conn bytes, Ret (Answered (write_response (resp_ok\<lparr>rs_JobID := FormatInt ?n\<rparr>)))), (Provider sig, Ret (Fanned js payload))]\<rparr>" .
  have "in_int64 ?n" using store_wfD(4) [OF assms(2)] assms(4) by (simp add: in_int64_def int64_bounds_values)
  then have "parseID (FormatInt ?n) = Inr ?n" by (rule parseID_FormatInt)
  moreover have "status_at (db w') ?n = Some StatusRunning"
    using status_at_insert [OF _ fresh_id [OF assms(2)], of ?j e] ins(2) by (simp add: registered_job_def)
  ultimately show ?thesis
    using run latch listed_before [OF assms(1,2) st assms(4)]
    by (intro exI [of _ "\<lparr>pl_world = w', pl_threads =
      [(Conn bytes, Ret (Answered (write_response (resp_ok\<lparr>rs_JobID := FormatInt ?n\<rparr>)))), (Provider sig, Ret (Fanned js payload))]\<rparr>"]
      exI [of _ "FormatInt ?n"] exI [of _ js] exI [of _ payload]) simp
qed

definition escape_request :: Request where
  "escape_request = zero_request\<lparr>rq_Action := ''register'', rq_Job := Some (sample_register\<lparr>
     rj_HookCheckpoint := [], rj_CheckpointDir := ''/ckpt/a''\<rparr>)\<rparr>"

theorem registration_escapes_witness:
  "\<exists>P jid js payload. (pool_step sample_daemon quiet_env)\<^sup>*\<^sup>* (idle empty_world) P \<and> interrupted (pl_world P) \<and>
     pl_threads P ! 1 = (Provider \<lparr>sig_Trigger = ''interruption-notice'', sig_Detail = Map.empty\<rparr>, Ret (Fanned js payload)) \<and>
     parseID jid = Inr 1 \<and> jid \<notin> ID ` set js \<and> status_at (db (pl_world P)) 1 = Some StatusRunning"
proof -
  let ?sig = "\<lparr>sig_Trigger = ''interruption-notice'', sig_Detail = Map.empty\<rparr>"
  let ?r = "sane_register (sample_register\<lparr>rj_HookCheckpoint := [], rj_CheckpointDir := ''/ckpt/a''\<rparr>)"
  have ints: "request_ints_ok escape_request"
    by (simp add: request_ints_ok_def escape_request_def zero_request_def sample_register_def in_int64_def int64_bounds_values)
  have act: "rq_Action (sane_request escape_request) = ''register''" "rq_Job (sane_request escape_request) = Some ?r"
    by (simp_all add: sane_request_def escape_request_def sanitize_ascii ascii_def)
  have r: "rj_HookCheckpoint ?r = []" "rj_HookResume ?r = []" "rj_CheckpointDir ?r \<noteq> []"
    by (simp_all add: sane_register_def sample_register_def sanitize_ascii ascii_def)
  have w: "\<not> interrupted empty_world" "jobs_seq (db empty_world) < int64_max" "jobs_seq (db empty_world) = 0"
    by (simp_all add: empty_world_def empty_db_def int64_bounds_values)
  obtain P jid js payload where P: "(pool_step sample_daemon quiet_env)\<^sup>*\<^sup>* (idle empty_world) P"
    "interrupted (pl_world P)"
    "pl_threads P = [(Conn (write_request escape_request), Ret (Answered (write_response (resp_ok\<lparr>rs_JobID := jid\<rparr>)))),
      (Provider ?sig, Ret (Fanned js payload))]"
    "parseID jid = Inr 1" "jid \<notin> ID ` set js" "status_at (db (pl_world P)) 1 = Some StatusRunning"
    using registration_escapes [OF sql_ok_quiet empty_world_wf w(1,2) decode_request [OF ints] act r, of sample_daemon ?sig]
    unfolding w(3) by auto
  then show ?thesis by (intro exI [of _ P] exI [of _ jid] exI [of _ js] exI [of _ payload]) simp
qed

end
