(* ===== verification/Flags.thy ===== *)
theory Flags
  imports Gostrings
begin

text \<open>
  Command line flags, as Go's package \<open>flag\<close> reads them for the subcommands of
  \<open>cmd/surviva\<close>: \<open>-name value\<close>, \<open>-name=value\<close>, one or two dashes, \<open>--\<close> or the first argument that
  is not a flag ends them. Every set is created with \<open>ExitOnError\<close>, so an error ends the
  process with status 2 after its text and the usage, and \<open>-h\<close> with status 0 after the usage.

  The value of a flag is kept as text, \<open>true\<close> and \<open>false\<close> for a boolean one.
\<close>

record flag_spec =
  fl_name :: string
  fl_bool :: bool
  fl_default :: string
  fl_usage :: string

type_synonym flag_values = "string \<Rightarrow> string"

datatype flag_result =
    FlagHelp
  | FlagError string
  | Parsed flag_values "string list"

definition string_flag :: "string \<Rightarrow> string \<Rightarrow> string \<Rightarrow> flag_spec" where
  "string_flag name val usage = \<lparr>fl_name = name, fl_bool = False, fl_default = val, fl_usage = usage\<rparr>"

definition bool_flag :: "string \<Rightarrow> string \<Rightarrow> flag_spec" where
  "bool_flag name usage = \<lparr>fl_name = name, fl_bool = True, fl_default = ''false'', fl_usage = usage\<rparr>"

text \<open>\<open>strconv.ParseBool\<close>, as the text it leaves.\<close>

definition ParseBool :: "string \<Rightarrow> string option" where
  "ParseBool s =
     (if s \<in> set [''1'', ''t'', ''T'', ''TRUE'', ''true'', ''True''] then Some ''true''
      else if s \<in> set [''0'', ''f'', ''F'', ''FALSE'', ''false'', ''False''] then Some ''false''
      else None)"

text \<open>The name and, if there is an equals sign past the first byte, the value.\<close>

definition split_flag :: "string \<Rightarrow> string \<times> string option" where
  "split_flag s = (case Cut (CHR ''='') (tl s) of
     None \<Rightarrow> (s, None) | Some (n, v) \<Rightarrow> (take 1 s @ n, Some v))"

definition flag_spec_of :: "flag_spec list \<Rightarrow> string \<Rightarrow> flag_spec option" where
  "flag_spec_of specs name = find (\<lambda>f. fl_name f = name) specs"

text \<open>One flag that has been recognised: the error, or the new values and the arguments left.\<close>

definition set_flag ::
  "unicode_tables \<Rightarrow> flag_spec \<Rightarrow> string option \<Rightarrow> string list \<Rightarrow> flag_values \<Rightarrow> string + flag_values \<times> string list" where
  "set_flag u f val args vs =
     (if fl_bool f then
        (case val of
           None \<Rightarrow> Inr (vs(fl_name f := ''true''), args)
         | Some v \<Rightarrow> (case ParseBool v of
              None \<Rightarrow> Inl (''invalid boolean value '' @ quote u v @ '' for -'' @ fl_name f @ '': parse error'')
            | Some b \<Rightarrow> Inr (vs(fl_name f := b), args)))
      else
        (case (val, args) of
           (Some v, _) \<Rightarrow> Inr (vs(fl_name f := v), args)
         | (None, a # rest) \<Rightarrow> Inr (vs(fl_name f := a), rest)
         | (None, []) \<Rightarrow> Inl (''flag needs an argument: -'' @ fl_name f)))"

lemma set_flag_shorter: "set_flag u f val args vs = Inr (vs', rest) \<Longrightarrow> length rest \<le> length args"
  by (auto simp: set_flag_def split: if_splits option.splits list.splits)

function parse_flags ::
  "unicode_tables \<Rightarrow> flag_spec list \<Rightarrow> string list \<Rightarrow> flag_values \<Rightarrow> flag_result" where
  "parse_flags u specs [] vs = Parsed vs []"
| "parse_flags u specs (s # args) vs =
     (if length s < 2 \<or> s ! 0 \<noteq> CHR ''-'' then Parsed vs (s # args)
      else if s = ''--'' then Parsed vs args
      else (let name = drop (if s ! 1 = CHR ''-'' then 2 else 1) s in
        if name = [] \<or> name ! 0 = CHR ''-'' \<or> name ! 0 = CHR ''='' then FlagError (''bad flag syntax: '' @ s)
        else (case split_flag name of (name, val) \<Rightarrow>
          (case flag_spec_of specs name of
             None \<Rightarrow> (if name = ''help'' \<or> name = ''h'' then FlagHelp
                      else FlagError (''flag provided but not defined: -'' @ name))
           | Some f \<Rightarrow> (case set_flag u f val args vs of
                Inl t \<Rightarrow> FlagError t
              | Inr (vs, rest) \<Rightarrow> parse_flags u specs rest vs)))))"
  by pat_completeness auto
termination
  by (relation "measure (\<lambda>(u, specs, args, vs). length args)") (auto dest!: set_flag_shorter)

declare parse_flags.simps(2) [simp del]

definition flag_defaults :: "flag_spec list \<Rightarrow> flag_values" where
  "flag_defaults specs name = (case flag_spec_of specs name of None \<Rightarrow> [] | Some f \<Rightarrow> fl_default f)"

definition flag_Parse :: "unicode_tables \<Rightarrow> flag_spec list \<Rightarrow> string list \<Rightarrow> flag_result" where
  "flag_Parse u specs args = parse_flags u specs args (flag_defaults specs)"

section \<open>The usage text\<close>

text \<open>\<open>PrintDefaults\<close> goes through the flags in the order of their names.\<close>

fun name_less :: "string \<Rightarrow> string \<Rightarrow> bool" where
  "name_less _ [] = False"
| "name_less [] (_ # _) = True"
| "name_less (a # as) (b # bs) =
     (if a = b then name_less as bs else (of_char a :: nat) < of_char b)"

fun insert_flag :: "flag_spec \<Rightarrow> flag_spec list \<Rightarrow> flag_spec list" where
  "insert_flag f [] = [f]"
| "insert_flag f (g # gs) = (if name_less (fl_name g) (fl_name f) then g # insert_flag f gs else f # g # gs)"

definition flag_help :: "unicode_tables \<Rightarrow> flag_spec \<Rightarrow> string" where
  "flag_help u f =
     (let start = ''  -'' @ fl_name f @ (if fl_bool f then [] else '' string'') in
      start @ (if length start \<le> 4 then [CHR 0x09] else newline @ ''    '' @ [CHR 0x09]) @ fl_usage f @
      (if fl_default f = (if fl_bool f then ''false'' else []) then []
       else '' (default '' @ (if fl_bool f then fl_default f else quote u (fl_default f)) @ '')'') @ newline)"

definition flag_usage :: "unicode_tables \<Rightarrow> string \<Rightarrow> flag_spec list \<Rightarrow> string" where
  "flag_usage u cmd specs =
     ''Usage of '' @ cmd @ '':'' @ newline @ concat (map (flag_help u) (foldr insert_flag specs []))"

section \<open>Reading back what was written\<close>

text \<open>\<open>-name=value\<close>.\<close>

definition write_flag :: "string \<times> string \<Rightarrow> string" where
  "write_flag p = CHR ''-'' # fst p @ CHR ''='' # snd p"

text \<open>A setting the parser takes as it stands: a known flag, and a boolean one written out.\<close>

definition writable_flag :: "flag_spec list \<Rightarrow> string \<times> string \<Rightarrow> bool" where
  "writable_flag specs p \<longleftrightarrow> fst p \<noteq> [] \<and> CHR ''='' \<notin> set (fst p) \<and> hd (fst p) \<noteq> CHR ''-'' \<and>
     (case flag_spec_of specs (fst p) of None \<Rightarrow> False
      | Some f \<Rightarrow> fl_bool f \<longrightarrow> snd p \<in> {''true'', ''false''})"

lemma Cut_written: "sep \<notin> set n \<Longrightarrow> Cut sep (n @ sep # v) = Some (n, v)"
  by (induction n) auto

lemma split_written: "n \<noteq> [] \<Longrightarrow> CHR ''='' \<notin> set n \<Longrightarrow> split_flag (n @ CHR ''='' # v) = (n, Some v)"
  by (cases n) (auto simp: split_flag_def Cut_written)

lemma flag_spec_name: "flag_spec_of specs name = Some f \<Longrightarrow> fl_name f = name"
  by (auto simp: flag_spec_of_def find_Some_iff)

lemma ParseBool_written: "v = ''true'' \<or> v = ''false'' \<Longrightarrow> ParseBool v = Some v"
  by (erule disjE) (simp_all add: ParseBool_def)

lemma parse_written:
  assumes "writable_flag specs p"
  shows "parse_flags u specs (write_flag p # args) vs = parse_flags u specs args (vs(fst p := snd p))"
proof -
  obtain n v where p: "p = (n, v)" by fastforce
  obtain f where f: "flag_spec_of specs n = Some f" and b: "fl_bool f \<longrightarrow> v \<in> {''true'', ''false''}"
    using assms by (auto simp: writable_flag_def p split: option.splits)
  have name: "n \<noteq> []" "hd n \<noteq> CHR ''-''" and eq: "CHR ''='' \<notin> set n"
    using assms by (simp_all add: writable_flag_def p)
  obtain c cs where n: "n = c # cs" using name by (cases n) simp_all
  have c: "c \<noteq> CHR ''-''" "c \<noteq> CHR ''=''" using name eq unfolding n by (simp, metis list.set_intros(1))
  have "ParseBool v = Some v" if "fl_bool f" using b that by (simp add: ParseBool_written)
  then have "set_flag u f (Some v) args vs = Inr (vs(n := v), args)"
    by (simp add: set_flag_def flag_spec_name [OF f])
  moreover have "split_flag (n @ CHR ''='' # v) = (n, Some v)" by (rule split_written) (simp_all add: name eq)
  ultimately show ?thesis using c f by (simp add: parse_flags.simps(2) p write_flag_def n Let_def)
qed

lemma parse_all_written:
  assumes "\<forall>p \<in> set ps. writable_flag specs p"
  shows "parse_flags u specs (map write_flag ps @ args) vs =
    parse_flags u specs args (fold (\<lambda>p vs. vs(fst p := snd p)) ps vs)"
  using assms by (induction ps arbitrary: vs) (simp_all add: parse_written)

text \<open>
  The flag parser gives a command exactly the settings that were written and exactly the arguments
  after \<open>--\<close>, whatever these look like: nothing in a job's own command line is taken for a
  flag of surviva's, and a later setting of a flag overrides an earlier one.
\<close>

lemma flags_round_trip:
  assumes "\<forall>p \<in> set ps. writable_flag specs p"
  shows "flag_Parse u specs (map write_flag ps @ ''--'' # args) =
    Parsed (fold (\<lambda>p vs. vs(fst p := snd p)) ps (flag_defaults specs)) args"
  unfolding flag_Parse_def parse_all_written [OF assms] by (simp add: parse_flags.simps(2))

end
