(* ===== verification/Imds.thy ===== *)
theory Imds
  imports Messages
begin

text \<open>
  Watching for an interruption on EC2: the instance metadata client and the poller
  (\<open>internal/imds\<close>), the provider that turns their findings into signals
  (\<open>internal/daemon/provider/aws\<close>), and the notification targets
  (\<open>internal/daemon/notify/aws\<close>).

  The metadata service is the environment: every HTTP exchange and every reading of the
  clock is recorded in \<open>ic_calls\<close>, newest first, and answered as a function of what went
  before. The AWS SDK is a parameter of the notifiers. What is only printed to the log is
  not modelled.
\<close>

section \<open>The metadata service\<close>

datatype imds_call =
    ImdsNow
  | TokenPut string string \<comment> \<open>URL and the requested lifetime in seconds\<close>
  | MetaGet string string \<comment> \<open>URL and token\<close>

record http_reply =
  hr_status :: int
  hr_body :: "string + string" \<comment> \<open>\<open>Inl\<close>: the body could not be read\<close>

record imds_env =
  im_now :: "imds_call list \<Rightarrow> time"
  im_bad_url :: "string \<Rightarrow> string option" \<comment> \<open>the error of \<open>NewRequest\<close>\<close>
  im_http :: "imds_call list \<Rightarrow> imds_call \<Rightarrow> string + http_reply"
  im_json_error :: "string \<Rightarrow> string"
  im_lenient :: "string \<Rightarrow> time option"

record imds_client =
  ic_baseURL :: string
  ic_token :: string
  ic_tokenExpiry :: time
  ic_calls :: "imds_call list"

definition second :: duration where "second = 1000000000"
definition tokenTTL :: duration where "tokenTTL = 6 * 3600 * second"
definition tokenRefreshSlop :: duration where "tokenRefreshSlop = 30 * second"
definition defaultBaseURL :: string where "defaultBaseURL = ''http://169.254.169.254''"
definition pathToken :: string where "pathToken = ''/latest/api/token''"
definition pathRebalanceRecommend :: string where
  "pathRebalanceRecommend = ''/latest/meta-data/events/recommendations/rebalance''"
definition pathSpotInstanceAction :: string where
  "pathSpotInstanceAction = ''/latest/meta-data/spot/instance-action''"
definition pathInstanceID :: string where "pathInstanceID = ''/latest/meta-data/instance-id''"
definition pathAvailabilityZone :: string where
  "pathAvailabilityZone = ''/latest/meta-data/placement/availability-zone''"

definition imds_NewClient :: "(string \<Rightarrow> string) \<Rightarrow> imds_client" where
  "imds_NewClient getenv =
     \<lparr>ic_baseURL = (if getenv ''SURVIVA_IMDS_ENDPOINT'' \<noteq> [] then getenv ''SURVIVA_IMDS_ENDPOINT'' else defaultBaseURL),
      ic_token = [], ic_tokenExpiry = 0, ic_calls = []\<rparr>"

definition imds_record :: "imds_call \<Rightarrow> imds_client \<Rightarrow> imds_client" where
  "imds_record x c = c\<lparr>ic_calls := x # ic_calls c\<rparr>"

definition imds_Now :: "imds_env \<Rightarrow> imds_client \<Rightarrow> time \<times> imds_client" where
  "imds_Now ie c = (im_now ie (ic_calls c), imds_record ImdsNow c)"

definition http_Do :: "imds_env \<Rightarrow> imds_call \<Rightarrow> imds_client \<Rightarrow> (string + http_reply) \<times> imds_client" where
  "http_Do ie x c = (im_http ie (ic_calls c) x, imds_record x c)"

section \<open>The client\<close>

definition token_fresh :: "imds_env \<Rightarrow> imds_client \<Rightarrow> bool \<times> imds_client" where
  "token_fresh ie c = (if ic_token c = [] then (False, c)
     else (case imds_Now ie c of (now, c) \<Rightarrow> (now < ic_tokenExpiry c - tokenRefreshSlop, c)))"

definition getToken :: "imds_env \<Rightarrow> imds_client \<Rightarrow> (string + string) \<times> imds_client" where
  "getToken ie c = (case token_fresh ie c of (fresh, c) \<Rightarrow>
     if fresh then (Inr (ic_token c), c)
     else (let url = ic_baseURL c @ pathToken in
       case im_bad_url ie url of
         Some t \<Rightarrow> (Inl (''build token request: '' @ t), c)
       | None \<Rightarrow> (case http_Do ie (TokenPut url (FormatInt (tokenTTL div second))) c of
            (Inl t, c) \<Rightarrow> (Inl (''fetch imds token: '' @ t), c)
          | (Inr resp, c) \<Rightarrow> (case hr_body resp of
               Inl t \<Rightarrow> (Inl (''read imds token response: '' @ t), c)
             | Inr body \<Rightarrow>
                 if hr_status resp \<noteq> 200 then
                   (Inl (''imds token request returned '' @ FormatInt (hr_status resp) @ '': '' @ body), c)
                 else (case imds_Now ie c of (now, c) \<Rightarrow>
                   (Inr body, c\<lparr>ic_token := body, ic_tokenExpiry := now + tokenTTL\<rparr>))))))"

text \<open>\<open>get\<close>: \<open>Inr None\<close> is \<open>found == false\<close> with no error.\<close>

definition imds_get :: "imds_env \<Rightarrow> string \<Rightarrow> imds_client \<Rightarrow> (string + string option) \<times> imds_client" where
  "imds_get ie path c = (case getToken ie c of
     (Inl t, c) \<Rightarrow> (Inl t, c)
   | (Inr token, c) \<Rightarrow> (let url = ic_baseURL c @ path in
       case im_bad_url ie url of
         Some t \<Rightarrow> (Inl (''build request for '' @ path @ '': '' @ t), c)
       | None \<Rightarrow> (case http_Do ie (MetaGet url token) c of
            (Inl t, c) \<Rightarrow> (Inl (''GET '' @ path @ '': '' @ t), c)
          | (Inr resp, c) \<Rightarrow> (case hr_body resp of
               Inl t \<Rightarrow> (Inl (''read response for '' @ path @ '': '' @ t), c)
             | Inr body \<Rightarrow>
                 if hr_status resp = 200 then (Inr (Some body), c)
                 else if hr_status resp = 404 then (Inr None, c)
                 else (Inl (''GET '' @ path @ '' returned '' @ FormatInt (hr_status resp) @ '': '' @ body), c)))))"

text \<open>\<open>json.Unmarshal\<close> of the two notices.\<close>

definition store_rebalance :: "(string \<Rightarrow> time option) \<Rightarrow> string \<Rightarrow> json \<Rightarrow> time \<Rightarrow> time option" where
  "store_rebalance lenient name v t = dec_time lenient v t"

definition RebalanceRecommendation :: "imds_env \<Rightarrow> imds_client \<Rightarrow> (string + time option) \<times> imds_client" where
  "RebalanceRecommendation ie c = (case imds_get ie pathRebalanceRecommend c of
     (Inl t, c) \<Rightarrow> (Inl t, c)
   | (Inr None, c) \<Rightarrow> (Inr None, c)
   | (Inr (Some body), c) \<Rightarrow>
       (case Option.bind (decode_text body) (\<lambda>v. dec_struct [''noticeTime''] (store_rebalance (im_lenient ie)) v 0) of
          None \<Rightarrow> (Inl (''parse rebalance recommendation: '' @ im_json_error ie body), c)
        | Some noticeTime \<Rightarrow> (Inr (Some noticeTime), c)))"

record InstanceAction =
  ia_Action :: string
  ia_Time :: time

definition store_action :: "(string \<Rightarrow> time option) \<Rightarrow> string \<Rightarrow> json \<Rightarrow> InstanceAction \<Rightarrow> InstanceAction option" where
  "store_action lenient name v x =
     (if name = ''action'' then map_option (\<lambda>s. x\<lparr>ia_Action := s\<rparr>) (dec_str v (ia_Action x))
      else map_option (\<lambda>t. x\<lparr>ia_Time := t\<rparr>) (dec_time lenient v (ia_Time x)))"

definition SpotInstanceAction :: "imds_env \<Rightarrow> imds_client \<Rightarrow> (string + InstanceAction option) \<times> imds_client" where
  "SpotInstanceAction ie c = (case imds_get ie pathSpotInstanceAction c of
     (Inl t, c) \<Rightarrow> (Inl t, c)
   | (Inr None, c) \<Rightarrow> (Inr None, c)
   | (Inr (Some body), c) \<Rightarrow>
       (case Option.bind (decode_text body) (\<lambda>v. dec_struct [''action'', ''time''] (store_action (im_lenient ie)) v
               \<lparr>ia_Action = [], ia_Time = 0\<rparr>) of
          None \<Rightarrow> (Inl (''parse instance action: '' @ im_json_error ie body), c)
        | Some ia \<Rightarrow> (Inr (Some ia), c)))"

definition InstanceID :: "imds_env \<Rightarrow> imds_client \<Rightarrow> (string + string) \<times> imds_client" where
  "InstanceID ie c = (case imds_get ie pathInstanceID c of
     (Inl t, c) \<Rightarrow> (Inl t, c)
   | (Inr None, c) \<Rightarrow> (Inl ''instance-id not present in IMDS'', c)
   | (Inr (Some body), c) \<Rightarrow> (Inr body, c))"

definition AvailabilityZone :: "imds_env \<Rightarrow> imds_client \<Rightarrow> (string + string) \<times> imds_client" where
  "AvailabilityZone ie c = (case imds_get ie pathAvailabilityZone c of
     (Inl t, c) \<Rightarrow> (Inl t, c)
   | (Inr None, c) \<Rightarrow> (Inl ''availability-zone not present in IMDS'', c)
   | (Inr (Some body), c) \<Rightarrow> (Inr body, c))"

section \<open>The poller\<close>

definition defaultPollInterval :: duration where "defaultPollInterval = 5 * second"

definition NewPoller_interval :: "duration \<Rightarrow> duration" where
  "NewPoller_interval interval = (if interval \<le> 0 then defaultPollInterval else interval)"

text \<open>
  The loop of \<open>Run\<close> over what its \<open>select\<close> takes: a tick, or the end of the context. The
  callbacks may be nil; what they report is collected. The result says whether \<open>Run\<close> has
  returned.
\<close>

datatype poll_event = Tick | Done

type_synonym ('x, 's) callback = "('x \<Rightarrow> imds_client \<Rightarrow> 's \<times> imds_client) option"

definition run_callback :: "('x, 's) callback \<Rightarrow> 'x \<Rightarrow> imds_client \<Rightarrow> 's list \<times> imds_client" where
  "run_callback cb x c = (case cb of None \<Rightarrow> ([], c) | Some f \<Rightarrow> (case f x c of (s, c) \<Rightarrow> ([s], c)))"

definition poll_rebalance ::
  "imds_env \<Rightarrow> (time, 's) callback \<Rightarrow> bool \<Rightarrow> imds_client \<Rightarrow> 's list \<times> bool \<times> imds_client" where
  "poll_rebalance ie onRebalance seen c =
     (if seen then ([], seen, c)
      else (case RebalanceRecommendation ie c of
         (Inl _, c) \<Rightarrow> ([], seen, c)
       | (Inr None, c) \<Rightarrow> ([], seen, c)
       | (Inr (Some rr), c) \<Rightarrow> (case run_callback onRebalance rr c of (ss, c) \<Rightarrow> (ss, True, c))))"

fun poller_Run ::
  "imds_env \<Rightarrow> (time, 's) callback \<Rightarrow> (InstanceAction, 's) callback \<Rightarrow> poll_event list \<Rightarrow> bool \<Rightarrow> imds_client \<Rightarrow>
     's list \<times> bool \<times> imds_client" where
  "poller_Run ie onReb onInt [] seen c = ([], False, c)"
| "poller_Run ie onReb onInt (Done # evs) seen c = ([], True, c)"
| "poller_Run ie onReb onInt (Tick # evs) seen c = (case poll_rebalance ie onReb seen c of (ss, seen, c) \<Rightarrow>
     (case SpotInstanceAction ie c of
        (Inr (Some ia), c) \<Rightarrow> (case run_callback onInt ia c of (ts, c) \<Rightarrow> (ss @ ts, True, c))
      | (_, c) \<Rightarrow> (case poller_Run ie onReb onInt evs seen c of (ts, ret, c) \<Rightarrow> (ss @ ts, ret, c))))"

section \<open>The provider\<close>

definition baseDetail :: "imds_env \<Rightarrow> imds_client \<Rightarrow> (string \<rightharpoonup> string) \<times> imds_client" where
  "baseDetail ie c = (case InstanceID ie c of (r, c) \<Rightarrow>
     (let detail = (case r of Inl _ \<Rightarrow> Map.empty | Inr jid \<Rightarrow> [''instance_id'' \<mapsto> jid]) in
      case AvailabilityZone ie c of
        (Inl _, c) \<Rightarrow> (detail, c)
      | (Inr az, c) \<Rightarrow> (detail(''availability_zone'' \<mapsto> az), c)))"

text \<open>\<open>t.UTC().Format(time.RFC3339)\<close>.\<close>

definition pad_signed :: "nat \<Rightarrow> int \<Rightarrow> string" where
  "pad_signed k n = (if n < 0 then CHR ''-'' # pad_int k (- n) else pad_int k n)"

definition rfc3339 :: "time \<Rightarrow> string" where
  "rfc3339 t =
     (let secs = t div 1000000000;
          (y, yday) = year_and_yday (secs div 86400); s = secs mod 86400;
          (m, day) = month_and_day 1 (month_lengths y) yday
      in pad_signed 4 y @ ''-'' @ pad_int 2 m @ ''-'' @ pad_int 2 day @ ''T'' @
         pad_int 2 (s div 3600) @ '':'' @ pad_int 2 (s div 60 mod 60) @ '':'' @ pad_int 2 (s mod 60) @ ''Z'')"

definition onRebalanceRecommendation :: "imds_env \<Rightarrow> time \<Rightarrow> imds_client \<Rightarrow> Signal \<times> imds_client" where
  "onRebalanceRecommendation ie noticeTime c = (case baseDetail ie c of (detail, c) \<Rightarrow>
     (\<lparr>sig_Trigger = ''rebalance-recommendation'', sig_Detail = detail(''notice_time'' \<mapsto> rfc3339 noticeTime)\<rparr>, c))"

definition onInterruptionNotice :: "imds_env \<Rightarrow> InstanceAction \<Rightarrow> imds_client \<Rightarrow> Signal \<times> imds_client" where
  "onInterruptionNotice ie ia c = (case baseDetail ie c of (detail, c) \<Rightarrow>
     (\<lparr>sig_Trigger = ''interruption-notice'',
       sig_Detail = detail(''action'' \<mapsto> ia_Action ia, ''notice_time'' \<mapsto> rfc3339 (ia_Time ia))\<rparr>, c))"

text \<open>The signals \<open>Run\<close> hands to the daemon, in order.\<close>

definition provider_Run :: "imds_env \<Rightarrow> poll_event list \<Rightarrow> imds_client \<Rightarrow> Signal list \<times> bool \<times> imds_client" where
  "provider_Run ie evs c =
     poller_Run ie (Some (onRebalanceRecommendation ie)) (Some (onInterruptionNotice ie)) evs False c"

section \<open>Notification targets\<close>

text \<open>
  \<open>Notify\<close> of the two targets: \<open>invoke\<close> and \<open>start\<close> are the SDK's calls, which return the text
  of an error or nothing.
\<close>

definition LambdaNotifier_Notify :: "(string \<Rightarrow> string \<Rightarrow> string option) \<Rightarrow> string \<Rightarrow> string \<Rightarrow> string option" where
  "LambdaNotifier_Notify invoke arn payload = (case invoke arn payload of
     Some t \<Rightarrow> Some (''invoke lambda '' @ arn @ '': '' @ t) | None \<Rightarrow> None)"

definition StepFunctionNotifier_Notify :: "(string \<Rightarrow> string \<Rightarrow> string option) \<Rightarrow> string \<Rightarrow> string \<Rightarrow> string option" where
  "StepFunctionNotifier_Notify start arn payload = (case start arn payload of
     Some t \<Rightarrow> Some (''start step function execution '' @ arn @ '': '' @ t) | None \<Rightarrow> None)"

end
