(* ===== verification/Render.thy ===== *)
theory Render
  imports Imds
begin

text \<open>
  What \<open>surviva list\<close> and \<open>surviva show\<close> print: \<open>cmd/surviva/list.go\<close> and \<open>cmd/surviva/show.go\<close>,
  with the pieces of the standard library they print with: durations, left-aligned fields,
  indented JSON and the column alignment of \<open>text/tabwriter\<close>.

  An absent and an empty slice of a response are the same list here, as a daemon sends them;
  both print as the absent one does. Times print in UTC.
\<close>

section \<open>Durations\<close>

text \<open>\<open>Time.Sub\<close> saturates at the ends of the type.\<close>

definition time_Sub :: "time \<Rightarrow> time \<Rightarrow> duration" where
  "time_Sub t s = max int64_min (min int64_max (t - s))"

definition Round :: "duration \<Rightarrow> duration \<Rightarrow> duration" where
  "Round d m =
     (if m \<le> 0 then d
      else (let r = \<bar>d\<bar> mod m in
        if d < 0 then
          (if r + r < m then d + r
           else if in_int64 (d - m + r) then d - m + r else int64_min)
        else
          (if r + r < m then d - r
           else if in_int64 (d + m - r) then d + m - r else int64_max)))"

definition fmt_frac :: "nat \<Rightarrow> int \<Rightarrow> string" where
  "fmt_frac prec v = (let f = v mod 10 ^ prec in
     if f = 0 then [] else CHR ''.'' # drop_trailing_zeros (pad_int prec f))"

text \<open>\<open>Duration.String\<close>; the micro sign is the two bytes of U+00B5.\<close>

definition duration_String :: "duration \<Rightarrow> string" where
  "duration_String d =
     (let u = \<bar>d\<bar>; secs = u div 1000000000; mins = secs div 60; hours = mins div 60 in
      if d = 0 then ''0s''
      else (if d < 0 then ''-'' else []) @
        (if u < 1000 then FormatInt u @ ''ns''
         else if u < 1000000 then FormatInt (u div 1000) @ fmt_frac 3 u @ [CHR 0xC2, CHR 0xB5] @ ''s''
         else if u < 1000000000 then FormatInt (u div 1000000) @ fmt_frac 6 u @ ''ms''
         else (if hours > 0 then FormatInt hours @ ''h'' else []) @
              (if mins > 0 then FormatInt (mins mod 60) @ ''m'' else []) @
              FormatInt (secs mod 60) @ fmt_frac 9 u @ ''s''))"

text \<open>\<open>jobDuration\<close>; the clock is read for an active job only.\<close>

definition jobDuration :: "env \<Rightarrow> Job \<Rightarrow> world \<Rightarrow> duration \<times> world" where
  "jobDuration e j w =
     (if IsTerminal (Status j) then (time_Sub (UpdatedAt j) (RegisteredAt j), w)
      else (case now_utc e w of (now, w) \<Rightarrow> (Round (time_Sub now (RegisteredAt j)) second, w)))"

section \<open>Indented JSON\<close>

text \<open>\<open>SetIndent("", "  ")\<close>: every member and element on a line of its own, empty ones closed up.\<close>

definition json_break :: "nat \<Rightarrow> string" where
  "json_break k = newline @ concat (replicate k ''  '')"

fun sep_lines :: "nat \<Rightarrow> string list \<Rightarrow> string" where
  "sep_lines k [] = []"
| "sep_lines k [x] = json_break k @ x"
| "sep_lines k (x # xs) = json_break k @ x @ '','' @ sep_lines k xs"

fun indent_json :: "nat \<Rightarrow> json \<Rightarrow> string" where
  "indent_json k (JArr vs) = (if vs = [] then ''[]''
     else CHR ''['' # sep_lines (Suc k) (map (indent_json (Suc k)) vs) @ json_break k @ '']'')"
| "indent_json k (JObj ms) = (if ms = [] then ''{}''
     else CHR ''{'' # sep_lines (Suc k) (map (\<lambda>(name, v). json_string name @ '': '' @ indent_json (Suc k) v) ms) @
       json_break k @ ''}'')"
| "indent_json k v = print_json v"

section \<open>Aligned columns\<close>

text \<open>
  \<open>text/tabwriter\<close> with a padding of two blanks and no flags. A cell ends at a tab (horizontal
  or vertical), a line at a line feed; a form feed ends the line and the alignment. Between
  two bytes \<open>FF\<close> nothing ends a cell.
\<close>

fun tab_cells :: "bool \<Rightarrow> string \<Rightarrow> string list list" where
  "tab_cells esc [] = [[[]]]"
| "tab_cells esc (c # cs) =
     (if \<not> esc \<and> c \<in> {CHR 0x09, CHR 0x0B} then
        (case tab_cells esc cs of l # ls \<Rightarrow> ([] # l) # ls | [] \<Rightarrow> [])
      else if \<not> esc \<and> c = CHR 0x0A then [[]] # tab_cells esc cs
      else (case tab_cells (esc \<noteq> (c = CHR 0xFF)) cs of
         (x # l) # ls \<Rightarrow> ((c # x) # l) # ls | r \<Rightarrow> r))"

text \<open>The text up to a form feed, and what follows it.\<close>

fun split_feed :: "bool \<Rightarrow> string \<Rightarrow> string list" where
  "split_feed esc [] = [[]]"
| "split_feed esc (c # cs) =
     (if \<not> esc \<and> c = CHR 0x0C then [] # split_feed esc cs
      else (case split_feed (esc \<noteq> (c = CHR 0xFF)) cs of x # xs \<Rightarrow> (c # x) # xs | [] \<Rightarrow> []))"

definition cell_width :: "string \<Rightarrow> nat" where
  "cell_width s = length (runes s)"

text \<open>One line under the given column widths; the cells past them are written as they are.\<close>

fun write_cells :: "nat list \<Rightarrow> string list \<Rightarrow> string" where
  "write_cells ws [] = []"
| "write_cells [] (x # xs) = x @ write_cells [] xs"
| "write_cells (n # ws) (x # xs) = x @ replicate (n - cell_width x) (CHR '' '') @ write_cells ws xs"

text \<open>
  \<open>format\<close>: the lines that have a cell in the next column, next to each other, form a block,
  and its widest cell gives the column's width. The last cell of a line is in no column.
\<close>

definition in_column :: "nat \<Rightarrow> string list \<Rightarrow> bool" where
  "in_column k l \<longleftrightarrow> k < length l - 1"

lemma sum_takeWhile: "sum_list (map f (takeWhile P xs)) \<le> sum_list (map f xs)" for f :: "'a \<Rightarrow> nat"
  by (induction xs) auto

lemma sum_dropWhile: "sum_list (map f (dropWhile P xs)) \<le> sum_list (map f xs)" for f :: "'a \<Rightarrow> nat"
  by (induction xs) auto

lemma sum_pointwise: "(\<And>x. f x \<le> g x) \<Longrightarrow> sum_list (map f xs) \<le> sum_list (map g xs)" for f :: "'a \<Rightarrow> nat"
  by (induction xs) (auto intro: add_mono)

function format_lines :: "nat list \<Rightarrow> string list list \<Rightarrow> string list" where
  "format_lines ws [] = []"
| "format_lines ws (l # ls) =
     (let k = length ws in
      if in_column k l then
        (let block = l # takeWhile (in_column k) ls;
             width = Max (set (map (\<lambda>l. cell_width (l ! k) + 2) block))
         in format_lines (ws @ [width]) block @ format_lines ws (dropWhile (in_column k) ls))
      else write_cells ws l # format_lines ws ls)"
  by pat_completeness auto

termination
proof (relation "measure (\<lambda>(ws, ls). sum_list (map (\<lambda>l. Suc (length l - length ws)) ls))", goal_cases)
  case (2 ws l ls k block width)
  let ?m = "\<lambda>k l. Suc (length l - k)"
  have "sum_list (map (?m (Suc k)) (takeWhile (in_column k) ls)) \<le> sum_list (map (?m k) ls)"
    using sum_takeWhile sum_pointwise [of "?m (Suc k)" "?m k" ls] by (rule order_trans) simp
  moreover have "?m (Suc k) l < ?m k l" using 2 by (auto simp: in_column_def)
  ultimately show ?case using 2 by simp
next
  case (3 ws l ls k block width)
  then show ?case using sum_dropWhile [of "\<lambda>l. Suc (length l - k)" "in_column k" ls] by simp
qed auto

declare format_lines.simps(2) [simp del]

fun join_newline :: "string list \<Rightarrow> string" where
  "join_newline [] = []"
| "join_newline [x] = x"
| "join_newline (x # xs) = x @ newline @ join_newline xs"

definition tabwriter :: "string \<Rightarrow> string" where
  "tabwriter s = join_newline (map (\<lambda>t. join_newline (format_lines [] (tab_cells False t))) (split_feed False s))"

section \<open>Listing jobs\<close>

text \<open>\<open>strings.Join(command, " ")\<close>.\<close>

fun join_space :: "string list \<Rightarrow> string" where
  "join_space [] = []"
| "join_space [x] = x"
| "join_space (x # xs) = x @ '' '' @ join_space xs"

definition command_text :: "Job \<Rightarrow> string" where
  "command_text j = (case Command j of None \<Rightarrow> [] | Some xs \<Rightarrow> join_space xs)"

definition filterByTag :: "Job list \<Rightarrow> string \<Rightarrow> Job list" where
  "filterByTag jobs tag = filter (\<lambda>j. Tag j = tag) jobs"

definition tab :: string where
  "tab = [CHR 0x09]"

fun job_lines :: "env \<Rightarrow> Job list \<Rightarrow> world \<Rightarrow> string \<times> world" where
  "job_lines e [] w = ([], w)"
| "job_lines e (j # js) w = (case jobDuration e j w of (d, w) \<Rightarrow> (case job_lines e js w of (rest, w) \<Rightarrow>
     (ID j @ tab @ FormatInt (PID j) @ tab @ status_text (Status j) @ tab @ duration_String d @ tab @
      Tag j @ tab @ command_text j @ newline @ rest, w)))"

definition list_header :: string where
  "list_header = ''JOB ID'' @ tab @ ''PID'' @ tab @ ''STATUS'' @ tab @ ''DURATION'' @ tab @ ''TAG'' @ tab @
     ''COMMAND'' @ newline"

text \<open>
  The two printers give the exit status, what goes to the standard output and what to the
  standard error.
\<close>

definition renderJobList :: "env \<Rightarrow> Job list \<Rightarrow> bool \<Rightarrow> world \<Rightarrow> int \<times> string \<times> string \<times> world" where
  "renderJobList e jobs asJSON w =
     (if asJSON then
        (case those (map enc_job jobs) of
           None \<Rightarrow> (1, [], ''surviva list: '' @ marshal_time_error @ newline, w)
         | Some vs \<Rightarrow> (0, indent_json 0 (if jobs = [] then JNull else JArr vs) @ newline, [], w))
      else if jobs = [] then (0, ''no active jobs'' @ newline, [], w)
      else (case job_lines e jobs w of (ls, w) \<Rightarrow> (0, tabwriter (list_header @ ls), [], w)))"

section \<open>Showing a job\<close>

text \<open>\<open>%-24s\<close>.\<close>

definition pad_left_aligned :: "nat \<Rightarrow> string \<Rightarrow> string" where
  "pad_left_aligned k s = s @ replicate (k - length (runes s)) (CHR '' '')"

definition detail_line :: "string \<Rightarrow> string \<Rightarrow> string" where
  "detail_line label val = pad_left_aligned 17 (label @ '':'') @ val @ newline"

definition optional_line :: "string \<Rightarrow> string \<Rightarrow> string" where
  "optional_line label val = (if val = [] then [] else detail_line label val)"

definition history_line :: "HistoryEntry \<Rightarrow> string" where
  "history_line h = ''  '' @ rfc3339 (ChangedAt h) @ ''  '' @ pad_left_aligned 24 (status_text (FromStatus h)) @
     '' -> '' @ pad_left_aligned 24 (status_text (ToStatus h)) @ ''  by '' @ ChangedBy h @ newline"

definition job_detail :: "Job \<Rightarrow> duration \<Rightarrow> string" where
  "job_detail j d =
     detail_line ''ID'' (ID j) @ detail_line ''Status'' (status_text (Status j)) @ detail_line ''Owner'' (Owner j) @
     detail_line ''PID'' (FormatInt (PID j)) @ detail_line ''PGID'' (FormatInt (PGID j)) @
     detail_line ''Command'' (command_text j) @ detail_line ''WorkDir'' (WorkDir j) @
     detail_line ''CheckpointDir'' (CheckpointDir j) @ optional_line ''HookCheckpoint'' (HookCheckpoint j) @
     optional_line ''HookResume'' (HookResume j) @ optional_line ''Tag'' (Tag j) @
     optional_line ''FailureReason'' (FailureReason j) @
     detail_line ''RegisteredAt'' (rfc3339 (RegisteredAt j)) @ detail_line ''UpdatedAt'' (rfc3339 (UpdatedAt j)) @
     detail_line ''Duration'' (duration_String d)"

text \<open>The object \<open>show -json\<close> prints: the job's members, its duration, and the history if there is one.\<close>

definition detail_object :: "Job \<Rightarrow> duration \<Rightarrow> HistoryEntry list \<Rightarrow> json option" where
  "detail_object j d hist = (case (enc_job j, those (map enc_history hist)) of
     (Some (JObj ms), Some hs) \<Rightarrow>
       Some (JObj (ms @ [(''duration'', jstr (duration_String d))] @ unless_empty (hs = []) ''history'' (JArr hs)))
   | _ \<Rightarrow> None)"

definition renderJobDetail ::
  "env \<Rightarrow> Job \<Rightarrow> HistoryEntry list \<Rightarrow> bool \<Rightarrow> world \<Rightarrow> int \<times> string \<times> string \<times> world" where
  "renderJobDetail e j hist asJSON w = (case jobDuration e j w of (d, w) \<Rightarrow>
     if asJSON then
       (case detail_object j d hist of
          None \<Rightarrow> (1, [], ''surviva show: '' @ marshal_time_error @ newline, w)
        | Some v \<Rightarrow> (0, indent_json 0 v @ newline, [], w))
     else (0, job_detail j d @
       (if hist = [] then [] else newline @ ''History:'' @ newline @ concat (map history_line hist)), [], w))"

section \<open>The printed duration\<close>

text \<open>\<open>Round\<close> with the remainder named.\<close>

lemma Round_remainder:
  assumes "0 < m"
  obtains r where "0 \<le> r" "r < m" "r \<le> \<bar>d\<bar>" "m dvd \<bar>d\<bar> - r"
    and "Round d m = (if d < 0 then (if r + r < m then d + r else if in_int64 (d - m + r) then d - m + r else int64_min)
       else (if r + r < m then d - r else if in_int64 (d + m - r) then d + m - r else int64_max))"
proof
  show "0 \<le> \<bar>d\<bar> mod m" "\<bar>d\<bar> mod m < m" "\<bar>d\<bar> mod m \<le> \<bar>d\<bar>"
    using assms by (simp_all add: zmod_le_nonneg_dividend)
  show "m dvd \<bar>d\<bar> - \<bar>d\<bar> mod m" by (simp add: minus_mod_eq_mult_div)
qed (use assms in \<open>simp add: Round_def Let_def\<close>)

lemma Round_exact:
  assumes "0 < m" and "in_int64 (d - m)" and "in_int64 (d + m)"
  shows "m dvd Round d m" and "2 * \<bar>Round d m - d\<bar> \<le> m"
proof -
  obtain r where r: "0 \<le> r" "r < m" "m dvd \<bar>d\<bar> - r" and eq:
    "Round d m = (if d < 0 then (if r + r < m then d + r else if in_int64 (d - m + r) then d - m + r else int64_min)
       else (if r + r < m then d - r else if in_int64 (d + m - r) then d + m - r else int64_max))"
    by (rule Round_remainder [OF assms(1), of d])
  have "in_int64 (d - m + r)" "in_int64 (d + m - r)" using assms r by (auto simp: in_int64_def)
  then have val: "Round d m = (if d < 0 then (if r + r < m then d + r else d - m + r)
      else (if r + r < m then d - r else d + m - r))" using eq by simp
  then show "2 * \<bar>Round d m - d\<bar> \<le> m" using r by (simp split: if_splits)
  obtain k where k: "\<bar>d\<bar> - r = m * k" using r(3) by blast
  have "d + r = m * (- k)" "d - m + r = m * (- k - 1)" if "d < 0" using k that by (simp_all add: algebra_simps)
  moreover have "d - r = m * k" "d + m - r = m * (k + 1)" if "\<not> d < 0" using k that by (simp_all add: algebra_simps)
  ultimately show "m dvd Round d m" unfolding val by (cases "d < 0"; cases "r + r < m") simp_all
qed

lemma time_Sub_bounds: "in_int64 (time_Sub t s)" "in_int64 (t - s) \<Longrightarrow> time_Sub t s = t - s"
  by (auto simp: time_Sub_def in_int64_def int64_bounds_values)

lemma Round_bounds: "in_int64 d \<Longrightarrow> 0 < m \<Longrightarrow> in_int64 (Round d m)"
proof -
  assume d: "in_int64 d" and m: "0 < m"
  obtain r where "0 \<le> r" "r \<le> \<bar>d\<bar>" and eq:
    "Round d m = (if d < 0 then (if r + r < m then d + r else if in_int64 (d - m + r) then d - m + r else int64_min)
       else (if r + r < m then d - r else if in_int64 (d + m - r) then d + m - r else int64_max))"
    by (rule Round_remainder [OF m, of d])
  then have "in_int64 (d + r)" if "d < 0" using d that by (simp add: in_int64_def int64_bounds_values)
  moreover have "in_int64 (d - r)" if "\<not> d < 0"
    using d that \<open>0 \<le> r\<close> \<open>r \<le> \<bar>d\<bar>\<close> by (simp add: in_int64_def int64_bounds_values)
  moreover have "in_int64 int64_min" "in_int64 int64_max" by (simp_all add: in_int64_def int64_bounds_values)
  ultimately show ?thesis unfolding eq by simp
qed

text \<open>
  Claim C39. The duration \<open>list\<close> and \<open>show\<close> print fits a \<open>time.Duration\<close> whatever the times are. For a job
  that has ended it is exactly the time from its registration to its last transition, and
  the clock is not read; for an active job it is the time since its registration to the
  nearest second. Both are exact up to the 292 years the type can hold.
\<close>

theorem job_duration_exact:
  assumes "jobDuration e j w = (d, w')"
  shows "in_int64 d \<and>
    (IsTerminal (Status j) \<longrightarrow> w' = w \<and>
       (in_int64 (UpdatedAt j - RegisteredAt j) \<longrightarrow> d = UpdatedAt j - RegisteredAt j)) \<and>
    (let t = clock e (calls w) - RegisteredAt j in
      \<not> IsTerminal (Status j) \<and> in_int64 (t - second) \<and> in_int64 (t + second) \<longrightarrow>
        second dvd d \<and> 2 * \<bar>d - t\<bar> \<le> second)"
proof (cases "IsTerminal (Status j)")
  case True
  then show ?thesis using assms time_Sub_bounds by (auto simp: jobDuration_def Let_def)
next
  case False
  let ?t = "clock e (calls w) - RegisteredAt j"
  have d: "d = Round (time_Sub (clock e (calls w)) (RegisteredAt j)) second"
    using assms False by (simp add: jobDuration_def now_utc_def)
  have s: "0 < second" by (simp add: second_def)
  have "second dvd d \<and> 2 * \<bar>d - ?t\<bar> \<le> second" if t: "in_int64 (?t - second)" "in_int64 (?t + second)"
  proof -
    have "in_int64 ?t" using t s by (auto simp: in_int64_def)
    then have "d = Round ?t second" by (simp add: d time_Sub_bounds)
    then show ?thesis using Round_exact [OF s t] by simp
  qed
  moreover have "in_int64 d" using Round_bounds [OF time_Sub_bounds(1) s] by (simp add: d)
  ultimately show ?thesis using False by (simp add: Let_def)
qed

theorem job_duration_exact_witness:
  "2 * \<bar>fst (jobDuration quiet_env (job0\<lparr>Status := StatusRunning, RegisteredAt := 400\<rparr>) empty_world) - 600\<bar> \<le> second"
proof -
  let ?j = "job0\<lparr>Status := StatusRunning, RegisteredAt := 400\<rparr>"
  obtain d w' where d: "jobDuration quiet_env ?j empty_world = (d, w')" by fastforce
  have "clock quiet_env (calls empty_world) - RegisteredAt ?j = 600" "\<not> IsTerminal (Status ?j)"
    by (simp_all add: quiet_env_def empty_world_def IsTerminal_def terminalStatuses_def)
  moreover have "in_int64 (600 - second)" "in_int64 (600 + second)"
    by (simp_all add: second_def in_int64_def int64_bounds_values)
  ultimately show ?thesis using job_duration_exact [OF d] by (simp add: Let_def d)
qed
end
