(* ===== verification/Process.thy ===== *)
theory Process
  imports Runner Daemon
begin

text \<open>
  The packages around system calls that differ between builds: \<open>internal/procattr\<close>,
  \<open>procgroup\<close>, \<open>procinfo\<close>, \<open>procsignal\<close>, \<open>fdguard\<close>, \<open>sigset\<close>; and \<open>auditlog.Open\<close>. Which file of a
  package is compiled depends on the operating system, here the argument \<open>goos\<close>; what the
  kernel answers is an argument too.
\<close>

definition is_unix :: "string \<Rightarrow> bool" where
  "is_unix goos \<longleftrightarrow> goos = ''linux'' \<or> goos = ''darwin''"

section \<open>Starting and signalling a child\<close>

record SysProcAttr =
  Setsid :: bool

definition procattr_New :: "string \<Rightarrow> SysProcAttr" where
  "procattr_New goos = \<lparr>Setsid = is_unix goos\<rparr>"

definition procsignal_KillGroup :: "string \<Rightarrow> env \<Rightarrow> int \<Rightarrow> int \<Rightarrow> world \<Rightarrow> string option \<times> world" where
  "procsignal_KillGroup goos e pid sig w = (if is_unix goos then KillGroup e pid sig w else (None, w))"

datatype os_signal = Interrupt | Terminate

definition TermSignals :: "string \<Rightarrow> os_signal list" where
  "TermSignals goos = (if is_unix goos then [Interrupt, Terminate] else [Interrupt])"

text \<open>
  \<open>CloseInherited\<close>: the descriptors it flags close-on-exec; \<open>entries\<close> are the names in
  \<open>/proc/self/fd\<close>, \<open>None\<close> if the directory cannot be read.
\<close>

definition CloseInherited :: "string \<Rightarrow> string list option \<Rightarrow> int list" where
  "CloseInherited goos entries = (if goos \<noteq> ''linux'' then [] else (case entries of
     None \<Rightarrow> []
   | Some names \<Rightarrow> concat (map (\<lambda>name. case Atoi name of
        Inl _ \<Rightarrow> [] | Inr fd \<Rightarrow> if fd \<le> 2 then [] else [fd]) names)))"

section \<open>Looking at another process\<close>

definition IsGroupLeader :: "string \<Rightarrow> (int \<Rightarrow> string + int) \<Rightarrow> int \<Rightarrow> string + bool" where
  "IsGroupLeader goos getpgid pid = (if goos \<noteq> ''linux'' then Inr False
     else (case getpgid pid of Inl t \<Rightarrow> Inl t | Inr pgid \<Rightarrow> Inr (pgid = pid)))"

definition procPath :: "int \<Rightarrow> string \<Rightarrow> string" where
  "procPath pid leaf = ''/proc/'' @ FormatInt pid @ ''/'' @ leaf"

definition NUL :: char where
  "NUL = CHR 0x00"

fun split_nul :: "string \<Rightarrow> string list" where
  "split_nul [] = [[]]"
| "split_nul (c # cs) = (if c = NUL then [] # split_nul cs
     else (case split_nul cs of x # xs \<Rightarrow> (c # x) # xs | [] \<Rightarrow> [[c]]))"

definition trim_nul :: "string \<Rightarrow> string" where
  "trim_nul s = rev (dropWhile (\<lambda>c. c = NUL) (rev s))"

definition CommandLine :: "string \<Rightarrow> env \<Rightarrow> int \<Rightarrow> world \<Rightarrow> string list option \<times> world" where
  "CommandLine goos e pid w = (if goos \<noteq> ''linux'' then (None, w)
     else (case os_ReadFile e (procPath pid ''cmdline'') w of
        (Inl _, w) \<Rightarrow> (None, w)
      | (Inr raw, w) \<Rightarrow> (if raw = [] then None else Some (split_nul (trim_nul raw)), w)))"

text \<open>\<open>readlink\<close> is the target of a symbolic link, \<open>None\<close> if it cannot be read.\<close>

definition procinfo_WorkDir :: "string \<Rightarrow> (string \<Rightarrow> string option) \<Rightarrow> int \<Rightarrow> string" where
  "procinfo_WorkDir goos readlink pid = (if goos \<noteq> ''linux'' then []
     else (case readlink (procPath pid ''cwd'') of None \<Rightarrow> [] | Some dir \<Rightarrow> dir))"

section \<open>Opening the audit log\<close>

definition auditlog_Open :: "env \<Rightarrow> (string \<Rightarrow> string option) \<Rightarrow> string \<Rightarrow> world \<Rightarrow> string option \<times> world" where
  "auditlog_Open e open_file path w = (case os_MkdirAll e (Dir path) w of
     (Some t, w) \<Rightarrow> (Some (''create audit log dir: '' @ t), w)
   | (None, w) \<Rightarrow> (case open_file path of
        Some t \<Rightarrow> (Some (''open audit log '' @ path @ '': '' @ t), w)
      | None \<Rightarrow> (None, w)))"

lemma auditlog_Open_frame [simp]:
  "db (snd (auditlog_Open e f path w)) = db w" "audit_file (snd (auditlog_Open e f path w)) = audit_file w"
  "interrupted (snd (auditlog_Open e f path w)) = interrupted w"
  by (auto simp: auditlog_Open_def os_MkdirAll_def split: option.splits)

lemma CommandLine_frame [simp]:
  "db (snd (CommandLine goos e pid w)) = db w" "audit_file (snd (CommandLine goos e pid w)) = audit_file w"
  "interrupted (snd (CommandLine goos e pid w)) = interrupted w"
  by (auto simp: CommandLine_def os_ReadFile_def split: sum.splits)

section \<open>The command line of a process\<close>

text \<open>What the kernel puts into \<open>/proc/<pid>/cmdline\<close>: every argument followed by a NUL.\<close>

definition kernel_cmdline :: "string list \<Rightarrow> string" where
  "kernel_cmdline argv = concat (map (\<lambda>a. a @ [NUL]) argv)"

fun join_nul :: "string list \<Rightarrow> string" where
  "join_nul [] = []"
| "join_nul [x] = x"
| "join_nul (x # xs) = x @ NUL # join_nul xs"

lemma join_nul_Cons: "xs \<noteq> [] \<Longrightarrow> join_nul (x # xs) = x @ NUL # join_nul xs"
  by (cases xs) simp_all

lemma kernel_cmdline_join: "argv \<noteq> [] \<Longrightarrow> kernel_cmdline argv = join_nul argv @ [NUL]"
  unfolding kernel_cmdline_def
  by (induction argv rule: join_nul.induct) simp_all

lemma split_nul_nonempty [simp]: "split_nul s \<noteq> []"
  by (cases s) (auto split: list.splits)

lemma split_nul_plain: "NUL \<notin> set x \<Longrightarrow> split_nul x = [x]"
  by (induction x) auto

lemma split_nul_append: "NUL \<notin> set x \<Longrightarrow> split_nul (x @ NUL # s) = x # split_nul s"
  by (induction x) auto

lemma split_join_nul: "xs \<noteq> [] \<Longrightarrow> \<forall>x \<in> set xs. NUL \<notin> set x \<Longrightarrow> split_nul (join_nul xs) = xs"
  by (induction xs rule: join_nul.induct) (simp_all add: split_nul_plain split_nul_append)

lemma trim_nul_append [simp]: "trim_nul (s @ [NUL]) = trim_nul s"
  by (simp add: trim_nul_def)

lemma trim_nul_id: "s \<noteq> [] \<Longrightarrow> last s \<noteq> NUL \<Longrightarrow> trim_nul s = s"
  by (cases s rule: rev_cases) (auto simp: trim_nul_def)

lemma last_join_nul:
  "xs \<noteq> [] \<Longrightarrow> last xs \<noteq> [] \<Longrightarrow> join_nul xs \<noteq> [] \<and> last (join_nul xs) = last (last xs)"
  by (induction xs rule: join_nul.induct) auto

lemma trim_nul_replicate: "trim_nul (s @ replicate n NUL) = trim_nul s"
proof -
  have "dropWhile (\<lambda>c. c = NUL) (replicate n NUL @ t) = dropWhile (\<lambda>c. c = NUL) t" for t
    by (induction n) simp_all
  then show ?thesis by (simp add: trim_nul_def)
qed

lemma trim_kernel_cmdline:
  assumes "argv \<noteq> []" and "\<forall>a \<in> set argv. NUL \<notin> set a" and "last argv \<noteq> []"
  shows "trim_nul (kernel_cmdline (argv @ replicate n [])) = join_nul argv"
proof -
  have "last (last argv) \<noteq> NUL" using assms by (metis last_in_set)
  then have "trim_nul (join_nul argv @ [NUL]) = join_nul argv"
    using last_join_nul [OF assms(1,3)] by (simp add: trim_nul_id)
  moreover have "kernel_cmdline (argv @ replicate n []) = (join_nul argv @ [NUL]) @ replicate n NUL"
    using kernel_cmdline_join [OF assms(1)] by (simp add: kernel_cmdline_def)
  ultimately show ?thesis by (simp only: trim_nul_replicate)
qed

text \<open>
  Claim C40. On Linux a joined process is recorded with the command line it was started with, argument by
  argument, empty arguments included, up to the last argument that is not empty; empty
  arguments after that one are lost.
\<close>

theorem command_line_round_trip:
  assumes "read_file e (calls w) (procPath pid ''cmdline'') = Inr (kernel_cmdline (argv @ replicate n []))"
    and "argv \<noteq> []" and "\<forall>a \<in> set argv. NUL \<notin> set a" and "last argv \<noteq> []"
  shows "fst (CommandLine ''linux'' e pid w) = Some argv"
proof -
  have "kernel_cmdline (argv @ replicate n []) \<noteq> []" using assms(2) by (simp add: kernel_cmdline_def)
  then show ?thesis using assms(1) trim_kernel_cmdline [OF assms(2-4), of n] split_join_nul [OF assms(2,3)]
    by (simp add: CommandLine_def os_ReadFile_def)
qed

theorem command_line_round_trip_witness:
  "fst (CommandLine ''linux'' (quiet_env\<lparr>read_file := (\<lambda>_ _. Inr (kernel_cmdline [''sh'', [], ''-c'', [], []]))\<rparr>) 7 empty_world) =
     Some [''sh'', [], ''-c'']"
  by (rule command_line_round_trip [where n = 2]) (simp_all add: NUL_def numeral_2_eq_2)

end
