(* ===== verification/Config.thy ===== *)
theory Config
  imports Gostrings
begin

text \<open>
  The configuration file, \<open>internal/config/config.go\<close>: \<open>Load\<close> reads \<open>surviva.conf\<close> line by line
  into a map of directives and \<open>validate\<close> turns that into a \<open>Config\<close>.

  What the operating system answers is an argument: \<open>conf_file\<close> says whether the file opens,
  its mode, the bytes that could be read, and the error that ended the reading, if any.
  \<open>bufio.Scanner\<close> hands out the lines of those bytes without their line ends and gives up
  on a line that does not fit its buffer of 64 KiB.
\<close>

unbundle bit_operations_syntax

record Config =
  CloudProvider :: string
  PollInterval :: duration
  AuditLogPath :: string
  CheckpointBaseDir :: string
  MaxConcurrentCheckpoints :: int
  DBType :: string
  DBPath :: string
  DBHost :: string
  DBPort :: int
  DBUser :: string
  DBPassword :: string
  DBName :: string
  NotifyTargetType :: string
  NotifyTargetARN :: string
  SocketGroup :: string

definition config0 :: Config where
  "config0 = \<lparr>CloudProvider = [], PollInterval = 0, AuditLogPath = [], CheckpointBaseDir = [],
     MaxConcurrentCheckpoints = 0, DBType = [], DBPath = [], DBHost = [], DBPort = 0, DBUser = [],
     DBPassword = [], DBName = [], NotifyTargetType = [], NotifyTargetARN = [], SocketGroup = []\<rparr>"

datatype conf_error =
    OpenError string
  | StatError string
  | InvalidLine string
  | UnknownDirective string
  | ReadError string
  | MissingDirective string
  | UnknownProvider string
  | ProviderNotImplemented string
  | NotPositive string string
  | UnsupportedDBType string
  | MissingForDBType string string
  | NotifyARNMissing
  | NotifyTypeMissing
  | UnsupportedNotifyType string

section \<open>Reading lines\<close>

definition max_token_size :: nat where
  "max_token_size = 65536"

fun split_lines :: "string \<Rightarrow> string list" where
  "split_lines [] = []"
| "split_lines (c # cs) =
     (if c = CHR 0x0A then [] # split_lines cs
      else (case split_lines cs of [] \<Rightarrow> [[c]] | l # ls \<Rightarrow> (c # l) # ls))"

definition drop_cr :: "string \<Rightarrow> string" where
  "drop_cr l = (if l \<noteq> [] \<and> last l = CHR 0x0D then butlast l else l)"

definition supportedCloudProviders :: "string list" where
  "supportedCloudProviders = [''aws'']"

definition knownCloudProviderNames :: "string list" where
  "knownCloudProviderNames = [''aws'', ''azure'', ''gcp'']"

definition knownKeys :: "string list" where
  "knownKeys = [''CLOUDPROVIDER'', ''POLLINTERVALSECONDS'', ''AUDITLOGPATH'', ''CHECKPOINTBASEDIR'',
     ''DBPATH'', ''MAXCONCURRENTCHECKPOINTS'', ''DBTYPE'', ''DBHOST'', ''DBPORT'', ''DBUSER'',
     ''DBPASSWORD'', ''DBNAME'', ''NOTIFYTARGETTYPE'', ''NOTIFYTARGETARN'', ''SOCKETGROUP'']"

definition supportedDBTypes :: "string list" where
  "supportedDBTypes = [''sqlite'', ''mysql'']"

definition supportedNotifyTargetTypes :: "string list" where
  "supportedNotifyTargetTypes = [''lambda'', ''stepfunction'']"

text \<open>One turn of the loop in \<open>Load\<close>.\<close>

definition load_line :: "unicode_tables \<Rightarrow> string \<Rightarrow> (string \<rightharpoonup> string) \<Rightarrow> conf_error + (string \<rightharpoonup> string)" where
  "load_line u text raw =
     (let line = TrimSpace text in
      if line = [] \<or> HasPrefix line ''#'' then Inr raw
      else (case Cut (CHR ''='') line of
         None \<Rightarrow> Inl (InvalidLine line)
       | Some (key, val) \<Rightarrow>
           (let key = ToUpper u (TrimSpace key); val = TrimSpace val in
            if key \<notin> set knownKeys then Inl (UnknownDirective key)
            else Inr (raw(key \<mapsto> val)))))"

fun load_lines :: "unicode_tables \<Rightarrow> string list \<Rightarrow> (string \<rightharpoonup> string) \<Rightarrow> conf_error + (string \<rightharpoonup> string)" where
  "load_lines u [] raw = Inr raw"
| "load_lines u (l # ls) raw =
     (if length l \<ge> max_token_size then Inl (ReadError ''bufio.Scanner: token too long'')
      else (case load_line u (drop_cr l) raw of
         Inl err \<Rightarrow> Inl err
       | Inr raw \<Rightarrow> load_lines u ls raw))"

section \<open>Validation\<close>

definition wrap_int64 :: "int \<Rightarrow> int" where
  "wrap_int64 n = (n + 2 ^ 63) mod 2 ^ 64 - 2 ^ 63"

definition time_Second :: duration where
  "time_Second = 1000000000"

definition require :: "(string \<rightharpoonup> string) \<Rightarrow> string \<Rightarrow> conf_error \<Rightarrow> conf_error + string" where
  "require raw key err = (case raw key of None \<Rightarrow> Inl err | Some v \<Rightarrow> Inr v)"

definition positive_int :: "string \<Rightarrow> string \<Rightarrow> conf_error + int" where
  "positive_int name text = (case Atoi text of
     Inl _ \<Rightarrow> Inl (NotPositive name text)
   | Inr n \<Rightarrow> if n \<le> 0 then Inl (NotPositive name text) else Inr n)"

definition validate_db :: "unicode_tables \<Rightarrow> (string \<rightharpoonup> string) \<Rightarrow> Config \<Rightarrow> conf_error + Config" where
  "validate_db u raw cfg =
     (let dbType = (case raw ''DBTYPE'' of Some v \<Rightarrow> ToLower u v | None \<Rightarrow> ''sqlite'') in
      if dbType \<notin> set supportedDBTypes then Inl (UnsupportedDBType dbType)
      else if dbType = ''sqlite'' then
        (case require raw ''DBPATH'' (MissingForDBType ''DBPath'' ''sqlite'') of
           Inl err \<Rightarrow> Inl err
         | Inr p \<Rightarrow> Inr (cfg\<lparr>DBType := dbType, DBPath := p\<rparr>))
      else
        (case require raw ''DBHOST'' (MissingForDBType ''DBHost'' ''mysql'') of
           Inl err \<Rightarrow> Inl err
         | Inr host \<Rightarrow> (case require raw ''DBPORT'' (MissingForDBType ''DBPort'' ''mysql'') of
             Inl err \<Rightarrow> Inl err
           | Inr portRaw \<Rightarrow> (case positive_int ''DBPort'' portRaw of
               Inl err \<Rightarrow> Inl err
             | Inr port \<Rightarrow> (case require raw ''DBUSER'' (MissingForDBType ''DBUser'' ''mysql'') of
                 Inl err \<Rightarrow> Inl err
               | Inr user \<Rightarrow> (case require raw ''DBNAME'' (MissingForDBType ''DBName'' ''mysql'') of
                   Inl err \<Rightarrow> Inl err
                 | Inr name \<Rightarrow> Inr (cfg\<lparr>DBType := dbType, DBHost := host, DBPort := port, DBUser := user,
                      DBPassword := (case raw ''DBPASSWORD'' of Some v \<Rightarrow> v | None \<Rightarrow> []), DBName := name\<rparr>)))))))"

definition validate_notify :: "unicode_tables \<Rightarrow> (string \<rightharpoonup> string) \<Rightarrow> Config \<Rightarrow> conf_error + Config" where
  "validate_notify u raw cfg = (case (raw ''NOTIFYTARGETTYPE'', raw ''NOTIFYTARGETARN'') of
     (None, None) \<Rightarrow> Inr cfg
   | (Some _, None) \<Rightarrow> Inl NotifyARNMissing
   | (None, Some _) \<Rightarrow> Inl NotifyTypeMissing
   | (Some t, Some arn) \<Rightarrow>
       (let t = ToLower u t in
        if t \<notin> set supportedNotifyTargetTypes then Inl (UnsupportedNotifyType t)
        else Inr (cfg\<lparr>NotifyTargetType := t, NotifyTargetARN := arn\<rparr>)))"

definition validate_max :: "(string \<rightharpoonup> string) \<Rightarrow> Config \<Rightarrow> conf_error + Config" where
  "validate_max raw cfg = (case raw ''MAXCONCURRENTCHECKPOINTS'' of
     None \<Rightarrow> Inr cfg
   | Some maxRaw \<Rightarrow> (case positive_int ''MaxConcurrentCheckpoints'' maxRaw of
        Inl err \<Rightarrow> Inl err
      | Inr n \<Rightarrow> Inr (cfg\<lparr>MaxConcurrentCheckpoints := n\<rparr>)))"

definition validate_rest :: "unicode_tables \<Rightarrow> (string \<rightharpoonup> string) \<Rightarrow> Config \<Rightarrow> conf_error + Config" where
  "validate_rest u raw cfg = (case validate_db u raw cfg of
     Inl err \<Rightarrow> Inl err
   | Inr cfg \<Rightarrow> (case validate_notify u raw cfg of
        Inl err \<Rightarrow> Inl err
      | Inr cfg \<Rightarrow> (case validate_max raw cfg of
           Inl err \<Rightarrow> Inl err
         | Inr cfg \<Rightarrow> Inr (cfg\<lparr>SocketGroup :=
              (case raw ''SOCKETGROUP'' of Some v \<Rightarrow> v | None \<Rightarrow> [])\<rparr>))))"

definition validate :: "unicode_tables \<Rightarrow> (string \<rightharpoonup> string) \<Rightarrow> conf_error + Config" where
  "validate u raw = (case require raw ''CLOUDPROVIDER'' (MissingDirective ''CloudProvider'') of
     Inl err \<Rightarrow> Inl err
   | Inr p \<Rightarrow>
      (let provider = ToLower u p in
       if provider \<notin> set knownCloudProviderNames then Inl (UnknownProvider provider)
       else if provider \<notin> set supportedCloudProviders then Inl (ProviderNotImplemented provider)
       else (case require raw ''POLLINTERVALSECONDS'' (MissingDirective ''PollIntervalSeconds'') of
          Inl err \<Rightarrow> Inl err
        | Inr pollRaw \<Rightarrow> (case positive_int ''PollIntervalSeconds'' pollRaw of
            Inl err \<Rightarrow> Inl err
          | Inr pollSeconds \<Rightarrow> (case require raw ''AUDITLOGPATH'' (MissingDirective ''AuditLogPath'') of
              Inl err \<Rightarrow> Inl err
            | Inr audit \<Rightarrow> (case require raw ''CHECKPOINTBASEDIR'' (MissingDirective ''CheckpointBaseDir'') of
                Inl err \<Rightarrow> Inl err
              | Inr base \<Rightarrow>
                  validate_rest u raw (config0\<lparr>CloudProvider := provider,
                    PollInterval := wrap_int64 (pollSeconds * time_Second),
                    AuditLogPath := audit, CheckpointBaseDir := base\<rparr>)))))))"

section \<open>Loading\<close>

datatype conf_file =
    OpenFails string
  | StatFails string
  | ConfFile (cf_mode: "32 word") (cf_bytes: string) (cf_read_error: "string option")

definition config_Load :: "unicode_tables \<Rightarrow> conf_file \<Rightarrow> conf_error + Config" where
  "config_Load u f = (case f of
     OpenFails t \<Rightarrow> Inl (OpenError t)
   | StatFails t \<Rightarrow> Inl (StatError t)
   | ConfFile _ bytes readErr \<Rightarrow> (case load_lines u (split_lines bytes) Map.empty of
        Inl err \<Rightarrow> Inl err
      | Inr raw \<Rightarrow> (case readErr of Some t \<Rightarrow> Inl (ReadError t) | None \<Rightarrow> validate u raw)))"

text \<open>Whether the warning about a readable password is printed (\<open>goos\<close> is \<open>runtime.GOOS\<close>).\<close>

definition warnIfWorldReadable :: "string \<Rightarrow> 32 word \<Rightarrow> Config \<Rightarrow> bool" where
  "warnIfWorldReadable goos mode cfg \<longleftrightarrow>
     \<not> (goos = ''windows'' \<or> DBPassword cfg = []) \<and> (mode AND 0x1FF) AND 0x3F \<noteq> 0"

definition DefaultPath :: "string \<Rightarrow> string" where
  "DefaultPath surviva_conf = (if surviva_conf \<noteq> [] then surviva_conf else ''/etc/surviva/surviva.conf'')"

text \<open>\<open>err.Error()\<close>.\<close>

fun conf_error_text :: "unicode_tables \<Rightarrow> string \<Rightarrow> conf_error \<Rightarrow> string" where
  "conf_error_text u path (OpenError t) = ''open '' @ path @ '': '' @ t"
| "conf_error_text u path (StatError t) = ''stat '' @ path @ '': '' @ t"
| "conf_error_text u path (InvalidLine l) = path @ '': invalid line (expected Key=Value): '' @ quote u l"
| "conf_error_text u path (UnknownDirective k) = path @ '': unknown directive '' @ quote u k"
| "conf_error_text u path (ReadError t) = ''read '' @ path @ '': '' @ t"
| "conf_error_text u path (MissingDirective k) = path @ '': missing required directive '' @ k"
| "conf_error_text u path (UnknownProvider p) =
     path @ '': CloudProvider '' @ quote u p @ '' is not a recognized cloud provider''"
| "conf_error_text u path (ProviderNotImplemented p) =
     path @ '': CloudProvider '' @ quote u p @ '' is not yet implemented''"
| "conf_error_text u path (NotPositive k v) =
     path @ '': '' @ k @ '' must be a positive integer, got '' @ quote u v"
| "conf_error_text u path (UnsupportedDBType t) =
     path @ '': DBType '' @ quote u t @ '' is not supported (must be sqlite or mysql)''"
| "conf_error_text u path (MissingForDBType k t) =
     path @ '': missing required directive '' @ k @ '' (required when DBType='' @ t @ '')''"
| "conf_error_text u path NotifyARNMissing =
     path @ '': missing required directive NotifyTargetARN (required when NotifyTargetType is set)''"
| "conf_error_text u path NotifyTypeMissing = path @ '': NotifyTargetARN given without NotifyTargetType''"
| "conf_error_text u path (UnsupportedNotifyType t) =
     path @ '': NotifyTargetType '' @ quote u t @ '' is not supported (must be lambda or stepfunction)''"

end
