(* ===== verification/Cli.thy ===== *)
theory Cli
  imports Flags Render Process Ipc StoreOpen Config
begin

text \<open>
  The command line, \<open>cmd/surviva\<close>: every subcommand from its flags to its exit status.

  A command runs on a machine it shares with the daemon: the \<open>world\<close> (whose audit file is the
  one both are configured to write), the process's two output streams, and the children it
  has started. What the system answers is in \<open>cli_env\<close>, most of it as a function of the calls
  made so far; the daemon is the \<open>peer\<close> behind the socket.
\<close>

section \<open>State and environment\<close>

record child =
  ch_argv :: "string list"
  ch_attr :: SysProcAttr
  ch_cloexec :: "int list" \<comment> \<open>descriptors flagged close-on-exec by then\<close>

record cli =
  cl_world :: world
  cl_out :: string
  cl_err :: string
  cl_children :: "child list"

datatype wait_outcome = WaitOk | WaitExit int | WaitError string

record cli_env =
  ce_env :: env
  ce_net :: net_env
  ce_peer :: peer
  ce_getenv :: "string \<Rightarrow> string"
  ce_goos :: string
  ce_tempDir :: string
  ce_conf :: "string \<Rightarrow> conf_file"
  ce_user :: "string option" \<comment> \<open>\<open>user.Current\<close>, \<open>None\<close> if it fails\<close>
  ce_getwd :: "string + string"
  ce_fds :: "string list option"
  ce_start :: "call list \<Rightarrow> string list \<Rightarrow> string + int" \<comment> \<open>the error's text, or the process id\<close>
  ce_wait :: "call list \<Rightarrow> int \<Rightarrow> wait_outcome"
  ce_signals :: "call list \<Rightarrow> nat" \<comment> \<open>signals the forwarder takes up at this point\<close>
  ce_open :: "string \<Rightarrow> string option" \<comment> \<open>opening a file to append\<close>
  ce_getpgid :: "int \<Rightarrow> string + int"
  ce_readlink :: "string \<Rightarrow> string option"
  ce_aws_config :: "string option"
  ce_numCPU :: int

abbreviation ce_unicode :: "cli_env \<Rightarrow> unicode_tables" where
  "ce_unicode ce \<equiv> unicode (ce_env ce)"

definition put_err :: "string \<Rightarrow> cli \<Rightarrow> cli" where
  "put_err t c = c\<lparr>cl_err := cl_err c @ t\<rparr>"

definition put_out :: "string \<Rightarrow> cli \<Rightarrow> cli" where
  "put_out t c = c\<lparr>cl_out := cl_out c @ t\<rparr>"

text \<open>An operation on the world.\<close>

definition on_world :: "(world \<Rightarrow> 'a \<times> world) \<Rightarrow> cli \<Rightarrow> 'a \<times> cli" where
  "on_world f c = (case f (cl_world c) of (x, w) \<Rightarrow> (x, c\<lparr>cl_world := w\<rparr>))"

section \<open>What the commands share\<close>

definition currentOSUser :: "cli_env \<Rightarrow> string" where
  "currentOSUser ce = (case ce_user ce of None \<Rightarrow> ''unknown'' | Some name \<Rightarrow> name)"

text \<open>\<open>config.Load\<close> with the warning it prints.\<close>

definition octal4 :: "32 word \<Rightarrow> string" where
  "octal4 m = map (\<lambda>i. digit_char (unat m div 8 ^ i mod 8)) [3, 2, 1, 0]"

definition readable_warning :: "string \<Rightarrow> 32 word \<Rightarrow> string" where
  "readable_warning path mode = ''surviva: warning: '' @ path @ '' is readable by group/other (mode '' @
     octal4 (mode AND 0x1FF) @ '') and contains a DBPassword -- recommend chmod 600 '' @ path @ newline"

definition load_config :: "cli_env \<Rightarrow> string \<Rightarrow> cli \<Rightarrow> (string + Config) \<times> cli" where
  "load_config ce path c = (case config_Load (ce_unicode ce) (ce_conf ce path) of
     Inl err \<Rightarrow> (Inl (conf_error_text (ce_unicode ce) path err), c)
   | Inr cfg \<Rightarrow> (Inr cfg, (case ce_conf ce path of
        ConfFile mode _ _ \<Rightarrow> if warnIfWorldReadable (ce_goos ce) mode cfg then put_err (readable_warning path mode) c else c
      | _ \<Rightarrow> c)))"

text \<open>\<open>None\<close>: the log is open.\<close>

definition openAuditLogger :: "cli_env \<Rightarrow> string \<Rightarrow> cli \<Rightarrow> string option \<times> cli" where
  "openAuditLogger ce confPath c = (case load_config ce confPath c of
     (Inl t, c) \<Rightarrow> (Some (''load '' @ confPath @ '': '' @ t), c)
   | (Inr cfg, c) \<Rightarrow> (case on_world (auditlog_Open (ce_env ce) (ce_open ce) (AuditLogPath cfg)) c of
        (Some t, c) \<Rightarrow> (Some (''open audit log: '' @ t), c)
      | (None, c) \<Rightarrow> (None, c)))"

definition warnAuditUnavailable :: "string \<Rightarrow> cli \<Rightarrow> cli" where
  "warnAuditUnavailable t c = put_err (''surviva: warning: audit logging unavailable: '' @ t @ newline) c"

text \<open>How every command begins: whether there is a logger.\<close>

definition with_logger :: "cli_env \<Rightarrow> string \<Rightarrow> cli \<Rightarrow> bool \<times> cli" where
  "with_logger ce confPath c = (case openAuditLogger ce confPath c of
     (Some t, c) \<Rightarrow> (False, warnAuditUnavailable t c) | (None, c) \<Rightarrow> (True, c))"

definition logCLI :: "cli_env \<Rightarrow> bool \<Rightarrow> string \<Rightarrow> string \<Rightarrow> string \<Rightarrow> string \<Rightarrow> cli \<Rightarrow> cli" where
  "logCLI ce al action jobID outcome detail c =
     (if \<not> al then c
      else (case on_world (Logger_Log (ce_env ce) \<lparr>en_Time = 0, en_Component = ''cli'', en_Action = action,
                en_JobID = jobID, en_Outcome = outcome, en_Detail = detail\<rparr>) c of
         (Some t, c) \<Rightarrow> put_err (''surviva: warning: failed to write audit log: '' @ t @ newline) c
       | (None, c) \<Rightarrow> c))"

text \<open>A command's error: printed under its name, logged, status 1.\<close>

definition command_fails :: "cli_env \<Rightarrow> bool \<Rightarrow> string \<Rightarrow> string \<Rightarrow> string \<Rightarrow> cli \<Rightarrow> int \<times> cli" where
  "command_fails ce al action jobID t c =
     (1, logCLI ce al action jobID ''error'' t (put_err (''surviva '' @ action @ '': '' @ t @ newline) c))"

definition command_done :: "cli_env \<Rightarrow> bool \<Rightarrow> string \<Rightarrow> string \<Rightarrow> string \<Rightarrow> cli \<Rightarrow> int \<times> cli" where
  "command_done ce al action jobID t c =
     (0, logCLI ce al action jobID ''ok'' [] (put_err (''surviva '' @ action @ '': '' @ t @ newline) c))"

text \<open>\<open>fs.Parse\<close> under \<open>ExitOnError\<close>, and the rest of the command.\<close>

definition with_flags ::
  "cli_env \<Rightarrow> string \<Rightarrow> flag_spec list \<Rightarrow> string list \<Rightarrow> (flag_values \<Rightarrow> string list \<Rightarrow> cli \<Rightarrow> int \<times> cli) \<Rightarrow> cli \<Rightarrow> int \<times> cli" where
  "with_flags ce cmd specs args body c = (let usage = flag_usage (ce_unicode ce) cmd specs in
     case flag_Parse (ce_unicode ce) specs args of
       FlagHelp \<Rightarrow> (0, put_err usage c)
     | FlagError t \<Rightarrow> (2, put_err (t @ newline @ usage) c)
     | Parsed vs rest \<Rightarrow> body vs rest c)"

definition socket_flag :: "cli_env \<Rightarrow> flag_spec" where
  "socket_flag ce = string_flag ''socket'' (DefaultSocketPath (ce_getenv ce) (ce_goos ce) (ce_tempDir ce))
     ''path to the surviva daemon socket''"

definition conf_flag :: "cli_env \<Rightarrow> flag_spec" where
  "conf_flag ce = string_flag ''conf'' (DefaultPath (ce_getenv ce ''SURVIVA_CONF''))
     ''path to surviva.conf (for audit logging)''"

definition track_flags :: "cli_env \<Rightarrow> flag_spec list" where
  "track_flags ce =
    [string_flag ''hook-checkpoint'' [] ''path to a custom checkpoint script (used instead of criu)'',
     string_flag ''hook-resume'' [] ''path to a custom resume script (used instead of criu restore)'',
     string_flag ''checkpoint-dir'' [] ''override where this job's checkpoint is written (default: daemon-computed)'',
     string_flag ''tag'' [] ''external identifier to correlate this job with (e.g. $SLURM_JOB_ID)'',
     socket_flag ce, conf_flag ce]"

section \<open>run\<close>

definition exitCodeAndErr :: "wait_outcome \<Rightarrow> int \<times> string" where
  "exitCodeAndErr r = (case r of WaitOk \<Rightarrow> (0, []) | WaitExit n \<Rightarrow> (n, []) | WaitError t \<Rightarrow> (1, t))"

text \<open>The forwarder takes up \<open>n\<close> signals: each goes to the child's group as \<open>SIGTERM\<close>.\<close>

fun forward_n :: "cli_env \<Rightarrow> int \<Rightarrow> nat \<Rightarrow> world \<Rightarrow> world" where
  "forward_n ce pid 0 w = w"
| "forward_n ce pid (Suc n) w =
     forward_n ce pid n (snd (procsignal_KillGroup (ce_goos ce) (ce_env ce) pid SIGTERM w))"

definition forward_signals :: "cli_env \<Rightarrow> int \<Rightarrow> cli \<Rightarrow> cli" where
  "forward_signals ce pid c =
     c\<lparr>cl_world := forward_n ce pid (ce_signals ce (calls (cl_world c))) (cl_world c)\<rparr>"

definition run_request :: "flag_values \<Rightarrow> string list \<Rightarrow> string \<Rightarrow> int \<Rightarrow> RegisterJob" where
  "run_request vs cmdArgs workDir pid =
     \<lparr>rj_PID = pid, rj_PGID = pid, rj_Command = Some cmdArgs, rj_WorkDir = workDir,
      rj_CheckpointDir = vs ''checkpoint-dir'', rj_HookCheckpoint = vs ''hook-checkpoint'',
      rj_HookResume = vs ''hook-resume'', rj_Tag = vs ''tag''\<rparr>"

definition announce :: "int \<Rightarrow> string + string \<Rightarrow> cli \<Rightarrow> cli" where
  "announce pid reg c = (case reg of
     Inl t \<Rightarrow> put_err (''surviva run: warning: could not register with daemon: '' @ t @ newline @
       ''surviva run: continuing WITHOUT interruption protection'' @ newline) c
   | Inr jobID \<Rightarrow> put_err (''surviva run: tracking job '' @ jobID @ '' (pid '' @ FormatInt pid @ '')'' @ newline) c)"

text \<open>The completion goes to the daemon only if the registration has succeeded.\<close>

definition report_completion ::
  "cli_env \<Rightarrow> string \<Rightarrow> string + string \<Rightarrow> int \<Rightarrow> string \<Rightarrow> string \<Rightarrow> cli \<Rightarrow> cli" where
  "report_completion ce sock reg exitCode errMsg requestedBy c = (case reg of
     Inl _ \<Rightarrow> c
   | Inr jobID \<Rightarrow>
       (case on_world (Client_Complete (ce_net ce) sock (ce_peer ce) jobID exitCode errMsg requestedBy) c of
          (Inl t, c) \<Rightarrow> put_err (''surviva run: warning: failed to report completion for job '' @ jobID @
            '': '' @ t @ newline) c
        | (Inr _, c) \<Rightarrow> c))"

text \<open>
  From a started child to the exit status. Signals are forwarded before the registration,
  while the child is waited for, and after it has ended; the forwarder is never stopped.
\<close>

definition supervise ::
  "cli_env \<Rightarrow> bool \<Rightarrow> flag_values \<Rightarrow> string list \<Rightarrow> string \<Rightarrow> int \<Rightarrow> cli \<Rightarrow> int \<times> cli" where
  "supervise ce al vs cmdArgs workDir pid c =
     (let requestedBy = currentOSUser ce; sock = vs ''socket'' in
      case on_world (Client_Register (ce_net ce) sock (ce_peer ce) (run_request vs cmdArgs workDir pid) requestedBy)
             (forward_signals ce pid c) of
        (reg, c) \<Rightarrow>
          (let c = forward_signals ce pid (announce pid reg c) in
           case exitCodeAndErr (ce_wait ce (calls (cl_world c)) pid) of
             (exitCode, errMsg) \<Rightarrow>
               (exitCode, logCLI ce al ''run'' (case reg of Inl _ \<Rightarrow> [] | Inr jobID \<Rightarrow> jobID)
                  (if exitCode \<noteq> 0 then ''error'' else ''ok'') errMsg
                  (report_completion ce sock reg exitCode errMsg requestedBy (forward_signals ce pid c)))))"

definition run_usage :: string where
  "run_usage = ''surviva run: no command given'' @ newline @
     ''usage: surviva run [flags] -- <command> [args...]'' @ newline"

definition start_child :: "cli_env \<Rightarrow> string list \<Rightarrow> cli \<Rightarrow> (string + int) \<times> cli" where
  "start_child ce argv c = (case ce_start ce (calls (cl_world c)) argv of
     Inl t \<Rightarrow> (Inl t, c)
   | Inr pid \<Rightarrow> (Inr pid, c\<lparr>cl_children := cl_children c @
       [\<lparr>ch_argv = argv, ch_attr = procattr_New (ce_goos ce), ch_cloexec = CloseInherited (ce_goos ce) (ce_fds ce)\<rparr>]\<rparr>))"

definition runCmd :: "cli_env \<Rightarrow> string list \<Rightarrow> cli \<Rightarrow> int \<times> cli" where
  "runCmd ce args = with_flags ce ''run'' (track_flags ce) args (\<lambda>vs rest c.
     let cmdArgs = (case rest of a # as \<Rightarrow> if a = ''--'' then as else rest | [] \<Rightarrow> rest) in
     if cmdArgs = [] then (2, put_err run_usage c)
     else (case with_logger ce (vs ''conf'') c of (al, c) \<Rightarrow>
       (case ce_getwd ce of
          Inl t \<Rightarrow> (1, put_err (''surviva run: '' @ t @ newline) c)
        | Inr workDir \<Rightarrow> (case start_child ce cmdArgs c of
             (Inl t, c) \<Rightarrow> (1, logCLI ce al ''run'' [] ''error'' t
                (put_err (''surviva run: failed to start '' @ quote (ce_unicode ce) (hd cmdArgs) @ '': '' @ t @ newline) c))
           | (Inr pid, c) \<Rightarrow> supervise ce al vs cmdArgs workDir pid c))))"

section \<open>join and adopt\<close>

definition not_leader_text :: "int \<Rightarrow> string" where
  "not_leader_text pid = ''pid '' @ FormatInt pid @ '' is not its own process-group leader; surviva can only join a process already isolated into its own group (e.g. started with setsid) -- cancel signals the whole group, and joining one that shares a group with other processes risks killing them too''"

definition buildJoinRequest :: "cli_env \<Rightarrow> int \<Rightarrow> flag_values \<Rightarrow> world \<Rightarrow> (string + RegisterJob) \<times> world" where
  "buildJoinRequest ce pid vs w = (case IsGroupLeader (ce_goos ce) (ce_getpgid ce) pid of
     Inl t \<Rightarrow> (Inl (''check process group for pid '' @ FormatInt pid @ '': '' @ t), w)
   | Inr isLeader \<Rightarrow>
       if \<not> isLeader then (Inl (not_leader_text pid), w)
       else (case CommandLine (ce_goos ce) (ce_env ce) pid w of (cmd, w) \<Rightarrow>
         (Inr \<lparr>rj_PID = pid, rj_PGID = pid, rj_Command = cmd,
            rj_WorkDir = procinfo_WorkDir (ce_goos ce) (ce_readlink ce) pid,
            rj_CheckpointDir = vs ''checkpoint-dir'', rj_HookCheckpoint = vs ''hook-checkpoint'',
            rj_HookResume = vs ''hook-resume'', rj_Tag = vs ''tag''\<rparr>, w)))"

definition joinCmd :: "cli_env \<Rightarrow> string list \<Rightarrow> cli \<Rightarrow> int \<times> cli" where
  "joinCmd ce args = with_flags ce ''join'' (track_flags ce) args (\<lambda>vs rest c.
     case rest of
       [arg] \<Rightarrow> (case Atoi arg of
          Inl _ \<Rightarrow> (2, put_err (''surviva join: invalid pid '' @ quote (ce_unicode ce) arg @ newline) c)
        | Inr pid \<Rightarrow> (case with_logger ce (vs ''conf'') c of (al, c) \<Rightarrow>
            (case on_world (buildJoinRequest ce pid vs) c of
               (Inl t, c) \<Rightarrow> command_fails ce al ''join'' [] t c
             | (Inr req, c) \<Rightarrow>
                 (case on_world (Client_Register (ce_net ce) (vs ''socket'') (ce_peer ce) req (currentOSUser ce)) c of
                    (Inl t, c) \<Rightarrow> command_fails ce al ''join'' [] t c
                  | (Inr jobID, c) \<Rightarrow> command_done ce al ''join'' jobID
                      (''tracking job '' @ jobID @ '' (pid '' @ FormatInt pid @ '')'') c))))
     | _ \<Rightarrow> (2, put_err (''usage: surviva join [flags] <pid>'' @ newline) c))"

definition adopt_flags :: "cli_env \<Rightarrow> flag_spec list" where
  "adopt_flags ce =
    [string_flag ''checkpoint-dir'' [] ''path to a pre-existing checkpoint (required)'',
     string_flag ''hook-resume'' [] ''path to a custom resume script (required if the checkpoint was produced by a checkpoint hook, not criu)'',
     string_flag ''hook-checkpoint'' [] ''path to a custom checkpoint script, for if this job is checkpointed again after resuming'',
     string_flag ''tag'' [] ''external identifier to correlate this job with (e.g. $SLURM_JOB_ID)'',
     socket_flag ce, conf_flag ce]"

definition adopt_usage :: string where
  "adopt_usage = ''usage: surviva adopt -checkpoint-dir <path> [-hook-resume <path>] [-hook-checkpoint <path>] [-tag <value>]'' @ newline"

definition adoptCmd :: "cli_env \<Rightarrow> string list \<Rightarrow> cli \<Rightarrow> int \<times> cli" where
  "adoptCmd ce args = with_flags ce ''adopt'' (adopt_flags ce) args (\<lambda>vs _ c.
     let dir = vs ''checkpoint-dir'' in
     if dir = [] then (2, put_err adopt_usage c)
     else (case with_logger ce (vs ''conf'') c of (al, c) \<Rightarrow>
       (case on_world (Client_Adopt (ce_net ce) (vs ''socket'') (ce_peer ce)
            \<lparr>ac_CheckpointDir = dir, ac_HookResume = vs ''hook-resume'', ac_HookCheckpoint = vs ''hook-checkpoint'',
             ac_Tag = vs ''tag''\<rparr> (currentOSUser ce)) c of
          (Inl t, c) \<Rightarrow> command_fails ce al ''adopt'' [] t c
        | (Inr jobID, c) \<Rightarrow> command_done ce al ''adopt'' jobID (''tracking job '' @ jobID @ '' against '' @ dir @
            '' (status CHECKPOINT_CREATED; run `surviva resume '' @ jobID @ ''` to restore it)'') c)))"

section \<open>Commands on one job\<close>

definition job_flags :: "cli_env \<Rightarrow> flag_spec list" where
  "job_flags ce = [socket_flag ce, conf_flag ce]"

definition usage_line :: "string \<Rightarrow> cli \<Rightarrow> int \<times> cli" where
  "usage_line t c = (2, put_err (''usage: surviva '' @ t @ newline) c)"

definition pauseCmd :: "cli_env \<Rightarrow> string list \<Rightarrow> cli \<Rightarrow> int \<times> cli" where
  "pauseCmd ce args = with_flags ce ''pause'' (job_flags ce) args (\<lambda>vs rest c. case rest of
     [jobID] \<Rightarrow> (case with_logger ce (vs ''conf'') c of (al, c) \<Rightarrow>
       (case on_world (Client_Pause (ce_net ce) (vs ''socket'') (ce_peer ce) jobID (currentOSUser ce)) c of
          (Inl t, c) \<Rightarrow> command_fails ce al ''pause'' jobID t c
        | (Inr msg, c) \<Rightarrow> command_done ce al ''pause'' jobID (''job '' @ jobID @ '': '' @ msg) c))
   | _ \<Rightarrow> usage_line ''pause <job-id>'' c)"

definition resumeCmd :: "cli_env \<Rightarrow> string list \<Rightarrow> cli \<Rightarrow> int \<times> cli" where
  "resumeCmd ce args = with_flags ce ''resume'' (job_flags ce) args (\<lambda>vs rest c. case rest of
     [jobID] \<Rightarrow> (case with_logger ce (vs ''conf'') c of (al, c) \<Rightarrow>
       (case on_world (Client_Resume (ce_net ce) (vs ''socket'') (ce_peer ce) jobID (currentOSUser ce)) c of
          (Inl t, c) \<Rightarrow> command_fails ce al ''resume'' jobID t c
        | (Inr msg, c) \<Rightarrow> command_done ce al ''resume'' jobID (''job '' @ jobID @ '': '' @ msg) c))
   | _ \<Rightarrow> usage_line ''resume <job-id>'' c)"

definition cancelCmd :: "cli_env \<Rightarrow> string list \<Rightarrow> cli \<Rightarrow> int \<times> cli" where
  "cancelCmd ce args = with_flags ce ''cancel'' (job_flags ce) args (\<lambda>vs rest c. case rest of
     [jobID] \<Rightarrow> (case with_logger ce (vs ''conf'') c of (al, c) \<Rightarrow>
       (case on_world (Client_Cancel (ce_net ce) (vs ''socket'') (ce_peer ce) jobID (currentOSUser ce)) c of
          (Inl t, c) \<Rightarrow> command_fails ce al ''cancel'' jobID t c
        | (Inr _, c) \<Rightarrow> command_done ce al ''cancel'' jobID (''canceled job '' @ jobID) c))
   | _ \<Rightarrow> usage_line ''cancel <job-id>'' c)"

definition show_flags :: "cli_env \<Rightarrow> flag_spec list" where
  "show_flags ce = [socket_flag ce, conf_flag ce,
     bool_flag ''json'' ''print raw JSON instead of a key:value dump'',
     bool_flag ''history'' ''also show the job's full status-change history'']"

text \<open>The printers' exit status, with their output on the two streams.\<close>

definition print_result :: "(world \<Rightarrow> int \<times> string \<times> string \<times> world) \<Rightarrow> cli \<Rightarrow> int \<times> cli" where
  "print_result render c = (case render (cl_world c) of (code, out, err, w) \<Rightarrow>
     (code, put_err err (put_out out (c\<lparr>cl_world := w\<rparr>))))"

definition showCmd :: "cli_env \<Rightarrow> string list \<Rightarrow> cli \<Rightarrow> int \<times> cli" where
  "showCmd ce args = with_flags ce ''show'' (show_flags ce) args (\<lambda>vs rest c. case rest of
     [jobID] \<Rightarrow> (case with_logger ce (vs ''conf'') c of (al, c) \<Rightarrow>
       (case on_world (Client_Show (ce_net ce) (vs ''socket'') (ce_peer ce) jobID (vs ''history'' = ''true'')) c of
          (Inl t, c) \<Rightarrow> command_fails ce al ''show'' jobID t c
        | (Inr (job, hist), c) \<Rightarrow>
            print_result (renderJobDetail (ce_env ce) job hist (vs ''json'' = ''true'')) (logCLI ce al ''show'' jobID ''ok'' [] c)))
   | _ \<Rightarrow> usage_line ''show [-json] [-history] <job-id>'' c)"

section \<open>list and prune\<close>

definition list_flags :: "cli_env \<Rightarrow> flag_spec list" where
  "list_flags ce = [socket_flag ce, conf_flag ce,
     bool_flag ''json'' ''print raw JSON instead of a table'',
     string_flag ''tag'' [] ''only show jobs matching this external tag'']"

definition listCmd :: "cli_env \<Rightarrow> string list \<Rightarrow> cli \<Rightarrow> int \<times> cli" where
  "listCmd ce args = with_flags ce ''list'' (list_flags ce) args (\<lambda>vs _ c.
     case with_logger ce (vs ''conf'') c of (al, c) \<Rightarrow>
       (case on_world (Client_List (ce_net ce) (vs ''socket'') (ce_peer ce)) c of
          (Inl t, c) \<Rightarrow> command_fails ce al ''list'' [] t c
        | (Inr jobs, c) \<Rightarrow>
            (let jobs = (if vs ''tag'' \<noteq> [] then filterByTag jobs (vs ''tag'') else jobs) in
             print_result (renderJobList (ce_env ce) jobs (vs ''json'' = ''true'')) (logCLI ce al ''list'' [] ''ok'' [] c))))"

definition pruneCmd :: "cli_env \<Rightarrow> string list \<Rightarrow> cli \<Rightarrow> int \<times> cli" where
  "pruneCmd ce args = with_flags ce ''prune'' (job_flags ce) args (\<lambda>vs rest c.
     if length rest > 1 then usage_line ''prune [job-id]'' c
     else (let jobID = (case rest of [] \<Rightarrow> [] | j # _ \<Rightarrow> j) in
       case with_logger ce (vs ''conf'') c of (al, c) \<Rightarrow>
         (case on_world (Client_Prune (ce_net ce) (vs ''socket'') (ce_peer ce) jobID) c of
            (Inl t, c) \<Rightarrow> command_fails ce al ''prune'' jobID t c
          | (Inr (msg, failures), c) \<Rightarrow>
              (0, logCLI ce al ''prune'' jobID (if failures \<noteq> [] then ''error'' else ''ok'')
                 (FormatInt (int (length failures)) @ '' failure(s)'')
                 (put_err (''surviva prune: '' @ msg @ newline @
                    concat (map (\<lambda>f. ''surviva prune: warning: '' @ f @ newline) failures)) c)))))"

section \<open>daemon\<close>

definition daemon_flags :: "cli_env \<Rightarrow> flag_spec list" where
  "daemon_flags ce =
    [string_flag ''conf'' (DefaultPath (ce_getenv ce ''SURVIVA_CONF'')) ''path to surviva.conf'',
     string_flag ''socket'' (DefaultSocketPath (ce_getenv ce) (ce_goos ce) (ce_tempDir ce)) ''path to listen on'']"

definition store_options :: "Config \<Rightarrow> Options" where
  "store_options cfg = \<lparr>opt_Driver = DBType cfg, opt_Path = DBPath cfg, opt_Host = DBHost cfg, opt_Port = DBPort cfg,
     opt_User = DBUser cfg, opt_Password = DBPassword cfg, opt_DBName = DBName cfg\<rparr>"

text \<open>
  The notifier the configuration asks for: none, one of the two, or an error. \<open>Inr True\<close>:
  there is one. With an unknown type \<open>notifier\<close> stays nil.
\<close>

definition make_notifier :: "cli_env \<Rightarrow> Config \<Rightarrow> cli \<Rightarrow> (string + bool) \<times> cli" where
  "make_notifier ce cfg c =
     (if NotifyTargetType cfg = [] then (Inr False, c)
      else (case ce_aws_config ce of
         Some t \<Rightarrow> (Inl (''load AWS config for notify target: '' @ t), c)
       | None \<Rightarrow> (Inr (NotifyTargetType cfg \<in> {''lambda'', ''stepfunction''}),
           put_err (''surviva daemon: notifying '' @ NotifyTargetType cfg @ '' '' @ NotifyTargetARN cfg @
             '' on interruption'' @ newline) c)))"

definition daemon_config :: "Config \<Rightarrow> bool \<Rightarrow> DaemonConfig" where
  "daemon_config cfg hasNotifier = \<lparr>cfg_HasAudit = True, cfg_HasNotifier = hasNotifier,
     cfg_CheckpointBaseDir = CheckpointBaseDir cfg,
     cfg_MaxConcurrentCheckpoints = MaxConcurrentCheckpoints cfg, cfg_SocketGroup = SocketGroup cfg\<rparr>"

text \<open>
  \<open>Run\<close>: the socket, then the accept loop and the provider over the given events, connections and
  signals alike, each served to its end before the next. The goroutines \<open>Run\<close> starts for them
  are interleaved in theory \<open>Concurrent\<close>.
\<close>

definition daemon_Run ::
  "Daemon \<Rightarrow> env \<Rightarrow> net_env \<Rightarrow> string \<Rightarrow> accept_event list \<Rightarrow> world \<Rightarrow> string option \<times> world" where
  "daemon_Run d e ne socketPath evs w = (case fst (listen_socket d (unicode e) ne socketPath) of
     Some t \<Rightarrow> (Some t, w)
   | None \<Rightarrow> (None, snd (serve d e evs w)))"

definition daemon_fails :: "string \<Rightarrow> cli \<Rightarrow> int \<times> cli" where
  "daemon_fails t c = (1, put_err (''surviva daemon: '' @ t @ newline) c)"

definition daemonCmd :: "cli_env \<Rightarrow> accept_event list \<Rightarrow> string list \<Rightarrow> cli \<Rightarrow> int \<times> cli" where
  "daemonCmd ce evs args = with_flags ce ''daemon'' (daemon_flags ce) args (\<lambda>vs _ c.
     case load_config ce (vs ''conf'') c of
       (Inl t, c) \<Rightarrow> daemon_fails t c
     | (Inr cfg, c) \<Rightarrow> (case on_world (Store_Open (ce_env ce) (store_options cfg)) c of
          (Some err, c) \<Rightarrow> daemon_fails (store_error_text (ce_unicode ce) err) c
        | (None, c) \<Rightarrow> (case on_world (auditlog_Open (ce_env ce) (ce_open ce) (AuditLogPath cfg)) c of
             (Some t, c) \<Rightarrow> daemon_fails t c
           | (None, c) \<Rightarrow>
               if CloudProvider cfg \<noteq> ''aws'' then
                 daemon_fails (''no provider implementation for '' @ quote (ce_unicode ce) (CloudProvider cfg)) c
               else (case make_notifier ce cfg c of
                  (Inl t, c) \<Rightarrow> daemon_fails t c
                | (Inr hasNotifier, c) \<Rightarrow>
                    (let d = daemon_New (ce_numCPU ce) (daemon_config cfg hasNotifier);
                         c = put_err (''surviva daemon: listening on '' @ vs ''socket'' @ '' (provider='' @
                               CloudProvider cfg @ '')'' @ newline) c
                     in case on_world (daemon_Run d (ce_env ce) (ce_net ce) (vs ''socket'') evs) c of
                          (Some t, c) \<Rightarrow> daemon_fails t c
                        | (None, c) \<Rightarrow> (0, c))))))"

section \<open>main\<close>

definition printUsage :: string where
  "printUsage = concat (map (\<lambda>l. l @ newline)
    [''surviva - checkpoint/restore protection, built module by module'',
     [],
     ''Usage:'',
     ''  surviva run [flags] -- <command> [args...]   Run and track a command'',
     ''  surviva join [flags] <pid>                   Adopt an already-running process into tracking'',
     ''  surviva adopt [flags] -checkpoint-dir <path> Adopt a checkpoint made by another surviva instance'',
     ''  surviva pause <job-id>                       Checkpoint a RUNNING job now'',
     ''  surviva resume <job-id>                      Resume a checkpointed job'',
     ''  surviva list [-json]                         List active jobs'',
     ''  surviva show [-json] <job-id>                Show one job, any status'',
     ''  surviva cancel <job-id>                      Stop (if running) and mark a job CANCELED'',
     ''  surviva prune [job-id]                       Clear checkpoint files for terminal job(s)'',
     ''  surviva daemon [flags]                       Run the surviva daemon'',
     [],
     ''Run 'surviva <command> -h' for flags on a specific subcommand.''])"

text \<open>\<open>main\<close> on \<open>os.Args[1:]\<close>, up to \<open>os.Exit\<close>; \<open>evs\<close> are what a daemon accepts and is signalled.\<close>

definition surviva_main :: "cli_env \<Rightarrow> accept_event list \<Rightarrow> string list \<Rightarrow> cli \<Rightarrow> int \<times> cli" where
  "surviva_main ce evs argv c = (case argv of
     [] \<Rightarrow> (1, put_err printUsage c)
   | cmd # args \<Rightarrow>
       if cmd = ''run'' then runCmd ce args c
       else if cmd = ''join'' then joinCmd ce args c
       else if cmd = ''adopt'' then adoptCmd ce args c
       else if cmd = ''pause'' then pauseCmd ce args c
       else if cmd = ''resume'' then resumeCmd ce args c
       else if cmd = ''list'' then listCmd ce args c
       else if cmd = ''show'' then showCmd ce args c
       else if cmd = ''cancel'' then cancelCmd ce args c
       else if cmd = ''prune'' then pruneCmd ce args c
       else if cmd = ''daemon'' then daemonCmd ce evs args c
       else if cmd \<in> {''-h'', ''--help'', ''help''} then (0, put_err printUsage c)
       else (1, put_err (''surviva: unknown command '' @ quote (ce_unicode ce) cmd @ newline @ newline @ printUsage) c))"

end
