(* ===== verification/CliProps.thy ===== *)
theory CliProps
  imports Cli DaemonRegister
begin

text \<open>
  What the commands do to the machine: the frames of their parts, that \<open>run\<close> returns its child's
  status whatever becomes of the daemon, and that \<open>join\<close> refuses what it cannot isolate.
\<close>

section \<open>Frames\<close>

lemma put_simps [simp]:
  "cl_world (put_err t c) = cl_world c" "cl_world (put_out t c) = cl_world c"
  "cl_children (put_err t c) = cl_children c" "cl_children (put_out t c) = cl_children c"
  by (simp_all add: put_err_def put_out_def)

lemma on_world_simps [simp]:
  "cl_world (snd (on_world f c)) = snd (f (cl_world c))" "fst (on_world f c) = fst (f (cl_world c))"
  "cl_children (snd (on_world f c)) = cl_children c"
  by (simp_all add: on_world_def case_prod_unfold)

lemma on_worldD:
  assumes "on_world f c = (x, c')"
  shows "f (cl_world c) = (x, cl_world c')" and "cl_children c' = cl_children c"
  using assms by (auto simp: on_world_def split: prod.splits)

text \<open>\<open>untouched c c'\<close>: the database and the latch are as they were, and no child was started.\<close>

definition untouched :: "cli \<Rightarrow> cli \<Rightarrow> bool" where
  "untouched c c' \<longleftrightarrow> db (cl_world c') = db (cl_world c) \<and>
     interrupted (cl_world c') = interrupted (cl_world c) \<and> cl_children c' = cl_children c"

lemma untouched_refl [simp]: "untouched c c"
  by (simp add: untouched_def)

lemma untouched_trans [trans]: "untouched c c1 \<Longrightarrow> untouched c1 c2 \<Longrightarrow> untouched c c2"
  by (simp add: untouched_def)

lemma untouched_put [simp]:
  "untouched c (put_err t c') \<longleftrightarrow> untouched c c'" "untouched c (put_out t c') \<longleftrightarrow> untouched c c'"
  "untouched (put_err t c) c' \<longleftrightarrow> untouched c c'"
  by (simp_all add: untouched_def)

lemma load_config_untouched: "load_config ce path c = (r, c') \<Longrightarrow> untouched c c'"
  by (auto simp: load_config_def split: sum.splits conf_file.splits if_splits)

lemma openAuditLogger_untouched: "openAuditLogger ce path c = (r, c') \<Longrightarrow> untouched c c'"
proof -
  assume a: "openAuditLogger ce path c = (r, c')"
  obtain r1 c1 where 1: "load_config ce path c = (r1, c1)" by fastforce
  have "untouched c1 c'" if "on_world (auditlog_Open e f p) c1 = (x, c')" for e f p x
    using auditlog_Open_frame [of e f p "cl_world c1"] on_worldD [OF that] by (simp add: untouched_def)
  then show "untouched c c'" using a 1 load_config_untouched [OF 1]
    by (auto simp: openAuditLogger_def split: sum.splits prod.splits option.splits intro: untouched_trans)
qed

lemma with_logger_untouched: "with_logger ce path c = (al, c') \<Longrightarrow> untouched c c'"
  by (auto simp: with_logger_def warnAuditUnavailable_def split: prod.splits option.splits
      dest!: openAuditLogger_untouched)

lemma logCLI_frame [simp]:
  "db (cl_world (logCLI ce al a j out det c)) = db (cl_world c)"
  "interrupted (cl_world (logCLI ce al a j out det c)) = interrupted (cl_world c)"
  "cl_children (logCLI ce al a j out det c) = cl_children c"
  by (simp_all add: logCLI_def case_prod_unfold split: option.splits)

lemma logCLI_untouched [simp]: "untouched c (logCLI ce al a j out det c') \<longleftrightarrow> untouched c c'"
  by (simp add: untouched_def)

lemma command_ends [simp]:
  "untouched c (snd (command_fails ce al a j t c')) \<longleftrightarrow> untouched c c'"
  "untouched c (snd (command_done ce al a j t c')) \<longleftrightarrow> untouched c c'"
  "untouched c (snd (usage_line t c')) \<longleftrightarrow> untouched c c'"
  "fst (command_fails ce al a j t c) = 1" "fst (command_done ce al a j t c) = 0"
  by (simp_all add: command_fails_def command_done_def usage_line_def)

lemma forward_n_frame [simp]:
  "db (forward_n ce pid n w) = db w" "interrupted (forward_n ce pid n w) = interrupted w"
  by (induction n arbitrary: w)
    (simp_all add: procsignal_KillGroup_def frameD(2) [OF KillGroup_frame])

lemma forward_signals_untouched [simp]: "untouched c (forward_signals ce pid c') \<longleftrightarrow> untouched c c'"
  by (simp add: untouched_def forward_signals_def)

lemma announce_untouched [simp]: "untouched c (announce pid reg c') \<longleftrightarrow> untouched c c'"
  by (simp add: announce_def split: sum.split)

lemma supervise_unfold:
  assumes "on_world (Client_Register (ce_net ce) (vs ''socket'') (ce_peer ce) (run_request vs cmdArgs workDir pid)
      (currentOSUser ce)) (forward_signals ce pid c) = (reg, c1)"
    and "c2 = forward_signals ce pid (announce pid reg c1)"
    and "exitCodeAndErr (ce_wait ce (calls (cl_world c2)) pid) = (code, msg)"
  shows "supervise ce al vs cmdArgs workDir pid c = (code, logCLI ce al ''run'' (case reg of Inl _ \<Rightarrow> [] | Inr jobID \<Rightarrow> jobID)
      (if code \<noteq> 0 then ''error'' else ''ok'') msg
      (report_completion ce (vs ''socket'') reg code msg (currentOSUser ce) (forward_signals ce pid c2)))"
  using assms by (simp add: supervise_def Let_def)

section \<open>The render functions only read\<close>

lemma jobDuration_frame: "jobDuration e j w = (d, w') \<Longrightarrow> db w' = db w \<and> interrupted w' = interrupted w"
  by (auto simp: jobDuration_def now_utc_def split: if_splits)

lemma job_lines_frame: "job_lines e js w = (ls, w') \<Longrightarrow> db w' = db w \<and> interrupted w' = interrupted w"
  by (induction js arbitrary: w ls) (auto split: prod.splits dest!: jobDuration_frame)

lemma print_list_untouched: "untouched c (snd (print_result (renderJobList e jobs js) c')) \<longleftrightarrow> untouched c c'"
  by (auto simp: print_result_def renderJobList_def untouched_def split: option.splits prod.splits dest!: job_lines_frame)

lemma print_detail_untouched: "untouched c (snd (print_result (renderJobDetail e j h js) c')) \<longleftrightarrow> untouched c c'"
  by (auto simp: print_result_def renderJobDetail_def untouched_def split: option.splits prod.splits dest!: jobDuration_frame)

section \<open>Commands against a well-behaved daemon\<close>

text \<open>
  A relation between worlds that everything keeps that leaves the database and the latch
  alone; a command keeps it if each of its calls does.
\<close>

locale command_frame =
  fixes kept :: "world \<Rightarrow> world \<Rightarrow> bool"
  assumes quiet: "db w' = db w \<Longrightarrow> interrupted w' = interrupted w \<Longrightarrow> kept w w'"
    and trans: "kept w1 w2 \<Longrightarrow> kept w2 w3 \<Longrightarrow> kept w1 w3"
begin

definition keeps :: "cli \<Rightarrow> cli \<Rightarrow> bool" where
  "keeps c c' \<longleftrightarrow> kept (cl_world c) (cl_world c')"

lemma keeps_untouched: "untouched c c' \<Longrightarrow> keeps c c'"
  by (simp add: keeps_def untouched_def quiet)

lemma keeps_refl [simp]: "keeps c c"
  by (rule keeps_untouched) simp

lemma keeps_trans: "keeps c1 c2 \<Longrightarrow> keeps c2 c3 \<Longrightarrow> keeps c1 c3"
  unfolding keeps_def by (rule trans)

lemma keeps_then: "keeps c c1 \<Longrightarrow> untouched c1 c2 \<Longrightarrow> keeps c c2"
  by (rule keeps_trans [OF _ keeps_untouched])

text \<open>A command is kept step by step.\<close>

lemma keeps_flags:
  "(\<And>vs rest. keeps c (snd (body vs rest c))) \<Longrightarrow> keeps c (snd (with_flags ce cmd specs args body c))"
  by (simp add: with_flags_def Let_def keeps_untouched split: flag_result.split)

lemma keeps_logger:
  "(\<And>al c1. keeps c1 (snd (k al c1))) \<Longrightarrow> keeps c (snd (case with_logger ce path c of (al, c1) \<Rightarrow> k al c1))"
  by (cases "with_logger ce path c") (auto dest!: with_logger_untouched keeps_untouched intro: keeps_trans)

lemma keeps_call:
  assumes "\<And>w. kept w (snd (f w))" and "\<And>r c1. keeps c1 (snd (k r c1))"
  shows "keeps c (snd (case on_world f c of (r, c1) \<Rightarrow> k r c1))"
proof -
  obtain r c1 where 1: "on_world f c = (r, c1)" by fastforce
  have "keeps c c1" using assms(1) [of "cl_world c"] on_worldD(1) [OF 1] by (simp add: keeps_def)
  then show ?thesis using assms(2) keeps_trans by (simp add: 1)
qed

lemmas keeps_end = keeps_untouched command_ends print_list_untouched print_detail_untouched

end

text \<open>If every answer of the peer keeps it, every command does.\<close>

locale kept_peer = command_frame +
  fixes peer :: peer
  assumes answer: "kept w (snd (peer bytes w))"
begin

lemma call_kept: "kept w (snd (client_call ne path peer req w))"
  by (simp add: client_call_def Let_def case_prod_unfold quiet answer split: option.splits)

lemma client_kept:
  "kept w (snd (Client_Register ne path peer j by_whom w))" "kept w (snd (Client_Adopt ne path peer ad by_whom w))"
  "kept w (snd (Client_List ne path peer w))" "kept w (snd (Client_Show ne path peer jid h w))"
  "kept w (snd (Client_Pause ne path peer jid by_whom w))" "kept w (snd (Client_Resume ne path peer jid by_whom w))"
  "kept w (snd (Client_Cancel ne path peer jid by_whom w))" "kept w (snd (Client_Prune ne path peer jid w))"
  "kept w (snd (Client_Complete ne path peer jid code msg by_whom w))"
  unfolding Client_Register_def Client_Adopt_def Client_List_def Client_Pause_def Client_Resume_def
    Client_Cancel_def Client_Prune_def Client_Complete_def Client_Show_def
  by (simp_all add: case_prod_unfold call_kept split: sum.split option.split)

lemma job_commands_keep:
  assumes "ce_peer ce = peer"
  shows "keeps c (snd (pauseCmd ce args c))" "keeps c (snd (resumeCmd ce args c))"
    "keeps c (snd (cancelCmd ce args c))" "keeps c (snd (showCmd ce args c))"
  unfolding pauseCmd_def resumeCmd_def cancelCmd_def showCmd_def assms
  by (rule keeps_flags; simp add: keeps_end split: list.split; intro allI impI keeps_logger keeps_call client_kept;
      simp add: keeps_end split: sum.split prod.split)+

lemma other_commands_keep:
  assumes "ce_peer ce = peer"
  shows "keeps c (snd (adoptCmd ce args c))" "keeps c (snd (listCmd ce args c))" "keeps c (snd (pruneCmd ce args c))"
  unfolding adoptCmd_def listCmd_def pruneCmd_def assms
  by (rule keeps_flags; simp add: Let_def keeps_end; intro allI impI keeps_logger keeps_call client_kept;
      simp add: keeps_end split: sum.split prod.split)+

lemma joinCmd_keeps:
  assumes "ce_peer ce = peer" shows "keeps c (snd (joinCmd ce args c))"
proof -
  have build: "kept w (snd (buildJoinRequest ce pid vs w))" for pid vs w
    by (rule quiet) (simp_all add: buildJoinRequest_def case_prod_unfold split: sum.split)
  show ?thesis unfolding joinCmd_def assms
    by (rule keeps_flags; simp add: keeps_end split: list.split sum.split;
        intro allI impI keeps_logger keeps_call build; simp add: keeps_end split: sum.split;
        intro allI impI keeps_call client_kept; simp add: keeps_end split: sum.split)
qed

lemma supervise_keeps:
  assumes "ce_peer ce = peer" shows "keeps c (snd (supervise ce al vs cmdArgs workDir pid c))"
proof -
  let ?c0 = "forward_signals ce pid c"
  obtain reg c1 where reg: "on_world (Client_Register (ce_net ce) (vs ''socket'') (ce_peer ce)
      (run_request vs cmdArgs workDir pid) (currentOSUser ce)) ?c0 = (reg, c1)" by fastforce
  obtain c2 where c2: "c2 = forward_signals ce pid (announce pid reg c1)" by simp
  obtain code msg where fin: "exitCodeAndErr (ce_wait ce (calls (cl_world c2)) pid) = (code, msg)" by fastforce
  let ?rep = "report_completion ce (vs ''socket'') reg code msg (currentOSUser ce) (forward_signals ce pid c2)"
  have "keeps ?c0 c1" using client_kept(1) [of "cl_world ?c0"] on_worldD(1) [OF reg]
    by (metis assms keeps_def snd_conv)
  moreover have "untouched c ?c0" "untouched c1 (forward_signals ce pid c2)" by (simp_all add: c2)
  ultimately have "keeps c (forward_signals ce pid c2)" by (metis keeps_then keeps_trans keeps_untouched)
  moreover have "keeps (forward_signals ce pid c2) ?rep"
    using client_kept(9) by (simp add: report_completion_def assms case_prod_unfold keeps_def quiet split: sum.split)
  ultimately have "keeps c ?rep" by (rule keeps_trans)
  then show ?thesis unfolding supervise_unfold [OF reg c2 fin] snd_conv by (rule keeps_then) simp
qed

lemma keeps_start:
  assumes "\<And>r c1. keeps c1 (snd (k r c1))"
  shows "keeps c (snd (case start_child ce argv c of (r, c1) \<Rightarrow> k r c1))"
proof -
  obtain r c1 where 1: "start_child ce argv c = (r, c1)" by fastforce
  then have "keeps c c1" by (auto simp: start_child_def keeps_def quiet split: sum.splits)
  then show ?thesis using assms keeps_trans by (simp add: 1)
qed

lemma runCmd_keeps:
  assumes "ce_peer ce = peer" shows "keeps c (snd (runCmd ce args c))"
  unfolding runCmd_def
  by (rule keeps_flags; simp add: Let_def keeps_end; intro impI keeps_logger; simp add: keeps_end split: sum.split;
      intro allI impI keeps_start; simp add: keeps_end supervise_keeps [OF assms] split: sum.split)

lemma main_keeps:
  assumes "ce_peer ce = peer" and "argv = [] \<or> hd argv \<noteq> ''daemon''"
  shows "keeps c (snd (surviva_main ce evs argv c))"
  using assms(2) by (cases argv)
    (simp_all add: surviva_main_def keeps_end runCmd_keeps joinCmd_keeps job_commands_keep other_commands_keep assms(1))

end

interpretation daemon_peer: kept_peer "safe start_statuses" "handleConn (daemon_New numCPU cfg) e" for numCPU cfg e
proof
  show "safe start_statuses w w'" if "db w' = db w" "interrupted w' = interrupted w" for w w'
    using that by (rule safe_quiet)
  show "safe start_statuses w1 w3" if "safe start_statuses w1 w2" "safe start_statuses w2 w3" for w1 w2 w3
    using that by (rule safe_trans)
  show "safe start_statuses w (snd (handleConn (daemon_New numCPU cfg) e bytes w))" for w bytes
    using dispatch_safe [of "daemon_New numCPU cfg" w e] by (simp add: handleConn_def case_prod_unfold split: option.split)
qed

text \<open>
  Against a daemon that answers every connection alone, no command line breaks the table, whatever
  the network, the files and the processes do.
\<close>

lemma commands_safe:
  assumes "ce_peer ce = handleConn (daemon_New numCPU cfg) (ce_env ce)" and "argv = [] \<or> hd argv \<noteq> ''daemon''"
  shows "safe start_statuses (cl_world c) (cl_world (snd (surviva_main ce evs argv c)))"
  using daemon_peer.main_keeps [OF assms] by (simp add: daemon_peer.keeps_def)

text \<open>A machine on which everything works and the child ends with status 3.\<close>

definition quiet_cli :: cli_env where
  "quiet_cli = \<lparr>ce_env = quiet_env, ce_net = quiet_net, ce_peer = handleConn sample_daemon quiet_env,
     ce_getenv = (\<lambda>_. []), ce_goos = ''linux'', ce_tempDir = ''/tmp'',
     ce_conf = (\<lambda>_. OpenFails ''no such file''), ce_user = Some ''bob'', ce_getwd = Inr ''/home'',
     ce_fds = Some [''0'', ''1'', ''2'', ''7''], ce_start = (\<lambda>_ _. Inr 4321), ce_wait = (\<lambda>_ _. WaitExit 3),
     ce_signals = (\<lambda>_. 1), ce_open = (\<lambda>_. None), ce_getpgid = (\<lambda>pid. Inr pid), ce_readlink = (\<lambda>_. None),
     ce_aws_config = None, ce_numCPU = 4\<rparr>"

definition fresh_cli :: "world \<Rightarrow> cli" where
  "fresh_cli w = \<lparr>cl_world = w, cl_out = [], cl_err = [], cl_children = []\<rparr>"

section \<open>run\<close>

lemma frame_children [simp]:
  "cl_children (forward_signals ce pid c) = cl_children c" "cl_children (announce pid reg c) = cl_children c"
  "cl_children (report_completion ce sock reg code msg by_whom c) = cl_children c"
  by (simp_all add: forward_signals_def announce_def report_completion_def case_prod_unfold split: sum.split)

lemma supervise_result:
  assumes "\<forall>h. ce_wait ce h pid = r"
  shows "fst (supervise ce al vs cmdArgs workDir pid c) = fst (exitCodeAndErr r)"
    and "cl_children (snd (supervise ce al vs cmdArgs workDir pid c)) = cl_children c"
  using assms by (simp_all add: supervise_def Let_def case_prod_unfold)

lemma runCmd_supervises:
  assumes "flag_Parse (ce_unicode ce) (track_flags ce) args = Parsed vs cmdArgs"
    and "cmdArgs \<noteq> []" and "hd cmdArgs \<noteq> ''--''" and "ce_getwd ce = Inr workDir"
    and "\<forall>h. ce_start ce h cmdArgs = Inr pid"
  obtains al c1 where "untouched c c1"
    and "runCmd ce args c = supervise ce al vs cmdArgs workDir pid (snd (start_child ce cmdArgs c1))"
proof -
  obtain al c1 where 1: "with_logger ce (vs ''conf'') c = (al, c1)" by fastforce
  obtain a as where a: "cmdArgs = a # as" "a \<noteq> ''--''" using assms(2,3) by (cases cmdArgs) simp_all
  obtain c2 where 2: "start_child ce cmdArgs c1 = (Inr pid, c2)"
    using assms(5) by (simp add: start_child_def)
  have "runCmd ce args c = supervise ce al vs cmdArgs workDir pid c2"
    using assms(1,4) 1 2 a by (simp add: runCmd_def with_flags_def Let_def)
  then have "runCmd ce args c = supervise ce al vs cmdArgs workDir pid (snd (start_child ce cmdArgs c1))"
    by (simp add: 2)
  then show thesis using that with_logger_untouched [OF 1] by blast
qed

lemma CloseInherited_closes:
  "name \<in> set names \<Longrightarrow> Atoi name = Inr fd \<Longrightarrow> fd > 2 \<Longrightarrow> fd \<in> set (CloseInherited ''linux'' (Some names))"
  by (auto simp: CloseInherited_def intro!: bexI [of _ name] exI [of _ fd])

text \<open>
  Claim C12. \<open>surviva run\<close> is transparent: once the command could be started, the exit status is exactly
  the child's, whatever the daemon, the network, the audit log and the signals do; the child
  was started once, with the arguments as given, on Linux in a session of its own and with
  every descriptor past standard error closed to it.
\<close>

theorem run_transparent:
  assumes "flag_Parse (ce_unicode ce) (track_flags ce) args = Parsed vs cmdArgs"
    and "cmdArgs \<noteq> []" and "hd cmdArgs \<noteq> ''--''" and "ce_getwd ce = Inr workDir"
    and "\<forall>h. ce_start ce h cmdArgs = Inr pid" and "\<forall>h. ce_wait ce h pid = r"
    and "ce_goos ce = ''linux''" and "ce_fds ce = Some names"
    and "runCmd ce args c = (code, c')"
  shows "code = (case r of WaitOk \<Rightarrow> 0 | WaitExit n \<Rightarrow> n | WaitError _ \<Rightarrow> 1) \<and>
    (\<exists>fds. cl_children c' = cl_children c @ [\<lparr>ch_argv = cmdArgs, ch_attr = \<lparr>Setsid = True\<rparr>, ch_cloexec = fds\<rparr>] \<and>
       (\<forall>name fd. name \<in> set names \<and> Atoi name = Inr fd \<and> fd > 2 \<longrightarrow> fd \<in> set fds))"
proof -
  obtain al c1 where c1: "untouched c c1"
    and run: "runCmd ce args c = supervise ce al vs cmdArgs workDir pid (snd (start_child ce cmdArgs c1))"
    by (rule runCmd_supervises [OF assms(1-5)])
  let ?fds = "CloseInherited ''linux'' (Some names)"
  have "code = fst (exitCodeAndErr r)"
    using supervise_result(1) [OF assms(6)] run assms(9) by (metis fst_conv)
  moreover have "cl_children c' = cl_children (snd (start_child ce cmdArgs c1))"
    using supervise_result(2) [OF assms(6)] run assms(9) by (metis snd_conv)
  then have "cl_children c' = cl_children c @ [\<lparr>ch_argv = cmdArgs, ch_attr = \<lparr>Setsid = True\<rparr>, ch_cloexec = ?fds\<rparr>]"
    using assms(5,7,8) c1 by (simp add: start_child_def procattr_New_def is_unix_def untouched_def)
  moreover have "\<forall>name fd. name \<in> set names \<and> Atoi name = Inr fd \<and> fd > 2 \<longrightarrow> fd \<in> set ?fds"
    by (intro allI impI, elim conjE, rule CloseInherited_closes)
  moreover have "fst (exitCodeAndErr r) = (case r of WaitOk \<Rightarrow> 0 | WaitExit n \<Rightarrow> n | WaitError _ \<Rightarrow> 1)"
    by (simp add: exitCodeAndErr_def split: wait_outcome.split)
  ultimately show ?thesis by simp
qed

lemma quiet_cli_simps [simp]:
  "ce_env quiet_cli = quiet_env" "ce_net quiet_cli = quiet_net" "ce_peer quiet_cli = handleConn sample_daemon quiet_env"
  "ce_goos quiet_cli = ''linux''" "ce_getwd quiet_cli = Inr ''/home''" "ce_start quiet_cli h argv = Inr 4321"
  "ce_wait quiet_cli h pid = WaitExit 3" "ce_fds quiet_cli = Some [''0'', ''1'', ''2'', ''7'']"
  "ce_getpgid quiet_cli pid = Inr pid"
  by (simp_all add: quiet_cli_def)

lemma parse_plain_command:
  assumes "length a \<ge> 1" and "hd a \<noteq> CHR ''-''"
  shows "flag_Parse u specs (a # as) = Parsed (flag_defaults specs) (a # as)"
  using assms by (cases a) (simp_all add: flag_Parse_def parse_flags.simps(2))

theorem run_transparent_witness:
  "\<exists>fds. fst (runCmd quiet_cli [''sleep'', ''1''] (fresh_cli empty_world)) = 3 \<and>
     cl_children (snd (runCmd quiet_cli [''sleep'', ''1''] (fresh_cli empty_world))) =
       [\<lparr>ch_argv = [''sleep'', ''1''], ch_attr = \<lparr>Setsid = True\<rparr>, ch_cloexec = fds\<rparr>] \<and> 7 \<in> set fds"
proof -
  obtain code c' where run: "runCmd quiet_cli [''sleep'', ''1''] (fresh_cli empty_world) = (code, c')" by fastforce
  have seven: "Atoi ''7'' = Inr 7" by (simp add: Atoi_def ParseInt_eval)
  have parse: "flag_Parse (ce_unicode quiet_cli) (track_flags quiet_cli) [''sleep'', ''1''] =
      Parsed (flag_defaults (track_flags quiet_cli)) [''sleep'', ''1'']" by (rule parse_plain_command) simp_all
  have "code = 3 \<and> (\<exists>fds. cl_children c' = cl_children (fresh_cli empty_world) @
      [\<lparr>ch_argv = [''sleep'', ''1''], ch_attr = \<lparr>Setsid = True\<rparr>, ch_cloexec = fds\<rparr>] \<and>
      (\<forall>name fd. name \<in> set [''0'', ''1'', ''2'', ''7''] \<and> Atoi name = Inr fd \<and> fd > 2 \<longrightarrow> fd \<in> set fds))"
    using run_transparent [OF parse, of "''/home''" 4321 "WaitExit 3" "[''0'', ''1'', ''2'', ''7'']"] run by simp
  then obtain fds where "code = 3" and fds: "cl_children c' = cl_children (fresh_cli empty_world) @
      [\<lparr>ch_argv = [''sleep'', ''1''], ch_attr = \<lparr>Setsid = True\<rparr>, ch_cloexec = fds\<rparr>]"
    and cl: "\<forall>name fd. name \<in> set [''0'', ''1'', ''2'', ''7''] \<and> Atoi name = Inr fd \<and> fd > 2 \<longrightarrow> fd \<in> set fds"
    by (elim conjE exE)
  have "7 \<in> set fds" using cl [rule_format, of "''7''" 7] seven by simp
  then show ?thesis using run \<open>code = 3\<close> fds by (simp add: fresh_cli_def)
qed

section \<open>join\<close>

text \<open>
  Claim C13. \<open>surviva join\<close> tracks nothing but process-group leaders: for any other process, and wherever
  this cannot be checked, it fails, and whatever is listening on the socket hears nothing of
  it: the job table is as it was.
\<close>

theorem join_only_leaders:
  assumes "flag_Parse (ce_unicode ce) (track_flags ce) args = Parsed vs [arg]" and "Atoi arg = Inr pid"
    and "ce_goos ce \<noteq> ''linux'' \<or> ce_getpgid ce pid \<noteq> Inr pid"
  shows "fst (joinCmd ce args c) = 1 \<and> untouched c (snd (joinCmd ce args c))"
proof -
  obtain al c1 where 1: "with_logger ce (vs ''conf'') c = (al, c1)" by fastforce
  obtain t where "buildJoinRequest ce pid vs (cl_world c1) = (Inl t, cl_world c1)"
    using assms(3) by (cases "ce_goos ce = ''linux''"; cases "ce_getpgid ce pid")
      (auto simp: buildJoinRequest_def IsGroupLeader_def)
  then have "on_world (buildJoinRequest ce pid vs) c1 = (Inl t, c1)" by (simp add: on_world_def)
  then show ?thesis using assms(1,2) 1 with_logger_untouched [OF 1]
    by (simp add: joinCmd_def with_flags_def Let_def)
qed

theorem join_only_leaders_witness:
  "fst (joinCmd (quiet_cli\<lparr>ce_getpgid := (\<lambda>_. Inr 1)\<rparr>) [''77''] (fresh_cli empty_world)) = 1 \<and>
   untouched (fresh_cli empty_world) (snd (joinCmd (quiet_cli\<lparr>ce_getpgid := (\<lambda>_. Inr 1)\<rparr>) [''77''] (fresh_cli empty_world)))"
  by (rule join_only_leaders [OF parse_plain_command, of _ 77]) (simp_all add: Atoi_def ParseInt_eval)

end
