(* ===== verification/CliRun.thy ===== *)
theory CliRun
  imports CliProps
begin

text \<open>
  Commands from the command line to the database: \<open>run\<close>, whose registration and completion travel
  through the client, the socket, the daemon and the store, the commands on one job, and those
  that only look. Nobody else is at work meanwhile: the peer handles each connection alone.
\<close>

section \<open>Calls that reach the daemon\<close>

definition net_ok :: "net_env \<Rightarrow> bool" where
  "net_ok ne \<longleftrightarrow> (\<forall>h path. ne_dial ne h path = None) \<and> (\<forall>h bytes. ne_send ne h bytes = None)"

lemma ascii_FormatInt: "ascii (FormatInt n)"
  using FormatInt_plain_chars [of n] by (simp add: ascii_def plain_char_def Let_def list_all_iff)

text \<open>An OK answer that names a job and nothing else.\<close>

lemma plain_answer:
  assumes "net_ok ne" and "request_ints_ok req" and "dispatch d e (sane_request req) w = (resp_ok\<lparr>rs_JobID := jid\<rparr>, w')"
    and "ascii jid"
  shows "\<exists>resp. client_call ne path (handleConn d e) req w = (Inr resp, w') \<and> rs_JobID resp = jid"
proof -
  let ?rs = "resp_ok\<lparr>rs_JobID := jid\<rparr>"
  obtain s where s: "write_response ?rs = Some s"
    by (simp add: write_response_def enc_response_def resp_ok_def response0_def)
  have "client_call ne path (handleConn d e) req w =
      (if rs_OK ?rs then Inr (sane_response ?rs) else Inl (''daemon error: '' @ sanitize (rs_Error ?rs)), w')"
    by (rule daemon_server.call_answer [OF _ _ assms(2,3) s])
      (use assms(1) in \<open>simp_all add: net_ok_def response_ints_ok_def resp_ok_def response0_def\<close>)
  then show ?thesis using sanitize_ascii [OF assms(4)] by (simp add: resp_ok_def sane_response_def)
qed

lemma register_reaches:
  assumes "net_ok ne" and "sql_ok e" and "store_wf start_statuses (db w)" and "jobs_seq (db w) < int64_max"
    and "\<not> interrupted w" and "hook_valid e (sanitize (rj_HookCheckpoint r))" and "hook_valid e (sanitize (rj_HookResume r))"
    and "in_int64 (rj_PID r)" and "in_int64 (rj_PGID r)"
  obtains w' j where "Client_Register ne path (handleConn d e) r by_whom w = (Inr (FormatInt (jobs_seq (db w) + 1)), w')"
    and "fst (Store_Get e (FormatInt (jobs_seq (db w) + 1)) w') = Inr j" and "Status j = StatusRunning"
    and "PID j = rj_PID r" and "store_wf start_statuses (db w')"
proof -
  let ?n = "jobs_seq (db w) + 1"
  let ?req = "zero_request\<lparr>rq_Action := ''register'', rq_Job := Some r, rq_RequestedBy := by_whom\<rparr>"
  have act: "rq_Action (sane_request ?req) = ''register''" "rq_Job (sane_request ?req) = Some (sane_register r)"
    by (simp_all add: sane_request_def sanitize_ascii ascii_def)
  have "hook_valid e (rj_HookCheckpoint (sane_register r))" "hook_valid e (rj_HookResume (sane_register r))"
    using assms(6,7) by (simp_all add: sane_register_def)
  from handleRegister_registers [OF assms(2-5) act(2) this, of d]
  obtain w' j where h: "handleRegister d e (sane_request ?req) w = (resp_ok\<lparr>rs_JobID := FormatInt ?n\<rparr>, w')"
    and j: "fst (Store_Get e (FormatInt ?n) w') = Inr j" "Status j = StatusRunning" "PID j = rj_PID (sane_register r)"
    by (elim exE conjE) simp
  have "dispatch d e (sane_request ?req) w = (resp_ok\<lparr>rs_JobID := FormatInt ?n\<rparr>, w')"
    by (simp add: dispatch_def act h)
  moreover have "request_ints_ok ?req" using assms(8,9) by (simp add: request_ints_ok_def zero_request_def)
  ultimately obtain resp where "client_call ne path (handleConn d e) ?req w = (Inr resp, w')" "rs_JobID resp = FormatInt ?n"
    using plain_answer [OF assms(1) _ _ ascii_FormatInt] by metis
  then have "Client_Register ne path (handleConn d e) r by_whom w = (Inr (FormatInt ?n), w')"
    by (simp add: Client_Register_def map_right_def)
  moreover have "store_wf start_statuses (db w')"
    using handleRegister_safe [of w d e "sane_request ?req"] db_life.run_invar [OF _ assms(3)] h by (simp add: safe_def)
  ultimately show thesis using that j by (simp add: sane_register_def)
qed

lemma completed_answer:
  assumes "sql_ok e" and "store_wf start_statuses (db w)" and "parseID (rq_JobID req) = Inr n"
    and "status_at (db w) n = Some StatusRunning" and "handleComplete e req w = (rs, w')" and "rs_OK rs"
  shows "rs = resp_ok\<lparr>rs_JobID := rq_JobID req\<rparr>"
proof -
  obtain j r where j: "Store_Get e (rq_JobID req) w = (Inr j, record_call (SqlCall SqlSelectJob) w)"
      "Status j = StatusRunning"
    by (rule get_job [OF assms(1-4)])
  show ?thesis using assms(5,6) j parseID_nonempty [OF assms(3)]
    by (cases "rq_ExitCode req = 0") (auto simp: handleComplete_def Let_def split: prod.splits option.splits)
qed

lemma complete_reaches:
  assumes "net_ok ne" and "sql_ok e" and "store_wf start_statuses (db w)" and "in_int64 n"
    and "status_at (db w) n = Some StatusRunning" and "in_int64 code"
  obtains w' where "Client_Complete ne path (handleConn d e) (FormatInt n) code msg by_whom w = (Inr (), w')"
    and "moved (db w) n [(StatusRunning, if code = 0 then StatusCompleted else StatusFailed)]
           (if code = 0 then StatusCompleted else StatusFailed) (db w')"
    and "code \<noteq> 0 \<Longrightarrow> reason_at (db w') n =
           Some (if sanitize msg = [] then ''exited with code '' @ FormatInt code else sanitize msg)"
proof -
  let ?req = "zero_request\<lparr>rq_Action := ''complete'', rq_JobID := FormatInt n, rq_ExitCode := code,
     rq_ErrMsg := msg, rq_RequestedBy := by_whom\<rparr>"
  have act: "rq_Action (sane_request ?req) = ''complete''" "rq_JobID (sane_request ?req) = FormatInt n"
      "rq_ExitCode (sane_request ?req) = code"
    by (simp_all add: sane_request_def sanitize_ascii ascii_FormatInt) (simp add: sanitize_ascii ascii_def)
  have id1: "parseID (rq_JobID (sane_request ?req)) = Inr n" using act(2) parseID_FormatInt [OF assms(4)] by simp
  obtain rs w' where h: "handleComplete e (sane_request ?req) w = (rs, w')" by fastforce
  note fin = handleComplete_completes [OF assms(2,3) id1 assms(5) h]
  have "rs = resp_ok\<lparr>rs_JobID := FormatInt n\<rparr>"
    using completed_answer [OF assms(2,3) id1 assms(5) h] fin act(2) by simp
  then have "dispatch d e (sane_request ?req) w = (resp_ok\<lparr>rs_JobID := FormatInt n\<rparr>, w')"
    using h by (simp add: dispatch_def act(1))
  moreover have "request_ints_ok ?req" using assms(6) by (simp add: request_ints_ok_def zero_request_def)
  ultimately obtain resp where "client_call ne path (handleConn d e) ?req w = (Inr resp, w')"
    using plain_answer [OF assms(1) _ _ ascii_FormatInt] by metis
  then have "Client_Complete ne path (handleConn d e) (FormatInt n) code msg by_whom w = (Inr (), w')"
    by (simp add: Client_Complete_def map_right_def)
  moreover have "failure_reason (sane_request ?req) =
      (if sanitize msg = [] then ''exited with code '' @ FormatInt code else sanitize msg)"
    by (simp add: failure_reason_def sane_request_def)
  ultimately show thesis using that fin act(3) by (cases "code = 0") simp_all
qed

section \<open>A job from start to end\<close>

lemma supervise_records:
  assumes "ce_peer ce = handleConn d (ce_env ce)" and "net_ok (ce_net ce)" and "sql_ok (ce_env ce)"
    and "store_wf start_statuses (db (cl_world c))" and "jobs_seq (db (cl_world c)) < int64_max"
    and "\<not> interrupted (cl_world c)"
    and "hook_valid (ce_env ce) (sanitize (vs ''hook-checkpoint''))"
    and "hook_valid (ce_env ce) (sanitize (vs ''hook-resume''))"
    and "in_int64 pid" and "\<forall>h. ce_wait ce h pid = r" and "exitCodeAndErr r = (code, msg)" and "in_int64 code"
    and "n = jobs_seq (db (cl_world c)) + 1"
    and "supervise ce al vs cmdArgs workDir pid c = (result, c')"
  shows "status_at (db (cl_world c')) n = Some (if code = 0 then StatusCompleted else StatusFailed)"
    and "code \<noteq> 0 \<Longrightarrow> reason_at (db (cl_world c')) n =
      Some (if sanitize msg = [] then ''exited with code '' @ FormatInt code else sanitize msg)"
proof -
  let ?e = "ce_env ce" and ?c0 = "forward_signals ce pid c" and ?by = "currentOSUser ce"
  let ?req = "run_request vs cmdArgs workDir pid" and ?jid = "FormatInt n"
  have c0: "db (cl_world ?c0) = db (cl_world c)" "interrupted (cl_world ?c0) = interrupted (cl_world c)"
    by (simp_all add: forward_signals_def)
  have fields: "rj_PID ?req = pid" "rj_PGID ?req = pid" "rj_HookCheckpoint ?req = vs ''hook-checkpoint''"
      "rj_HookResume ?req = vs ''hook-resume''" by (simp_all add: run_request_def)
  obtain w1 j where reg: "Client_Register (ce_net ce) (vs ''socket'') (handleConn d ?e) ?req ?by (cl_world ?c0) = (Inr ?jid, w1)"
      and j: "fst (Store_Get ?e ?jid w1) = Inr j" "Status j = StatusRunning" and wf1: "store_wf start_statuses (db w1)"
    using register_reaches [OF assms(2,3), of "cl_world ?c0" ?req "vs ''socket''" d ?by] assms(4-9,13) fields c0 by metis
  have n: "in_int64 n" using assms(5,13) store_wfD(4) [OF assms(4)] by (simp add: in_int64_def int64_bounds_values)
  have running: "status_at (db w1) n = Some StatusRunning"
    using j Store_Get_status_of [of ?e ?jid w1 j] parseID_FormatInt [OF n] by (cases "Store_Get ?e ?jid w1") force
  obtain c1 where c1: "on_world (Client_Register (ce_net ce) (vs ''socket'') (ce_peer ce) ?req ?by) ?c0 = (Inr ?jid, c1)"
      "cl_world c1 = w1" using reg by (simp add: on_world_def assms(1))
  obtain c2 where c2: "c2 = forward_signals ce pid (announce pid (Inr ?jid) c1)" by simp
  let ?c3 = "forward_signals ce pid c2"
  have "untouched c1 ?c3" by (simp add: c2)
  then have c3: "db (cl_world ?c3) = db w1" using c1(2) by (simp add: untouched_def)
  obtain w4 where comp: "Client_Complete (ce_net ce) (vs ''socket'') (handleConn d ?e) ?jid code msg ?by (cl_world ?c3) = (Inr (), w4)"
      "moved (db (cl_world ?c3)) n [(StatusRunning, if code = 0 then StatusCompleted else StatusFailed)]
         (if code = 0 then StatusCompleted else StatusFailed) (db w4)"
      "code \<noteq> 0 \<Longrightarrow> reason_at (db w4) n =
         Some (if sanitize msg = [] then ''exited with code '' @ FormatInt code else sanitize msg)"
    using complete_reaches [OF assms(2,3) _ n, of "cl_world ?c3" code "vs ''socket''" d msg ?by] wf1 running assms(12) c3 by metis
  have "cl_world (report_completion ce (vs ''socket'') (Inr ?jid) code msg ?by ?c3) = w4"
    by (simp add: report_completion_def on_world_def assms(1) comp(1))
  moreover have "exitCodeAndErr (ce_wait ce (calls (cl_world c2)) pid) = (code, msg)" using assms(10,11) by simp
  ultimately have "db (cl_world c') = db w4" using supervise_unfold [OF c1(1) c2, of code msg al] assms(14) by auto
  then show "status_at (db (cl_world c')) n = Some (if code = 0 then StatusCompleted else StatusFailed)"
    "code \<noteq> 0 \<Longrightarrow> reason_at (db (cl_world c')) n =
      Some (if sanitize msg = [] then ''exited with code '' @ FormatInt code else sanitize msg)"
    using comp(2,3) by (simp_all add: moved_def)
qed

text \<open>
  Claim C10. A command run under \<open>surviva run\<close> is recorded from start to end, under these conditions:
  the daemon is reachable, its database works, it has not been interrupted, the hooks given pass
  its check, the command starts, and while it runs nobody else acts on the job (no pause, cancel
  or interruption, after which the completion would be ignored). Then the job gets the next id,
  and when \<open>run\<close> returns, the database has it as COMPLETED if the child's exit status is zero and
  as FAILED otherwise, with the exit status in words, or the error of waiting for it, as the reason.
\<close>

theorem run_recorded:
  assumes "ce_peer ce = handleConn d (ce_env ce)" and "net_ok (ce_net ce)" and "sql_ok (ce_env ce)"
    and "store_wf start_statuses (db (cl_world c))" and "jobs_seq (db (cl_world c)) < int64_max"
    and "\<not> interrupted (cl_world c)"
    and "flag_Parse (ce_unicode ce) (track_flags ce) args = Parsed vs cmdArgs"
    and "hook_valid (ce_env ce) (sanitize (vs ''hook-checkpoint''))"
    and "hook_valid (ce_env ce) (sanitize (vs ''hook-resume''))"
    and "cmdArgs \<noteq> []" and "hd cmdArgs \<noteq> ''--''" and "ce_getwd ce = Inr workDir"
    and "\<forall>h. ce_start ce h cmdArgs = Inr pid" and "in_int64 pid"
    and "\<forall>h. ce_wait ce h pid = r" and "exitCodeAndErr r = (code, msg)" and "in_int64 code"
    and "n = jobs_seq (db (cl_world c)) + 1" and "runCmd ce args c = (result, c')"
  shows "result = code \<and>
    status_at (db (cl_world c')) n = Some (if code = 0 then StatusCompleted else StatusFailed) \<and>
    (code \<noteq> 0 \<longrightarrow> reason_at (db (cl_world c')) n =
       Some (if sanitize msg = [] then ''exited with code '' @ FormatInt code else sanitize msg))"
proof -
  obtain al c1 where c1: "untouched c c1"
    and run: "runCmd ce args c = supervise ce al vs cmdArgs workDir pid (snd (start_child ce cmdArgs c1))"
    by (rule runCmd_supervises [OF assms(7,10-13)])
  let ?c2 = "snd (start_child ce cmdArgs c1)"
  have c2: "db (cl_world ?c2) = db (cl_world c)" "interrupted (cl_world ?c2) = interrupted (cl_world c)"
    using c1 assms(13) by (simp_all add: start_child_def untouched_def)
  have sup: "supervise ce al vs cmdArgs workDir pid ?c2 = (result, c')" using run assms(19) by simp
  have "result = code" using supervise_result(1) [OF assms(15)] sup assms(16) by (metis fst_conv)
  moreover note supervise_records [OF assms(1-3) _ _ _ assms(8,9,14-17) _ sup, of n] assms(4-6,18) c2
  ultimately show ?thesis by simp
qed

theorem run_recorded_witness:
  "status_at (db (cl_world (snd (runCmd quiet_cli [''sleep'', ''1''] (fresh_cli empty_world))))) 1 = Some StatusFailed"
proof -
  obtain code c' where run: "runCmd quiet_cli [''sleep'', ''1''] (fresh_cli empty_world) = (code, c')" by fastforce
  have parse: "flag_Parse (ce_unicode quiet_cli) (track_flags quiet_cli) [''sleep'', ''1''] =
      Parsed (flag_defaults (track_flags quiet_cli)) [''sleep'', ''1'']" by (rule parse_plain_command) simp_all
  have w: "cl_world (fresh_cli empty_world) = empty_world" by (simp add: fresh_cli_def)
  have ints: "in_int64 4321" "in_int64 3" by (simp_all add: in_int64_def int64_bounds_values)
  have "status_at (db (cl_world c')) 1 = Some (if (3::int) = 0 then StatusCompleted else StatusFailed)"
    by (rule run_recorded [OF _ _ _ _ _ _ parse _ _ _ _ _ _ ints(1) _ _ ints(2) _ run, THEN conjunct2, THEN conjunct1])
      (simp_all add: w net_ok_def quiet_net_def empty_world_wf quiet_hook_valid exitCodeAndErr_def,
       simp_all add: empty_world_def empty_db_def int64_bounds_values)
  then show ?thesis by (simp add: run)
qed

section \<open>One command, one request\<close>

definition same_jobs :: "world \<Rightarrow> world \<Rightarrow> bool" where
  "same_jobs w w' \<longleftrightarrow> db w' = db w \<and> interrupted w' = interrupted w"

lemma call_world:
  assumes "net_ok ne" and "request_ints_ok req"
  shows "snd (client_call ne path (handleConn d e) req w) = snd (dispatch d e (sane_request req) w)"
  using assms daemon_server.answers [OF assms(2), of d e w]
  by (simp add: net_ok_def client_call_def Let_def case_prod_unfold split: option.split)

text \<open>The answers to the commands on one job carry no job and no history, so they can be written.\<close>

definition wordy :: "Response \<Rightarrow> bool" where
  "wordy rs \<longleftrightarrow> rs_Job rs = None \<and> rs_Jobs rs = [] \<and> rs_History rs = []"

lemma wordy_answers:
  "wordy (fst (handlePause d e req w))" "wordy (fst (handleResume d e req w))" "wordy (fst (handleCancel e req w))"
  unfolding handlePause_def handleResume_def handleCancel_def
  by (auto simp: wordy_def resp_ok_def resp_error_def response0_def split: sum.split option.split prod.split)

lemma wordy_call:
  assumes "net_ok ne" and "request_ints_ok req" and "dispatch d e (sane_request req) w = (rs, w')" and "wordy rs"
  shows "client_call ne path (handleConn d e) req w =
    (if rs_OK rs then Inr (sane_response rs) else Inl (''daemon error: '' @ sanitize (rs_Error rs)), w')"
proof -
  obtain s where s: "write_response rs = Some s"
    using assms(4) by (simp add: wordy_def write_response_def enc_response_def)
  show ?thesis
    by (rule daemon_server.call_answer [OF _ _ assms(2,3) s])
      (use assms(1,4) in \<open>simp_all add: net_ok_def response_ints_ok_def wordy_def\<close>)
qed

definition job_request :: "string \<Rightarrow> string \<Rightarrow> string \<Rightarrow> Request" where
  "job_request cmd jobID user = zero_request\<lparr>rq_Action := cmd, rq_JobID := jobID, rq_RequestedBy := user\<rparr>"

definition job_handler :: "string \<Rightarrow> Daemon \<Rightarrow> env \<Rightarrow> Request \<Rightarrow> world \<Rightarrow> Response \<times> world" where
  "job_handler cmd d e = (if cmd = ''pause'' then handlePause d e else if cmd = ''resume'' then handleResume d e
     else handleCancel e)"

lemma job_cmd_cases:
  assumes "cmd \<in> {''pause'', ''resume'', ''cancel''}"
  obtains (pause) "cmd = ''pause''" | (resume) "cmd = ''resume''" | (cancel) "cmd = ''cancel''"
  using assms by blast

lemma job_call:
  assumes "net_ok ne" and "cmd \<in> {''pause'', ''resume'', ''cancel''}"
    and "job_handler cmd d e (sane_request (job_request cmd jobID user)) w = (rs, w')"
  shows "client_call ne path (handleConn d e) (job_request cmd jobID user) w =
    (if rs_OK rs then Inr (sane_response rs) else Inl (''daemon error: '' @ sanitize (rs_Error rs)), w')"
proof (rule wordy_call [OF assms(1)])
  let ?req = "sane_request (job_request cmd jobID user)"
  have "ascii cmd" by (cases rule: job_cmd_cases [OF assms(2)]) (simp_all add: ascii_def)
  then have "rq_Action ?req = cmd" by (simp add: sane_request_def job_request_def sanitize_ascii)
  then show "dispatch d e ?req w = (rs, w')"
    using assms(3) by (cases rule: job_cmd_cases [OF assms(2)]) (simp_all add: dispatch_def job_handler_def)
  show "wordy rs" using assms(3) wordy_answers(1,2) [of d e ?req w] wordy_answers(3) [of e ?req w]
    by (cases rule: job_cmd_cases [OF assms(2)]) (simp_all add: job_handler_def)
qed (simp add: job_request_def request_ints_ok_def zero_request_def)

lemma command_endsD:
  "command_done ce al a j t c = (code, c') \<Longrightarrow>
     code = 0 \<and> same_jobs (cl_world c) (cl_world c') \<and> cl_children c' = cl_children c"
  "command_fails ce al a j t c = (code, c') \<Longrightarrow>
     code = 1 \<and> same_jobs (cl_world c) (cl_world c') \<and> cl_children c' = cl_children c"
  by (auto simp: same_jobs_def command_fails_def command_done_def)

lemmas job_command_unfold = surviva_main_def pauseCmd_def resumeCmd_def cancelCmd_def with_flags_def Let_def
  on_world_def Client_Pause_def Client_Resume_def Client_Cancel_def job_request_def map_right_def

text \<open>
  Claim C11. \<open>surviva pause\<close>, \<open>resume\<close> and \<open>cancel\<close> with one job id, against a reachable daemon, are one
  call of the daemon's handler of that name, with that job id and the user's name: the database
  and the latch end as that handler leaves them, the exit status is 0 exactly if its answer is OK
  and 1 otherwise, and no process is started. (The request is as the socket carries it, with
  ill-formed UTF-8 replaced.)
\<close>

theorem job_commands_effect:
  assumes "ce_peer ce = handleConn d (ce_env ce)" and "net_ok (ce_net ce)"
    and "cmd \<in> {''pause'', ''resume'', ''cancel''}"
    and "flag_Parse (ce_unicode ce) (job_flags ce) args = Parsed vs [jobID]"
    and "surviva_main ce evs (cmd # args) c = (code, c')"
  shows "\<exists>w0 rs w1. same_jobs (cl_world c) w0 \<and>
    job_handler cmd d (ce_env ce) (sane_request (job_request cmd jobID (currentOSUser ce))) w0 = (rs, w1) \<and>
    same_jobs w1 (cl_world c') \<and> code = (if rs_OK rs then 0 else 1) \<and> cl_children c' = cl_children c"
proof -
  obtain al c0 where c0: "with_logger ce (vs ''conf'') c = (al, c0)" by fastforce
  note u0 = with_logger_untouched [OF c0]
  obtain rs w1 where h: "job_handler cmd d (ce_env ce) (sane_request (job_request cmd jobID (currentOSUser ce))) (cl_world c0) =
      (rs, w1)" by fastforce
  note call = job_call [OF assms(2,3) h, of "vs ''socket''"]
  have "same_jobs w1 (cl_world c') \<and> code = (if rs_OK rs then 0 else 1) \<and> cl_children c' = cl_children c0"
    by (rule job_cmd_cases [OF assms(3)]; cases "rs_OK rs"; insert assms(5) call;
        simp add: job_command_unfold assms(1,4) c0; drule command_endsD; simp)
  moreover have "same_jobs (cl_world c) (cl_world c0)" "cl_children c0 = cl_children c"
    using u0 by (simp_all add: untouched_def same_jobs_def)
  ultimately show ?thesis using h by auto
qed

theorem job_commands_effect_witness:
  "\<exists>w0 rs w1. handleCancel quiet_env (sane_request (job_request ''cancel'' ''1'' ''bob'')) w0 = (rs, w1) \<and>
     same_jobs world_one_job w0 \<and>
     same_jobs w1 (cl_world (snd (surviva_main quiet_cli [] [''cancel'', ''1''] (fresh_cli world_one_job))))"
proof -
  obtain code c' where run: "surviva_main quiet_cli [] [''cancel'', ''1''] (fresh_cli world_one_job) = (code, c')"
    by fastforce
  have parse: "flag_Parse (ce_unicode quiet_cli) (job_flags quiet_cli) [''1''] =
      Parsed (flag_defaults (job_flags quiet_cli)) [''1'']" by (rule parse_plain_command) simp_all
  have "\<exists>w0 rs w1. same_jobs (cl_world (fresh_cli world_one_job)) w0 \<and>
      job_handler ''cancel'' sample_daemon (ce_env quiet_cli)
        (sane_request (job_request ''cancel'' ''1'' (currentOSUser quiet_cli))) w0 = (rs, w1) \<and>
      same_jobs w1 (cl_world c') \<and> code = (if rs_OK rs then 0 else 1) \<and>
      cl_children c' = cl_children (fresh_cli world_one_job)"
    by (rule job_commands_effect [OF _ _ _ parse run]) (simp_all add: net_ok_def quiet_net_def)
  then show ?thesis
    unfolding run snd_conv by (elim exE conjE) (auto simp: job_handler_def fresh_cli_def currentOSUser_def quiet_cli_def)
qed

section \<open>Looking only\<close>

lemma handleList_db: "db (snd (handleList e w)) = db w"
  using Store_List_db [of e w] by (simp add: handleList_def case_prod_unfold split: sum.split)

lemma handleShow_db: "db (snd (handleShow e req w)) = db w"
proof -
  have g: "Store_Get e jid w = (r, w') \<Longrightarrow> db w' = db w" for jid w r w' by (rule Store_Get_quiet)
  have h: "Store_History e jid w = (r, w') \<Longrightarrow> db w' = db w" for jid w r w'
    using Store_History_db [of e jid w] by simp
  show ?thesis unfolding handleShow_def by (auto split: sum.splits prod.splits if_splits dest!: g h)
qed

interpretation looking: command_frame same_jobs
  by unfold_locales (simp_all add: same_jobs_def)

lemma list_show_quiet:
  assumes "net_ok ne"
  shows "same_jobs w (snd (Client_List ne path (handleConn d e) w))"
    and "same_jobs w (snd (Client_Show ne path (handleConn d e) jid h w))"
proof -
  let ?l = "zero_request\<lparr>rq_Action := ''list''\<rparr>"
  let ?s = "zero_request\<lparr>rq_Action := ''show'', rq_JobID := jid, rq_IncludeHistory := h\<rparr>"
  have "rq_Action (sane_request ?l) = ''list''" "rq_Action (sane_request ?s) = ''show''"
    by (simp_all add: sane_request_def sanitize_ascii ascii_def)
  then have "snd (dispatch d e (sane_request ?l) w) = snd (handleList e w)"
      "snd (dispatch d e (sane_request ?s) w) = snd (handleShow e (sane_request ?s) w)"
    by (simp_all add: dispatch_def)
  moreover have "request_ints_ok ?l" "request_ints_ok ?s" by (simp_all add: request_ints_ok_def zero_request_def)
  moreover have "snd (Client_List ne path (handleConn d e) w) = snd (client_call ne path (handleConn d e) ?l w)"
    by (simp add: Client_List_def case_prod_unfold)
  moreover have "snd (Client_Show ne path (handleConn d e) jid h w) = snd (client_call ne path (handleConn d e) ?s w)"
    by (simp add: Client_Show_def case_prod_unfold split: sum.split option.split)
  moreover have "interrupted (snd (handleList e w)) = interrupted w"
      "interrupted (snd (handleShow e (sane_request ?s) w)) = interrupted w"
    using handleList_safe [of "[]" w e] handleShow_safe [of "[]" w e "sane_request ?s"] by (simp_all add: safe_def)
  ultimately show "same_jobs w (snd (Client_List ne path (handleConn d e) w))"
    "same_jobs w (snd (Client_Show ne path (handleConn d e) jid h w))"
    by (simp_all add: same_jobs_def call_world [OF assms] handleList_db handleShow_db)
qed

text \<open>
  Claim C15. \<open>surviva list\<close> and \<open>surviva show\<close>, with whatever flags and arguments, change nothing in the
  daemon: its database and its interruption latch are as before.
\<close>

theorem list_show_read_only:
  assumes "ce_peer ce = handleConn d (ce_env ce)" and "net_ok (ce_net ce)"
  shows "same_jobs (cl_world c) (cl_world (snd (listCmd ce args c))) \<and>
    same_jobs (cl_world c) (cl_world (snd (showCmd ce args c)))"
proof -
  note quiet = list_show_quiet [OF assms(2)]
  have "looking.keeps c (snd (listCmd ce args c))" unfolding listCmd_def assms(1)
    by (rule looking.keeps_flags; intro looking.keeps_logger looking.keeps_call quiet;
        simp add: looking.keeps_end Let_def split: sum.split prod.split)
  moreover have "looking.keeps c (snd (showCmd ce args c))" unfolding showCmd_def assms(1)
    by (rule looking.keeps_flags; simp add: looking.keeps_end split: list.split;
        intro allI impI looking.keeps_logger looking.keeps_call quiet;
        simp add: looking.keeps_end split: sum.split prod.split)
  ultimately show ?thesis by (simp add: looking.keeps_def)
qed

theorem list_show_read_only_witness:
  "same_jobs world_one_job (cl_world (snd (showCmd quiet_cli [''-history'', ''1''] (fresh_cli world_one_job))))"
  using list_show_read_only [of quiet_cli sample_daemon "fresh_cli world_one_job"]
  by (simp add: net_ok_def quiet_net_def fresh_cli_def)

end
