(* ===== verification/ConfigProps.thy ===== *)
theory ConfigProps
  imports Config World
begin

text \<open>
  Properties of the configuration loader: a file of directives reads back, in any letter
  case and with the last occurrence winning; whatever loads is a usable configuration;
  every line was understood; and the poll interval, where the arithmetic can overflow.
\<close>

section \<open>ASCII text under the Unicode functions\<close>

definition ascii_upper :: "char \<Rightarrow> char" where
  "ascii_upper c = (let b = of_char c :: nat in if 97 \<le> b \<and> b \<le> 122 then char_of (b - 32) else c)"

lemma runes_ascii:
  "list_all (\<lambda>c. (of_char c :: nat) < 128) s \<Longrightarrow> runes s = map (\<lambda>c. (of_char c, [c])) s"
  by (induction s) (simp_all add: runes_nonempty decode_rune_ascii)

lemma ToUpper_ascii:
  assumes "list_all (\<lambda>c. (of_char c :: nat) < 128) s"
  shows "ToUpper u s = map ascii_upper s"
proof -
  have "encode_rune (upper_rune u (of_char c)) = [ascii_upper c]" if "c \<in> set s" for c
    using assms that by (auto simp: list_all_iff encode_rune_def upper_rune_def ascii_upper_def Let_def)
  then show ?thesis
    using assms by (simp add: ToUpper_def runes_ascii comp_def concat_map_singleton cong: map_cong)
qed

lemma known_key_letters:
  "key \<in> set knownKeys \<Longrightarrow> list_all (\<lambda>c. 65 \<le> (of_char c :: nat) \<and> (of_char c :: nat) \<le> 90) key"
  unfolding knownKeys_def list.set by (elim insertE emptyE) simp_all

lemma known_key_nonempty: "key \<in> set knownKeys \<Longrightarrow> key \<noteq> []"
  unfolding knownKeys_def list.set by (elim insertE emptyE) simp_all

text \<open>A directive name in any letter case consists of letters.\<close>

definition is_letter :: "char \<Rightarrow> bool" where
  "is_letter c \<longleftrightarrow> (let b = of_char c :: nat in (65 \<le> b \<and> b \<le> 90) \<or> (97 \<le> b \<and> b \<le> 122))"

lemma upper_letter:
  "65 \<le> (of_char (ascii_upper c) :: nat) \<Longrightarrow> (of_char (ascii_upper c) :: nat) \<le> 90 \<Longrightarrow> is_letter c"
  by (auto simp: ascii_upper_def is_letter_def Let_def split: if_splits)

lemma directive_letters:
  assumes "map ascii_upper k \<in> set knownKeys"
  shows "k \<noteq> []" and "list_all is_letter k"
  using known_key_nonempty [OF assms] known_key_letters [OF assms] upper_letter
  by (auto simp: list_all_iff)

lemma is_letter_no_space: "is_letter c \<Longrightarrow> no_space c"
  by (auto simp: is_letter_def no_space_def Let_def)

lemma directive_upper:
  assumes "map ascii_upper k \<in> set knownKeys"
  shows "ToUpper u (TrimSpace k) = map ascii_upper k"
proof -
  have "list_all no_space k" using directive_letters(2) [OF assms] is_letter_no_space
    by (auto simp: list_all_iff)
  then have "TrimSpace k = k" "list_all (\<lambda>c. (of_char c :: nat) < 128) k"
    using TrimSpace_line(1) [OF directive_letters(1) [OF assms]] by (auto simp: list_all_iff no_space_def)
  then show ?thesis by (simp add: ToUpper_ascii)
qed

section \<open>Reading one directive\<close>

text \<open>A value that survives trimming and stays on its line.\<close>

definition tidy_value :: "string \<Rightarrow> bool" where
  "tidy_value v \<longleftrightarrow> CHR 0x0A \<notin> set v \<and> (v = [] \<or> no_space (hd v) \<and> no_space (last v))"

lemma tidy_trim: "tidy_value v \<Longrightarrow> TrimSpace v = v"
  by (cases "v = []") (auto simp: tidy_value_def dest!: no_spaceD intro!: TrimSpace_id)

definition directive_line :: "string \<times> string \<Rightarrow> string" where
  "directive_line kv = fst kv @ CHR ''='' # snd kv"

definition good_directive :: "string \<times> string \<Rightarrow> bool" where
  "good_directive kv \<longleftrightarrow> map ascii_upper (fst kv) \<in> set knownKeys \<and> tidy_value (snd kv) \<and>
     length (directive_line kv) < max_token_size"

lemma directive_ends:
  assumes "good_directive kv"
  shows "no_space (hd (directive_line kv))" and "no_space (last (directive_line kv))"
    and "is_letter (hd (directive_line kv))"
proof -
  note k = directive_letters [of "fst kv"]
  have k': "fst kv \<noteq> []" "is_letter (hd (fst kv))"
    using assms k by (auto simp: good_directive_def list_all_iff)
  then show "is_letter (hd (directive_line kv))" by (simp add: directive_line_def)
  then show "no_space (hd (directive_line kv))" by (rule is_letter_no_space)
  show "no_space (last (directive_line kv))"
    using assms by (auto simp: good_directive_def tidy_value_def directive_line_def no_space_def)
qed

definition set_directive :: "(string \<rightharpoonup> string) \<Rightarrow> string \<times> string \<Rightarrow> (string \<rightharpoonup> string)" where
  "set_directive m kv = m(map ascii_upper (fst kv) \<mapsto> snd kv)"

lemma load_directive:
  assumes "good_directive kv"
  shows "load_line u (drop_cr (directive_line kv)) raw = Inr (set_directive raw kv)"
proof -
  note ends = directive_ends [OF assms]
  let ?l = "directive_line kv"
  have ne: "?l \<noteq> []" by (simp add: directive_line_def)
  have cr: "drop_cr ?l = ?l"
    using ends(2) by (auto simp: drop_cr_def no_space_def)
  have trim: "TrimSpace ?l = ?l"
    using ne ends by (intro TrimSpace_id) (auto dest: no_spaceD)
  have "hd ?l \<noteq> CHR ''#''" using ends(3) by (auto simp: is_letter_def Let_def)
  then have hash: "\<not> HasPrefix ?l ''#''" using ne by (cases ?l) (auto simp: HasPrefix_def)
  have "CHR ''='' \<notin> set (fst kv)"
    using directive_letters(2) [of "fst kv"] assms by (auto simp: good_directive_def list_all_iff is_letter_def Let_def)
  then have "Cut (CHR ''='') ?l = Some (fst kv, snd kv)" by (simp add: directive_line_def Cut_append)
  then show ?thesis
    using assms ne hash
    by (simp add: load_line_def cr trim Let_def directive_upper tidy_trim good_directive_def split_beta
        set_directive_def)
qed

section \<open>Properties\<close>

definition render_conf :: "(string \<times> string) list \<Rightarrow> string" where
  "render_conf kvs = concat (map (\<lambda>kv. directive_line kv @ newline) kvs)"

lemma split_lines_append:
  "CHR 0x0A \<notin> set l \<Longrightarrow> split_lines (l @ CHR 0x0A # rest) = l # split_lines rest"
  by (induction l) auto

lemma directive_one_line: "good_directive kv \<Longrightarrow> CHR 0x0A \<notin> set (directive_line kv)"
  using directive_letters(2) [of "fst kv"]
  by (auto simp: good_directive_def directive_line_def tidy_value_def list_all_iff is_letter_def Let_def)

lemma load_rendered:
  assumes "list_all good_directive kvs"
  shows "load_lines u (split_lines (render_conf kvs)) raw =
    Inr (foldl set_directive raw kvs)"
  using assms
proof (induction kvs arbitrary: raw)
  case (Cons kv kvs)
  then have "split_lines (render_conf (kv # kvs)) = directive_line kv # split_lines (render_conf kvs)"
    by (simp add: render_conf_def newline_def split_lines_append directive_one_line)
  with Cons show ?case by (simp add: load_directive) (simp add: good_directive_def)
qed (simp add: render_conf_def)

text \<open>
  Claim C36. A file of known directives, written one per line in any mixture of letter cases and with
  tidy values, is read back exactly: validation sees each directive under its canonical
  name with its value, and where a directive is repeated, the last value.
\<close>

theorem conf_round_trip:
  assumes "list_all good_directive kvs"
  shows "config_Load u (ConfFile mode (render_conf kvs) None) =
    validate u (foldl set_directive Map.empty kvs)"
  using load_rendered [OF assms] by (simp add: config_Load_def)

theorem conf_round_trip_witness:
  "config_Load ascii_tables (ConfFile 420 (render_conf [(''DbPath'', ''/a''), (''dbpath'', ''/b'')]) None) =
     validate ascii_tables [''DBPATH'' \<mapsto> ''/b'']"
proof -
  have "map ascii_upper ''DbPath'' = ''DBPATH''" "map ascii_upper ''dbpath'' = ''DBPATH''"
    by (simp_all add: ascii_upper_def char_of_def bit_iff_odd)
  moreover have "''DBPATH'' \<in> set knownKeys" by (simp add: knownKeys_def)
  ultimately show ?thesis
    using conf_round_trip [of "[(''DbPath'', ''/a''), (''dbpath'', ''/b'')]" ascii_tables 420]
    by (simp add: good_directive_def tidy_value_def no_space_def directive_line_def max_token_size_def
        set_directive_def)
qed

text \<open>
  Nothing in the file is skipped silently: when a file loads, every line of it was short
  enough to read and is blank, a comment, or an assignment to a known directive.
\<close>

theorem every_line_understood:
  assumes "config_Load u (ConfFile mode bytes err) = Inr cfg" and "l \<in> set (split_lines bytes)"
  shows "err = None \<and> length l < max_token_size \<and>
    (let t = TrimSpace (drop_cr l) in t = [] \<or> HasPrefix t ''#'' \<or>
       (\<exists>k v. Cut (CHR ''='') t = Some (k, v) \<and> ToUpper u (TrimSpace k) \<in> set knownKeys))"
proof -
  have ok: "length l < max_token_size \<and> (\<exists>m m'. load_line u (drop_cr l) m = Inr m')"
    if "load_lines u ls raw = Inr raw'" "l \<in> set ls" for ls raw raw'
    using that by (induction ls arbitrary: raw) (auto split: if_splits sum.splits)
  from assms have "err = None" by (auto simp: config_Load_def split: sum.splits option.splits)
  moreover have "length l < max_token_size \<and> (\<exists>m m'. load_line u (drop_cr l) m = Inr m')"
    using assms ok by (auto simp: config_Load_def split: sum.splits)
  ultimately show ?thesis
    by (auto simp: load_line_def Let_def split: if_splits option.splits)
qed

lemma ToLower_ascii:
  assumes "list_all (\<lambda>c. (of_char c :: nat) < 128) s"
  shows "ToLower u s = map ascii_lower s"
proof -
  have "encode_rune (lower_rune u (of_char c)) = [ascii_lower c]" if "c \<in> set s" for c
    using assms that by (auto simp: list_all_iff encode_rune_def lower_rune_def ascii_lower_def Let_def)
  then show ?thesis
    using assms by (simp add: ToLower_def runes_ascii comp_def concat_map_singleton cong: map_cong)
qed

text \<open>The smallest file that loads.\<close>

definition minimal_conf :: "string \<Rightarrow> (string \<times> string) list" where
  "minimal_conf secs = [(''CLOUDPROVIDER'', ''aws''), (''POLLINTERVALSECONDS'', secs),
     (''AUDITLOGPATH'', ''/a''), (''CHECKPOINTBASEDIR'', ''/c''), (''DBPATH'', ''/d'')]"

lemma canonical_key: "k \<in> set knownKeys \<Longrightarrow> map ascii_upper k = k"
  using known_key_letters [of k] by (auto simp: list_all_iff ascii_upper_def Let_def intro!: map_idI)

lemma good_canonical:
  "k \<in> set knownKeys \<Longrightarrow> tidy_value v \<Longrightarrow> length k + length v < 60000 \<Longrightarrow> good_directive (k, v)"
  by (simp add: good_directive_def directive_line_def max_token_size_def canonical_key)

lemma minimal_keys:
  "''CLOUDPROVIDER'' \<in> set knownKeys" "''POLLINTERVALSECONDS'' \<in> set knownKeys"
  "''AUDITLOGPATH'' \<in> set knownKeys" "''CHECKPOINTBASEDIR'' \<in> set knownKeys" "''DBPATH'' \<in> set knownKeys"
  by (simp_all add: knownKeys_def)

lemma minimal_conf_good:
  assumes "tidy_value secs" and "length secs < 100"
  shows "list_all good_directive (minimal_conf secs)"
proof -
  have "tidy_value ''aws''" "tidy_value ''/a''" "tidy_value ''/c''" "tidy_value ''/d''"
    by (simp_all add: tidy_value_def no_space_def)
  then show ?thesis using assms by (simp add: minimal_conf_def good_canonical minimal_keys)
qed

lemma minimal_conf_valid:
  assumes "Atoi secs = Inr n" and "0 < n"
  shows "validate u (foldl set_directive Map.empty (minimal_conf secs)) =
    Inr (config0\<lparr>CloudProvider := ''aws'', PollInterval := wrap_int64 (n * time_Second), AuditLogPath := ''/a'',
      CheckpointBaseDir := ''/c'', DBType := ''sqlite'', DBPath := ''/d''\<rparr>)"
proof -
  have keys: "foldl set_directive Map.empty (minimal_conf secs) = [''CLOUDPROVIDER'' \<mapsto> ''aws'',
      ''POLLINTERVALSECONDS'' \<mapsto> secs, ''AUDITLOGPATH'' \<mapsto> ''/a'', ''CHECKPOINTBASEDIR'' \<mapsto> ''/c'', ''DBPATH'' \<mapsto> ''/d'']"
    by (simp add: minimal_conf_def set_directive_def canonical_key minimal_keys del: list.map)
  have aws: "ToLower u ''aws'' = ''aws''" by (simp add: ToLower_ascii ascii_lower_def)
  show ?thesis unfolding keys using assms
    by (simp add: validate_def require_def aws knownCloudProviderNames_def supportedCloudProviders_def
        positive_int_def validate_rest_def validate_db_def validate_notify_def validate_max_def
        supportedDBTypes_def config0_def)
qed

definition minimal_file :: "string \<Rightarrow> conf_file" where
  "minimal_file secs = ConfFile 384 (render_conf (minimal_conf secs)) None"

lemma minimal_file_loads:
  assumes "tidy_value secs" and "length secs < 100" and "Atoi secs = Inr n" and "0 < n"
  shows "config_Load u (minimal_file secs) =
    Inr (config0\<lparr>CloudProvider := ''aws'', PollInterval := wrap_int64 (n * time_Second), AuditLogPath := ''/a'',
      CheckpointBaseDir := ''/c'', DBType := ''sqlite'', DBPath := ''/d''\<rparr>)"
  using load_rendered [OF minimal_conf_good [OF assms(1,2)]] minimal_conf_valid [OF assms(3,4)]
  by (simp add: minimal_file_def config_Load_def)

lemma minimal_five: "tidy_value ''5''" "length ''5'' < 100" "Atoi ''5'' = Inr 5"
  by (simp_all add: tidy_value_def no_space_def Atoi_def ParseInt_eval)

theorem every_line_understood_witness:
  "\<exists>cfg. config_Load ascii_tables (minimal_file ''5'') = Inr cfg \<and>
     (\<forall>l \<in> set (split_lines (render_conf (minimal_conf ''5''))). length l < max_token_size)"
proof -
  obtain cfg where "config_Load ascii_tables (minimal_file ''5'') = Inr cfg"
    using minimal_file_loads [OF minimal_five] by simp
  then show ?thesis using every_line_understood [of ascii_tables] by (auto simp: minimal_file_def)
qed

lemma validate_InrD:
  assumes "validate u raw = Inr cfg"
  obtains secs n audit base where "raw ''POLLINTERVALSECONDS'' = Some secs"
    and "positive_int ''PollIntervalSeconds'' secs = Inr n"
    and "raw ''AUDITLOGPATH'' = Some audit" and "raw ''CHECKPOINTBASEDIR'' = Some base"
    and "validate_rest u raw (config0\<lparr>CloudProvider := ''aws'', PollInterval := wrap_int64 (n * time_Second),
           AuditLogPath := audit, CheckpointBaseDir := base\<rparr>) = Inr cfg"
  using assms that unfolding validate_def
  by (auto simp: require_def Let_def supportedCloudProviders_def split: sum.splits option.splits if_splits)

lemma validate_rest_InrD:
  assumes "validate_rest u raw c0 = Inr cfg"
  obtains c1 c2 c3 where "validate_db u raw c0 = Inr c1" and "validate_notify u raw c1 = Inr c2"
    and "validate_max raw c2 = Inr c3"
    and "cfg = c3\<lparr>SocketGroup := (case raw ''SOCKETGROUP'' of Some v \<Rightarrow> v | None \<Rightarrow> [])\<rparr>"
  using assms that unfolding validate_rest_def by (auto split: sum.splits)














section \<open>The poll interval\<close>

lemma validate_rest_interval:
  assumes "validate_rest u raw c0 = Inr cfg" shows "PollInterval cfg = PollInterval c0"
  using assms
proof (rule validate_rest_InrD)
  fix c1 c2 c3 g
  assume c: "validate_db u raw c0 = Inr c1" "validate_notify u raw c1 = Inr c2" "validate_max raw c2 = Inr c3"
    "cfg = c3\<lparr>SocketGroup := g\<rparr>"
  have "PollInterval c1 = PollInterval c0"
    using c(1) by (auto simp: validate_db_def Let_def split: sum.splits if_splits)
  moreover have "PollInterval c2 = PollInterval c1"
    using c(2) by (auto simp: validate_notify_def Let_def split: option.splits if_splits)
  moreover have "PollInterval c3 = PollInterval c2"
    using c(3) by (auto simp: validate_max_def split: option.splits sum.splits)
  ultimately show "PollInterval cfg = PollInterval c0" using c(4) by simp
qed

lemma wrap_int64_range: "in_int64 (wrap_int64 n)"
  by (simp add: wrap_int64_def in_int64_def int64_min_def int64_max_def)

lemma wrap_int64_id: "in_int64 n \<Longrightarrow> wrap_int64 n = n"
  by (simp add: wrap_int64_def in_int64_def int64_min_def int64_max_def)

text \<open>
  The poll interval is the configured number of seconds in nanoseconds, exactly, whenever
  that number fits the 64 bits of a \<open>time.Duration\<close>: up to 9223372036 seconds.
\<close>

theorem poll_interval_exact:
  assumes "validate u raw = Inr cfg"
  shows "\<exists>secs n. raw ''POLLINTERVALSECONDS'' = Some secs \<and> Atoi secs = Inr n \<and> 0 < n \<and>
    (n \<le> 9223372036 \<longrightarrow> PollInterval cfg = n * 1000000000) \<and> in_int64 (PollInterval cfg)"
  using assms
proof (rule validate_InrD)
  fix secs n audit base
  assume raw: "raw ''POLLINTERVALSECONDS'' = Some secs" and n: "positive_int ''PollIntervalSeconds'' secs = Inr n"
    and "validate_rest u raw (config0\<lparr>CloudProvider := ''aws'', PollInterval := wrap_int64 (n * time_Second),
           AuditLogPath := audit, CheckpointBaseDir := base\<rparr>) = Inr cfg"
  then have i: "PollInterval cfg = wrap_int64 (n * time_Second)" by (simp add: validate_rest_interval)
  have "Atoi secs = Inr n" "0 < n" using n by (auto simp: positive_int_def split: sum.splits if_splits)
  moreover have "n \<le> 9223372036 \<Longrightarrow> wrap_int64 (n * time_Second) = n * 1000000000"
    using \<open>0 < n\<close> by (subst wrap_int64_id) (simp_all add: in_int64_def int64_bounds_values time_Second_def)
  ultimately show ?thesis using raw i wrap_int64_range by auto
qed

theorem poll_interval_exact_witness:
  "\<exists>cfg. validate ascii_tables (foldl set_directive Map.empty (minimal_conf ''5'')) = Inr cfg \<and>
     in_int64 (PollInterval cfg)"
proof -
  obtain cfg where l: "validate ascii_tables (foldl set_directive Map.empty (minimal_conf ''5'')) = Inr cfg"
    using minimal_conf_valid [OF minimal_five(3)] by simp
  with poll_interval_exact [OF l] show ?thesis by blast
qed

text \<open>
  Claim C38. One second more is accepted too, but the product wraps around: a file with
  \<open>PollIntervalSeconds=9223372037\<close> loads and its poll interval is negative.
\<close>

theorem poll_interval_overflow:
  "\<exists>cfg. config_Load u (minimal_file ''9223372037'') = Inr cfg \<and> PollInterval cfg = - 9223372036709551616"
proof -
  have "tidy_value ''9223372037''" "length ''9223372037'' < 100" "Atoi ''9223372037'' = Inr 9223372037"
    by (simp_all add: tidy_value_def no_space_def Atoi_def ParseInt_eval)
  from minimal_file_loads [OF this] show ?thesis
    by (simp add: wrap_int64_def time_Second_def)
qed

end
