(* ===== verification/CliDaemon.thy ===== *)
theory CliDaemon
  imports CliProps ConfigProps
begin









end
