(* ===== verification/ImdsProps.thy ===== *)
theory ImdsProps
  imports Imds MessagesProps
begin

text \<open>
  The properties of the metadata client and the poller: how the token is cached, that only
  tokens the service issued are ever presented to it, and which signals a run reports.
\<close>

section \<open>The token\<close>

lemma imds_record_simps [simp]:
  "ic_baseURL (imds_record x c) = ic_baseURL c" "ic_token (imds_record x c) = ic_token c"
  "ic_tokenExpiry (imds_record x c) = ic_tokenExpiry c" "ic_calls (imds_record x c) = x # ic_calls c"
  by (simp_all add: imds_record_def)

lemmas imds_ops = imds_Now_def http_Do_def token_fresh_def

text \<open>\<open>issued ie h tok\<close>: among the exchanges \<open>h\<close>, the service answered a token request with \<open>tok\<close>.\<close>

fun issued :: "imds_env \<Rightarrow> imds_call list \<Rightarrow> string \<Rightarrow> bool" where
  "issued ie [] tok \<longleftrightarrow> False"
| "issued ie (x # h) tok \<longleftrightarrow> issued ie h tok \<or>
     (\<exists>url ttl. x = TokenPut url ttl \<and> im_http ie h x = Inr \<lparr>hr_status = 200, hr_body = Inr tok\<rparr>)"

text \<open>Every metadata request so far carried a token issued before it.\<close>

fun presented_ok :: "imds_env \<Rightarrow> imds_call list \<Rightarrow> bool" where
  "presented_ok ie [] \<longleftrightarrow> True"
| "presented_ok ie (x # h) \<longleftrightarrow> presented_ok ie h \<and> (\<forall>url tok. x = MetaGet url tok \<longrightarrow> issued ie h tok)"

definition client_ok :: "imds_env \<Rightarrow> imds_client \<Rightarrow> bool" where
  "client_ok ie c \<longleftrightarrow> presented_ok ie (ic_calls c) \<and> (ic_token c \<noteq> [] \<longrightarrow> issued ie (ic_calls c) (ic_token c))"

lemma getToken_ok:
  assumes "client_ok ie c" and "getToken ie c = (res, c')"
  shows "client_ok ie c' \<and> (\<forall>tok. res = Inr tok \<longrightarrow> issued ie (ic_calls c') tok)"
proof -
  have reply: "r = \<lparr>hr_status = 200, hr_body = Inr body\<rparr>" if "hr_status r = 200" "hr_body r = Inr body" for r body
    using that by (cases r) simp
  show ?thesis
    using assms reply
    by (auto simp: getToken_def imds_ops client_ok_def Let_def split: if_splits option.splits sum.splits)
qed

lemma imds_get_ok:
  assumes "client_ok ie c" shows "client_ok ie (snd (imds_get ie path c))"
proof -
  obtain res c1 where tok: "getToken ie c = (res, c1)" by fastforce
  from getToken_ok [OF assms tok] show ?thesis
    by (auto simp: imds_get_def tok http_Do_def client_ok_def Let_def split: option.splits sum.splits)
qed

lemma imds_queries_ok:
  assumes "client_ok ie c"
  shows "client_ok ie (snd (RebalanceRecommendation ie c))" "client_ok ie (snd (SpotInstanceAction ie c))"
    "client_ok ie (snd (InstanceID ie c))" "client_ok ie (snd (AvailabilityZone ie c))"
  using imds_get_ok [OF assms]
  by (auto simp: RebalanceRecommendation_def SpotInstanceAction_def InstanceID_def AvailabilityZone_def
      split: prod.splits sum.splits option.splits dest!: sndI)

lemma baseDetail_ok: "client_ok ie c \<Longrightarrow> client_ok ie (snd (baseDetail ie c))"
  using imds_queries_ok(3) [of ie c] imds_queries_ok(4) [of ie "snd (InstanceID ie c)"]
  by (auto simp: baseDetail_def Let_def split: prod.splits sum.splits)

lemma callbacks_ok:
  "client_ok ie c \<Longrightarrow> client_ok ie (snd (onRebalanceRecommendation ie t c))"
  "client_ok ie c \<Longrightarrow> client_ok ie (snd (onInterruptionNotice ie ia c))"
  using baseDetail_ok [of ie c]
  by (simp_all add: onRebalanceRecommendation_def onInterruptionNotice_def case_prod_unfold)

section \<open>The poller\<close>

abbreviation provider_poll ::
  "imds_env \<Rightarrow> poll_event list \<Rightarrow> bool \<Rightarrow> imds_client \<Rightarrow> Signal list \<times> bool \<times> imds_client" where
  "provider_poll ie \<equiv> poller_Run ie (Some (onRebalanceRecommendation ie)) (Some (onInterruptionNotice ie))"

definition rebalance_trigger :: string where "rebalance_trigger = ''rebalance-recommendation''"
definition interruption_trigger :: string where "interruption_trigger = ''interruption-notice''"

lemma triggers:
  "sig_Trigger (fst (onRebalanceRecommendation ie t c)) = rebalance_trigger"
  "sig_Trigger (fst (onInterruptionNotice ie ia c)) = interruption_trigger"
  "rebalance_trigger \<noteq> interruption_trigger"
  by (simp_all add: onRebalanceRecommendation_def onInterruptionNotice_def rebalance_trigger_def
      interruption_trigger_def case_prod_unfold)

text \<open>The first half of a tick.\<close>

lemma poll_rebalance_cases:
  assumes "poll_rebalance ie (Some (onRebalanceRecommendation ie)) seen c = (ss, seen', c')"
  shows "(ss = [] \<and> (seen \<longrightarrow> seen')) \<or>
    (\<not> seen \<and> seen' \<and> map sig_Trigger ss = [rebalance_trigger])"
    and "client_ok ie c \<Longrightarrow> client_ok ie c'"
proof -
  obtain r c1 where r: "RebalanceRecommendation ie c = (r, c1)" by fastforce
  show "(ss = [] \<and> (seen \<longrightarrow> seen')) \<or> (\<not> seen \<and> seen' \<and> map sig_Trigger ss = [rebalance_trigger])"
    using assms r triggers(1)
    by (auto simp: poll_rebalance_def run_callback_def case_prod_unfold split: if_splits sum.splits option.splits)
  show "client_ok ie c'" if "client_ok ie c"
    using assms r imds_queries_ok(1) [OF that] callbacks_ok(1) [of ie c1] that
    by (auto simp: poll_rebalance_def run_callback_def case_prod_unfold split: if_splits sum.splits option.splits)
qed

text \<open>A tick ends the run with a notice, or the run goes on.\<close>

lemma poll_tick_cases:
  assumes "provider_poll ie (Tick # evs) seen c = (ss, ret, c')"
  obtains (notice) rs seen' c1 ia c2 where
      "poll_rebalance ie (Some (onRebalanceRecommendation ie)) seen c = (rs, seen', c1)"
      "SpotInstanceAction ie c1 = (Inr (Some ia), c2)" "ret"
      "ss = rs @ [fst (onInterruptionNotice ie ia c2)]" "c' = snd (onInterruptionNotice ie ia c2)"
    | (goes_on) rs seen' c1 r c2 ts where
      "poll_rebalance ie (Some (onRebalanceRecommendation ie)) seen c = (rs, seen', c1)"
      "SpotInstanceAction ie c1 = (r, c2)" "provider_poll ie evs seen' c2 = (ts, ret, c')" "ss = rs @ ts"
proof -
  obtain rs seen' c1 where a: "poll_rebalance ie (Some (onRebalanceRecommendation ie)) seen c = (rs, seen', c1)"
    by (metis prod_cases3)
  obtain r c2 where b: "SpotInstanceAction ie c1 = (r, c2)" by fastforce
  show thesis
  proof (cases "\<exists>ia. r = Inr (Some ia)")
    case True
    then obtain ia where "r = Inr (Some ia)" ..
    with assms a b notice show ?thesis by (auto simp: run_callback_def case_prod_unfold)
  next
    case False
    obtain ts ret' c3 where d: "provider_poll ie evs seen' c2 = (ts, ret', c3)" by (metis prod_cases3)
    from False have "r = Inr None \<or> (\<exists>t. r = Inl t)" by (cases r) auto
    with assms a b d have "ss = rs @ ts" "ret' = ret" "c3 = c'" by auto
    with goes_on a b d show ?thesis by blast
  qed
qed

lemma provider_poll_triggers:
  assumes "provider_poll ie evs seen c = (ss, ret, c')"
  shows "map sig_Trigger ss \<in> (if seen then {[], [interruption_trigger]}
      else {[], [rebalance_trigger], [interruption_trigger], [rebalance_trigger, interruption_trigger]}) \<and>
    (interruption_trigger \<in> set (map sig_Trigger ss) \<longrightarrow> ret)"
  using assms
proof (induction evs arbitrary: seen c ss)
  case (Cons ev evs)
  show ?case
  proof (cases ev)
    case Tick
    with Cons.prems have "provider_poll ie (Tick # evs) seen c = (ss, ret, c')" by simp
    then show ?thesis
    proof (cases rule: poll_tick_cases)
      case (notice rs seen' c1 ia c2)
      then show ?thesis using poll_rebalance_cases(1) [OF notice(1)] triggers by auto
    next
      case (goes_on rs seen' c1 r c2 ts)
      then show ?thesis
        using poll_rebalance_cases(1) [OF goes_on(1)] Cons.IH [OF goes_on(3)] triggers(3) by (auto split: if_splits)
    qed
  qed (use Cons in auto)
qed auto

lemma provider_poll_ok:
  assumes "provider_poll ie evs seen c = (ss, ret, c')" and "client_ok ie c"
  shows "client_ok ie c'"
  using assms
proof (induction evs arbitrary: seen c ss)
  case (Cons ev evs)
  show ?case
  proof (cases ev)
    case Tick
    with Cons.prems have "provider_poll ie (Tick # evs) seen c = (ss, ret, c')" by simp
    then show ?thesis
    proof (cases rule: poll_tick_cases)
      case (notice rs seen' c1 ia c2)
      have "client_ok ie c2"
        using imds_queries_ok(2) [OF poll_rebalance_cases(2) [OF notice(1) Cons.prems(2)]] notice(2) by simp
      then show ?thesis using callbacks_ok(2) notice(5) by blast
    next
      case (goes_on rs seen' c1 r c2 ts)
      have "client_ok ie c2"
        using imds_queries_ok(2) [OF poll_rebalance_cases(2) [OF goes_on(1) Cons.prems(2)]] goes_on(2) by simp
      then show ?thesis by (rule Cons.IH [OF goes_on(3)])
    qed
  qed (use Cons in auto)
qed simp

section \<open>A notice that is there is seen\<close>

text \<open>The service hands out tokens and has the notice \<open>body\<close>.\<close>

definition notice_pending :: "imds_env \<Rightarrow> string \<Rightarrow> string \<Rightarrow> bool" where
  "notice_pending ie base body \<longleftrightarrow> (\<forall>url. im_bad_url ie url = None) \<and>
     (\<forall>h ttl. \<exists>tok. im_http ie h (TokenPut (base @ pathToken) ttl) = Inr \<lparr>hr_status = 200, hr_body = Inr tok\<rparr>) \<and>
     (\<forall>h tok. im_http ie h (MetaGet (base @ pathSpotInstanceAction) tok) = Inr \<lparr>hr_status = 200, hr_body = Inr body\<rparr>)"

lemma getToken_baseURL: "ic_baseURL (snd (getToken ie c)) = ic_baseURL c"
  by (auto simp: getToken_def imds_ops Let_def split: option.splits sum.splits)

lemma imds_get_baseURL: "ic_baseURL (snd (imds_get ie path c)) = ic_baseURL c"
  using getToken_baseURL [of ie c]
  by (auto simp: imds_get_def http_Do_def Let_def split: prod.splits option.splits sum.splits)

lemma baseURL_kept:
  "ic_baseURL (snd (RebalanceRecommendation ie c)) = ic_baseURL c"
  "ic_baseURL (snd (InstanceID ie c)) = ic_baseURL c"
  "ic_baseURL (snd (AvailabilityZone ie c)) = ic_baseURL c"
  using imds_get_baseURL [of ie pathRebalanceRecommend c] imds_get_baseURL [of ie pathInstanceID c]
    imds_get_baseURL [of ie pathAvailabilityZone c]
  by (auto simp: RebalanceRecommendation_def InstanceID_def AvailabilityZone_def
      split: prod.splits sum.splits option.splits)

lemma poll_rebalance_baseURL:
  assumes "poll_rebalance ie (Some (onRebalanceRecommendation ie)) seen c = (ss, seen', c')"
  shows "ic_baseURL c' = ic_baseURL c"
proof -
  obtain r c1 where r: "RebalanceRecommendation ie c = (r, c1)" by fastforce
  have "ic_baseURL c1 = ic_baseURL c" using baseURL_kept(1) [of ie c] r by simp
  moreover have "ic_baseURL (snd (onRebalanceRecommendation ie t c1)) = ic_baseURL c1" for t
    using baseURL_kept(2) [of ie c1] baseURL_kept(3) [of ie "snd (InstanceID ie c1)"]
    by (auto simp: onRebalanceRecommendation_def baseDetail_def case_prod_unfold Let_def split: sum.splits)
  ultimately show ?thesis
    using assms r
    by (auto simp: poll_rebalance_def run_callback_def case_prod_unfold split: if_splits sum.splits option.splits)
qed

lemma getToken_succeeds:
  assumes "notice_pending ie (ic_baseURL c) body" shows "\<exists>tok c'. getToken ie c = (Inr tok, c')"
proof -
  obtain fresh c1 where c1: "token_fresh ie c = (fresh, c1)" by fastforce
  have base: "ic_baseURL c1 = ic_baseURL c" using c1 by (auto simp: imds_ops split: if_splits)
  obtain tok where "im_http ie (ic_calls c1) (TokenPut (ic_baseURL c @ pathToken) (FormatInt (tokenTTL div second))) =
      Inr \<lparr>hr_status = 200, hr_body = Inr tok\<rparr>"
    using assms unfolding notice_pending_def by blast
  with assms c1 base show ?thesis
    by (simp add: getToken_def notice_pending_def http_Do_def imds_Now_def Let_def)
qed

lemma notice_found:
  assumes "notice_pending ie (ic_baseURL c) body"
  shows "\<exists>c'. imds_get ie pathSpotInstanceAction c = (Inr (Some body), c')"
proof -
  obtain tok c1 where c1: "getToken ie c = (Inr tok, c1)" using getToken_succeeds [OF assms] by blast
  have "ic_baseURL c1 = ic_baseURL c" using getToken_baseURL [of ie c] c1 by simp
  with assms c1 show ?thesis by (simp add: imds_get_def notice_pending_def http_Do_def Let_def)
qed

text \<open>A body that reads as a notice: its two fields in either order, with whatever blanks between the tokens.\<close>

definition notice_body :: "string \<Rightarrow> string \<Rightarrow> string \<Rightarrow> bool" where
  "notice_body body action at \<longleftrightarrow> (\<exists>raw. decode_text body \<in>
     {Some (JObj [(''action'', JStr action raw), (''time'', JStr at at)]),
      Some (JObj [(''time'', JStr at at), (''action'', JStr action raw)])})"

lemma notice_body_decodes:
  assumes "notice_body body action at" and "rfc3339_nano t = Some at"
  shows "Option.bind (decode_text body)
      (\<lambda>v. dec_struct [''action'', ''time''] (store_action lenient) v \<lparr>ia_Action = [], ia_Time = 0\<rparr>) =
    Some \<lparr>ia_Action = action, ia_Time = t\<rparr>"
proof -
  have "dec_time lenient (JStr at at) x = Some t" for x
    using rfc3339_round_trip [OF assms(2)] by (simp add: dec_time_def UnmarshalTime_def)
  then have "dec_struct [''action'', ''time''] (store_action lenient) v \<lparr>ia_Action = [], ia_Time = 0\<rparr> =
      Some \<lparr>ia_Action = action, ia_Time = t\<rparr>"
    if "v = JObj [(''action'', JStr action raw), (''time'', JStr at at)] \<or>
      v = JObj [(''time'', JStr at at), (''action'', JStr action raw)]" for v raw
    using that by (elim disjE) (simp_all add: dec_struct_def dec_members.simps find_field_def store_action_def dec_str_def)
  with assms(1) show ?thesis unfolding notice_body_def by fastforce
qed

section \<open>The properties\<close>

text \<open>
  A token is reused as long as it has more than thirty seconds to live, without any request;
  otherwise one is requested, once, and it is what the client presents from then on, for
  six hours from when it arrived. A failed request leaves the cached token as it was.
\<close>

theorem token_cache:
  assumes "getToken ie c = (res, c')"
  shows "if ic_token c \<noteq> [] \<and> im_now ie (ic_calls c) < ic_tokenExpiry c - tokenRefreshSlop
    then res = Inr (ic_token c) \<and> c' = c\<lparr>ic_calls := ImdsNow # ic_calls c\<rparr>
    else (\<forall>tok. res = Inr tok \<longrightarrow> (\<exists>h. ic_calls c' = ImdsNow # h \<and>
           im_http ie (tl h) (hd h) = Inr \<lparr>hr_status = 200, hr_body = Inr tok\<rparr> \<and>
           ic_token c' = tok \<and> ic_tokenExpiry c' = im_now ie h + tokenTTL)) \<and>
         (\<forall>t. res = Inl t \<longrightarrow> ic_token c' = ic_token c \<and> ic_tokenExpiry c' = ic_tokenExpiry c)"
proof -
  have reply: "r = \<lparr>hr_status = 200, hr_body = Inr body\<rparr>" if "hr_status r = 200" "hr_body r = Inr body" for r body
    using that by (cases r) simp
  show ?thesis
    using assms reply
    by (auto simp: getToken_def imds_ops imds_record_def Let_def split: if_splits option.splits sum.splits)
qed

text \<open>The notice of the AWS documentation, blanks and all.\<close>

definition aws_notice :: string where
  "aws_notice = ''{'' @ json_string ''action'' @ '': '' @ json_string ''terminate'' @ '', '' @ json_string ''time'' @ '': '' @
     json_string ''2017-09-18T08:22:00Z'' @ ''}''"

lemma spaced_member:
  "read_member (read_value d) (json_string k @ CHR '':'' # CHR '' '' # json_string v @ t) =
     Some ((sanitize k, JStr (sanitize v) (escaped v)), t)"
proof -
  have "unquote (escaped k @ dquote # r) = Some (sanitize k, r)" for r
    using unquote_escapes [of "runes k" r] runes_rune_piece by (simp add: escaped_def sanitize_def list_all_iff)
  moreover have "read_value d (json_string v @ t) = Some (JStr (sanitize v) (escaped v), t)"
    using read_quoted_string [of v t] by (simp add: read_scalar_value read_scalar_def json_string_escaped dquote_def)
  ultimately show ?thesis by (simp add: read_member_def json_string_escaped dquote_def)
qed

lemma aws_notice_reads:
  "decode_text aws_notice = Some (JObj [(''action'', JStr ''terminate'' ''terminate''),
     (''time'', JStr ''2017-09-18T08:22:00Z'' ''2017-09-18T08:22:00Z'')])"
proof -
  have plain: "sanitize t = t" "escaped t = t" if "t \<in> {''action'', ''terminate'', ''time'', ''2017-09-18T08:22:00Z''}" for t
    using that by (auto simp: sanitize_ascii ascii_def intro!: escaped_plain) (auto simp: plain_char_def Let_def)
  obtain d where d: "max_nesting = Suc d" by (simp add: max_nesting_def)
  let ?m2 = "json_string ''time'' @ '': '' @ json_string ''2017-09-18T08:22:00Z'' @ ''}''"
  have "read_list n (read_member (read_value d)) (CHR ''}'') (json_string ''action'' @ '': '' @ json_string ''terminate'' @ '', '' @ ?m2) =
      Some ([(''action'', JStr ''terminate'' ''terminate''),
        (''time'', JStr ''2017-09-18T08:22:00Z'' ''2017-09-18T08:22:00Z'')], [])" if "n = Suc (Suc m)" for n m
    by (simp add: that spaced_member plain)
  moreover have "length (json_string ''action'' @ t) = Suc (Suc (length (escaped ''action'' @ t)))" for t
    by (simp add: json_string_escaped)
  moreover have "skip_ws (json_string ''action'' @ t) = dquote # escaped ''action'' @ dquote # t" for t
    by (simp add: json_string_escaped dquote_def)
  ultimately show ?thesis
    by (simp add: decode_text_def aws_notice_def d read_items_def dquote_def)
qed

definition sample_imds :: imds_env where
  "sample_imds = \<lparr>im_now = (\<lambda>h. 1000 * second * int (length h)), im_bad_url = (\<lambda>_. None),
     im_http = (\<lambda>h x. case x of
        TokenPut _ _ \<Rightarrow> Inr \<lparr>hr_status = 200, hr_body = Inr ''tok''\<rparr>
      | MetaGet url _ \<Rightarrow> (if url = defaultBaseURL @ pathSpotInstanceAction
          then Inr \<lparr>hr_status = 200, hr_body = Inr aws_notice\<rparr>
          else Inr \<lparr>hr_status = 404, hr_body = Inr []\<rparr>)
      | ImdsNow \<Rightarrow> Inl []),
     im_json_error = (\<lambda>_. ''invalid''), im_lenient = (\<lambda>_. None)\<rparr>"

definition sample_client :: imds_client where
  "sample_client = imds_NewClient (\<lambda>_. [])"

theorem token_cache_witness:
  "\<exists>c'. getToken sample_imds sample_client = (Inr ''tok'', c') \<and> ic_token c' = ''tok'' \<and>
     ic_tokenExpiry c' = 1000 * second + tokenTTL"
proof -
  obtain c' where c': "getToken sample_imds sample_client = (Inr ''tok'', c')"
    by (simp add: getToken_def imds_ops sample_imds_def sample_client_def imds_NewClient_def imds_record_def Let_def)
  moreover have "length (ic_calls c') = 2"
    using c' by (auto simp: getToken_def imds_ops sample_imds_def sample_client_def imds_NewClient_def
        imds_record_def Let_def)
  ultimately show ?thesis
    using token_cache [OF c'] by (auto simp: sample_client_def imds_NewClient_def sample_imds_def)
qed

text \<open>
  However long the provider runs and whatever the service answers, every metadata request
  carries a token that the service itself had issued before.
\<close>

theorem only_issued_tokens:
  assumes "provider_Run ie evs (imds_NewClient getenv) = (ss, ret, c')"
  shows "presented_ok ie (ic_calls c')"
proof -
  have "client_ok ie (imds_NewClient getenv)" by (simp add: client_ok_def imds_NewClient_def)
  with provider_poll_ok assms show ?thesis unfolding provider_Run_def client_ok_def by blast
qed

theorem only_issued_tokens_witness:
  "presented_ok sample_imds (ic_calls (snd (snd (provider_Run sample_imds [Tick] sample_client))))"
  using only_issued_tokens [of sample_imds "[Tick]" "\<lambda>_. []"] prod.collapse by (metis sample_client_def)

text \<open>
  Claim C25. One run of the provider reports a rebalance recommendation at most once and an
  interruption notice at most once, the notice last, and it has returned once the notice
  is reported.
\<close>

theorem provider_signals:
  assumes "provider_Run ie evs c = (ss, ret, c')"
  shows "map sig_Trigger ss \<in> {[], [''rebalance-recommendation''], [''interruption-notice''],
      [''rebalance-recommendation'', ''interruption-notice'']} \<and>
    (''interruption-notice'' \<in> set (map sig_Trigger ss) \<longrightarrow> ret)"
  by (rule provider_poll_triggers [OF assms [unfolded provider_Run_def],
        unfolded rebalance_trigger_def interruption_trigger_def if_False])

theorem provider_signals_witness:
  "map sig_Trigger (fst (provider_Run sample_imds [Tick, Tick] sample_client)) \<in>
     {[], [''rebalance-recommendation''], [''interruption-notice''],
      [''rebalance-recommendation'', ''interruption-notice'']}"
  using provider_signals [of sample_imds "[Tick, Tick]" sample_client] prod.collapse by metis

text \<open>
  Claim C24. An interruption notice is not missed: if the service answers every token request with a
  token and has a notice, with its action and time in JSON, whatever the blanks and the order of
  the two, then the first tick reports it with that action and time and the run returns, whatever
  comes of the rebalance check and of the requests for the details.
\<close>

theorem notice_reported:
  assumes "notice_pending ie (ic_baseURL c) body" and "notice_body body action at" and "rfc3339_nano t = Some at"
  shows "\<exists>ss sg c'. provider_Run ie (Tick # evs) c = (ss @ [sg], True, c') \<and>
    sig_Trigger sg = ''interruption-notice'' \<and> sig_Detail sg ''action'' = Some action \<and>
    sig_Detail sg ''notice_time'' = Some (rfc3339 t)"
proof -
  obtain rs seen c1 where c1: "poll_rebalance ie (Some (onRebalanceRecommendation ie)) False c = (rs, seen, c1)"
    by (metis prod_cases3)
  have "notice_pending ie (ic_baseURL c1) body" using assms(1) poll_rebalance_baseURL [OF c1] by simp
  then obtain c2 where c2: "imds_get ie pathSpotInstanceAction c1 = (Inr (Some body), c2)"
    using notice_found by blast
  let ?ia = "\<lparr>ia_Action = action, ia_Time = t\<rparr>"
  have "SpotInstanceAction ie c1 = (Inr (Some ?ia), c2)"
    using notice_body_decodes [OF assms(2,3)] by (simp add: SpotInstanceAction_def c2)
  moreover obtain sg c3 where c3: "onInterruptionNotice ie ?ia c2 = (sg, c3)" by fastforce
  ultimately have "provider_Run ie (Tick # evs) c = (rs @ [sg], True, c3)"
    by (simp add: provider_Run_def c1 run_callback_def)
  moreover have "sig_Trigger sg = ''interruption-notice'' \<and> sig_Detail sg ''action'' = Some action \<and>
      sig_Detail sg ''notice_time'' = Some (rfc3339 t)"
    using c3 by (auto simp: onInterruptionNotice_def split: prod.splits)
  ultimately show ?thesis by blast
qed

theorem notice_reported_witness:
  "\<exists>ss sg c'. provider_Run sample_imds [Tick] sample_client = (ss @ [sg], True, c') \<and>
     sig_Trigger sg = ''interruption-notice'' \<and> sig_Detail sg ''action'' = Some ''terminate''"
proof -
  have "ic_baseURL sample_client = defaultBaseURL" by (simp add: sample_client_def imds_NewClient_def)
  then have pend: "notice_pending sample_imds (ic_baseURL sample_client) aws_notice"
    by (simp add: notice_pending_def sample_imds_def)
  have body: "notice_body aws_notice ''terminate'' ''2017-09-18T08:22:00Z''"
    unfolding notice_body_def aws_notice_reads by (rule exI [of _ "''terminate''"]) simp
  have at: "rfc3339_nano 63641319720000000000 = Some ''2017-09-18T08:22:00Z''" by code_simp
  from notice_reported [OF pend body at] show ?thesis by blast
qed

end
