(* ===== verification/Spec2Isabelle.thy ===== *)
theory Spec2Isabelle
  imports StoreProps StoreOpen DaemonRegister ConcurrentProps CliRun CliDaemon ImdsProps ConfigProps
begin

text \<open>
  A verification development for surviva, a checkpoint and restore tool for long-running jobs on
  machines that may be taken away (\<open>src/\<close>, a Go program).

  \<^bold>\<open>The program.\<close> A daemon (\<open>internal/daemon\<close>) keeps the jobs of one machine in an SQL database
  (\<open>internal/store\<close>), each with a status that moves along a fixed table. Commands
  (\<open>cmd/surviva\<close>) talk to it over a Unix socket with one JSON request and one JSON answer per
  connection (\<open>internal/ipc\<close>): they register a process they have started or found, pause it (a
  checkpoint, by the user's hook or by CRIU), resume, cancel, complete, list, show and prune.
  A provider (\<open>internal/daemon/provider/aws\<close> over \<open>internal/imds\<close>) polls the cloud's metadata
  service; on an interruption signal the daemon refuses new jobs from then on, notifies an
  external target (\<open>internal/daemon/notify/aws\<close>) and checkpoints every running job, a bounded
  number at a time. Daemon and commands append to one audit log (\<open>internal/auditlog\<close>), and
  read \<open>surviva.conf\<close> (\<open>internal/config\<close>).

  \<^bold>\<open>How it is modelled.\<close> A Go function is a HOL function of the same name that passes the state
  along; an error is a value; a loop is a terminating recursion, so every operation is
  total and no fuel is needed. What the program cannot decide itself is an answer of an environment
  given as a function of the calls made before (\<open>env\<close> in \<open>World\<close>, \<open>net_env\<close> in \<open>Ipc\<close>, \<open>imds_env\<close> in
  \<open>Imds\<close>, \<open>cli_env\<close> in \<open>Cli\<close>): the clock, the database driver's faults, files, child processes, the
  network, the metadata service. A theorem holds for every environment unless a hypothesis
  restricts it; the usual ones are \<open>sql_ok\<close> (the driver reports no error) and \<open>net_ok\<close> (the
  connection holds). Unicode tables the program takes from Go's library (\<open>unicode_tables\<close>) and
  the reading of times outside the RFC 3339 layout (\<open>lenient\<close>) are parameters. A Go \<open>int\<close> is an
  \<open>int\<close> with its 64-bit bounds where they matter (ids, process ids, durations), file modes are
  words, strings are byte lists.

  \<^bold>\<open>The theories.\<close>

  \<^item> \<open>Prelude\<close>: types, tables as lists of rows, lemma collections. \<open>Strconv\<close>, \<open>Utf8\<close>, \<open>Gostrings\<close>,
    \<open>Json\<close>, \<open>JsonValue\<close>, \<open>Rfc3339\<close>, \<open>Flags\<close>: what the program uses of Go's library, each with the
    lemma that what is printed reads back (integers, quoted strings, JSON values, times,
    command line flags).
  \<^item> \<open>JobStatus\<close>: \<open>Status\<close>, \<open>validTransitions\<close>, and the transition relation \<open>status_step\<close>.
  \<^item> \<open>World\<close>: the database, the calls, the environment. \<open>Store\<close> is \<open>internal/store/store.go\<close> method by
    method with its transactions; \<open>StoreInv\<close> the well-formedness \<open>store_wf\<close>, its preservation, and
    the locale \<open>lifecycle\<close>, what a system of steps promises about its jobs' statuses;
    \<open>StoreProps\<close> the behaviour of each method, atomic updates and the history as a walk through
    the table; \<open>StoreOpen\<close> opening, creating and migrating a database.
  \<^item> \<open>Runner\<close>: \<open>internal/criu\<close>, \<open>checkpoint\<close>, \<open>resume\<close> and \<open>procsignal\<close>, and the locale \<open>job_runner\<close> with
    what the daemon relies on of the functions it checkpoints and resumes with. \<open>AuditLog\<close>:
    an entry is one line, written at once.
  \<^item> \<open>Daemon\<close>: the handlers and \<open>dispatch\<close>. \<open>DaemonInv\<close> shows that each of them evolves the database
    only by legal steps, \<open>DaemonProps\<close> what follows for runs of one request or signal at a time, \<open>DaemonHandlers\<close> and
    \<open>DaemonRegister\<close> what each request does on every branch, and that the outcome is the one the
    hook, CRIU or the signal reported.
  \<^item> \<open>Fanout\<close>, \<open>FanoutProps\<close>: the checkpoints of an interruption as a step relation over the atomic
    actions of the goroutines, interleaved in any order with each other and with requests
    that leave their jobs alone: bounded, terminating, complete; equal to the sequential
    loop when one at a time is allowed; and what goes wrong when a cancel interferes.
  \<^item> \<open>Concurrent\<close>: the whole daemon as it runs. Every handler again as a program of atomic actions (a
    query, a transaction, a look at the latch, a command run), proved equal to its function when
    run alone, and a pool of goroutines, one per connection, signal, checkpoint and notification,
    that takes these actions in any order. \<open>ConcurrentInv\<close>: what every action keeps of the job
    table (\<open>table_wf\<close>) whatever the others do in between; here the two halves of \<open>UpdateStatus\<close>
    lie apart. \<open>ConcurrentProps\<close>: the locale \<open>pool_contract\<close>, that what each action keeps the pool
    keeps, interpreted for the table and for the latch; the invariant of every interleaving,
    what holds from an interruption signal on, and the registration the latch does not stop.
  \<^item> \<open>Messages\<close>, \<open>MessagesProps\<close>: the JSON form of every message and its round trip. \<open>Ipc\<close>: socket,
    accept loop, connection and client; the locale \<open>request_server\<close> makes a call over the wire
    a call of \<open>dispatch\<close>.
  \<^item> \<open>Imds\<close>, \<open>ImdsProps\<close>: metadata client with its token cache, poller, provider, notification
    targets; which signals are reported, and when.
  \<^item> \<open>Config\<close>, \<open>ConfigProps\<close>: the configuration file, its round trip, and what a file that loads
    guarantees.
  \<^item> \<open>Process\<close> (the small packages over system calls), \<open>Render\<close> (what \<open>list\<close> and \<open>show\<close> print), \<open>Cli\<close>
    (every command from its flags to its exit status). \<open>CliProps\<close>: the frames of the commands
    (locales \<open>command_frame\<close> and \<open>kept_peer\<close>), \<open>run\<close> returns its child's status, \<open>join\<close> takes only
    group leaders. \<open>CliRun\<close>: a job run to its end is recorded so, through client, wire, daemon
    and store, and \<open>pause\<close>, \<open>resume\<close> and \<open>cancel\<close> are one call of their handler. \<open>CliDaemon\<close>: a
    daemon serves only when everything is in place.

  \<^bold>\<open>Assumptions to know.\<close> A statement for which the driver reports an error has had no effect,
  and a transaction none before its commit. The daemon runs each connection in a goroutine of its
  own: \<open>Concurrent\<close> and \<open>Fanout\<close> say what holds then. What is said of a single request or
  command (\<open>DaemonHandlers\<close>, \<open>DaemonRegister\<close>, \<open>Ipc\<close>, the \<open>Cli\<close> theories) is said of one that runs
  without another acting on the same job in between, which is one of the schedules. A time is
  stored as \<open>column_time\<close> of it, for the columns of the database at hand. A hook that never
  returns is a goroutine that takes no further action. The audit file is one file, written by the daemon and by commands
  configured with the same path. JSON nests at most 10000 deep, as Go's decoder limits it. An absent and an
  empty slice of a response are one list. A signal that ends the daemon is an accept error
  after the context is done.

  \<^bold>\<open>Not modelled.\<close> What is only printed to the daemon's log; the SQL text of the MySQL schema
  and the drivers (a statement is its effect on the tables); the AWS SDK (its calls are
  parameters); the cancelling of \<open>Context\<close>s and the timeouts of the HTTP client; the memory
  model: an atomic action is a call to the database, the file system or a child.
\<close>

end
